(* ===== verification/Go_Base.thy ===== *)
theory Go_Base
  imports Complex_Main "HOL-Library.Word" "HOL-Library.Signed_Division" "HOL-Library.Sublist"
begin

text \<open>
  The prelude: the Go types and the parts of the Go language and standard library that the
  components share.  Fixed-width integers are words read with \<open>sint\<close>; Go's \<open>int\<close> is the
  64-bit word of the platforms the tool is built for.  A call that can return, report an
  error or panic has the type \<open>outcome\<close>.  Strings are byte lists.  The last sections hold
  the decimal printing and parsing of \<open>fmt\<close> and \<open>strconv\<close>, the string functions the
  configuration code calls, and the drop-oldest trimming of a slice.
\<close>

section \<open>Collections of facts\<close>

named_theorems go_word \<open>facts that move signed word arithmetic to the integers\<close>
named_theorems go_string \<open>evaluation and length facts of the string functions\<close>
named_theorems go_slice \<open>facts about slices trimmed at the front\<close>

section \<open>Machine integers\<close>

type_synonym int32 = "32 word"
type_synonym int64 = "64 word"
type_synonym uint64 = "64 word"
type_synonym go_int = "64 word"
type_synonym Duration = "64 word"

text \<open>Signed values are kept in the form \<open>sint x\<close> through every conversion.\<close>

declare of_int_sint [simp del] of_int_uint [simp del]

lemma word_of_int_sint [simp]: "word_of_int (sint x) = (x :: 'a :: len word)"
  by (simp add: of_int_sint)

lemma word_of_int_of_uint [simp]: "word_of_int (uint x) = (x :: 'a :: len word)"
  by (simp add: of_int_uint)

lemma sint32_lower [simp]: "- 2147483648 \<le> sint (x :: int32)"
  using sint_ge [of x] by simp

lemma sint32_upper [simp]: "sint (x :: int32) < 2147483648"
  using sint_lt [of x] by simp

lemma abs_sint32_le [simp]: "\<bar>sint (x :: int32)\<bar> \<le> 9007199254740992"
  using sint32_lower [of x] sint32_upper [of x] by linarith

lemma sint64_lower [simp]: "- 9223372036854775808 \<le> sint (x :: int64)"
  using sint_ge [of x] by simp

lemma sint64_upper [simp]: "sint (x :: int64) < 9223372036854775808"
  using sint_lt [of x] by simp

lemma sint_of_int_64 [go_word]:
  "- 9223372036854775808 \<le> i \<Longrightarrow> i < 9223372036854775808 \<Longrightarrow> sint (word_of_int i :: int64) = i"
  by (simp add: sint_sbintrunc' signed_take_bit_int_eq_self)

lemma sint_of_int_32 [go_word]:
  "- 2147483648 \<le> i \<Longrightarrow> i < 2147483648 \<Longrightarrow> sint (word_of_int i :: int32) = i"
  by (simp add: sint_sbintrunc' signed_take_bit_int_eq_self)

lemma sint_of_nat_32 [go_word]: "n < 2147483648 \<Longrightarrow> sint (word_of_nat n :: int32) = int n"
  using sint_of_int_32 [of "int n"] by simp

lemma sint_of_nat_64 [go_word]: "n < 9223372036854775808 \<Longrightarrow> sint (word_of_nat n :: int64) = int n"
  using sint_of_int_64 [of "int n"] by simp

lemma sint_mult_64 [go_word]:
  "- 9223372036854775808 \<le> sint a * sint b \<Longrightarrow> sint a * sint b < 9223372036854775808
    \<Longrightarrow> sint ((a :: int64) * b) = sint a * sint b"
  by (simp add: sint_word_ariths signed_take_bit_int_eq_self)

lemma sint_add_64 [go_word]:
  "- 9223372036854775808 \<le> sint a + sint b \<Longrightarrow> sint a + sint b < 9223372036854775808
    \<Longrightarrow> sint ((a :: int64) + b) = sint a + sint b"
  by (simp add: sint_word_ariths signed_take_bit_int_eq_self)

lemma sint_sub_64 [go_word]:
  "- 9223372036854775808 \<le> sint a - sint b \<Longrightarrow> sint a - sint b < 9223372036854775808
    \<Longrightarrow> sint ((a :: int64) - b) = sint a - sint b"
  by (simp add: sint_word_ariths signed_take_bit_int_eq_self)

lemma sint_scast_32_64 [simp]: "sint (scast (x :: int32) :: int64) = sint x"
  by (rule sint_up_scast) (simp add: is_up)

lemma word_eq_sint_iff: "(x :: 'a :: len word) = y \<longleftrightarrow> sint x = sint y"
  by (metis signed_word_eqI)

text \<open>
  Integer division and remainder truncate towards zero.  The divisor is never zero where the
  program divides (Go would panic).
\<close>

definition quot64 :: "int64 \<Rightarrow> int64 \<Rightarrow> int64" where
  "quot64 a b = word_of_int (sint a sdiv sint b)"

definition rem64 :: "int64 \<Rightarrow> int64 \<Rightarrow> int64" where
  "rem64 a b = word_of_int (sint a smod sint b)"

lemma sint_quot64_pos [go_word]:
  assumes "0 \<le> sint a" and "0 < sint b" shows "sint (quot64 a b) = sint a div sint b"
proof -
  have "sint a div sint b \<le> sint a" and "0 \<le> sint a div sint b"
    using assms zdiv_mono2 [of "sint a" 1 "sint b"] by (simp_all add: pos_imp_zdiv_nonneg_iff)
  moreover have "sint a sdiv sint b = sint a div sint b"
    using assms by (simp add: signed_divide_int_def sgn_if)
  moreover have "sint a < 9223372036854775808" by simp
  ultimately show ?thesis
    unfolding quot64_def by (intro sint_of_int_64 [THEN trans]) linarith+
qed

text \<open>The built-in \<open>min\<close> and \<open>max\<close> on signed integers.\<close>

definition smin :: "'a :: len word \<Rightarrow> 'a word \<Rightarrow> 'a word" where
  "smin a b = (if sint a \<le> sint b then a else b)"

definition smax :: "'a :: len word \<Rightarrow> 'a word \<Rightarrow> 'a word" where
  "smax a b = (if sint a \<le> sint b then b else a)"

lemma sint_smin [simp]: "sint (smin a b) = min (sint a) (sint b)"
  by (simp add: smin_def min_def)

lemma sint_smax [simp]: "sint (smax a b) = max (sint a) (sint b)"
  by (simp add: smax_def max_def)

section \<open>Results of calls that can fail\<close>

datatype ('e, 'a) outcome = Return 'a | Error 'e | Panic

fun obind :: "('e, 'a) outcome \<Rightarrow> ('a \<Rightarrow> ('e, 'b) outcome) \<Rightarrow> ('e, 'b) outcome" where
  "obind (Return x) f = f x"
| "obind (Error e) f = Error e"
| "obind Panic f = Panic"

text \<open>A loop that collects the results of its body and stops at the first error or panic.\<close>

fun omap :: "('a \<Rightarrow> ('e, 'b) outcome) \<Rightarrow> 'a list \<Rightarrow> ('e, 'b list) outcome" where
  "omap f [] = Return []"
| "omap f (x # xs) = obind (f x) (\<lambda>y. obind (omap f xs) (\<lambda>ys. Return (y # ys)))"

lemma omap_Return: "(\<And>x. x \<in> set xs \<Longrightarrow> f x = Return (g x)) \<Longrightarrow> omap f xs = Return (map g xs)"
  by (induction xs) auto

lemma obind_eq_Return [simp]: "obind m f = Return y \<longleftrightarrow> (\<exists>x. m = Return x \<and> f x = Return y)"
  by (cases m) auto

lemma omap_eq_ReturnD:
  "omap f xs = Return ys \<Longrightarrow> length ys = length xs \<and> (\<forall>i < length xs. f (xs ! i) = Return (ys ! i))"
proof (induction xs arbitrary: ys)
  case (Cons x xs)
  then show ?case by (auto simp: nth_Cons split: nat.splits)
qed simp

section \<open>Decimal printing and parsing\<close>

definition digit :: "nat \<Rightarrow> char" where
  "digit d = char_of (48 + d)"

fun digits :: "nat \<Rightarrow> string" where
  "digits n = (if n < 10 then [digit n] else digits (n div 10) @ [digit (n mod 10)])"

declare digits.simps [simp del]

definition show_int :: "int \<Rightarrow> string" where
  "show_int i = (if i < 0 then CHR ''-'' # digits (nat (- i)) else digits (nat i))"

definition is_digit :: "char \<Rightarrow> bool" where
  "is_digit c \<longleftrightarrow> 48 \<le> (of_char c :: nat) \<and> (of_char c :: nat) \<le> 57"

definition digit_value :: "char \<Rightarrow> nat" where
  "digit_value c = of_char c - 48"

text \<open>
  \<open>strconv.ParseInt(s, 10, 64)\<close>: an optional sign, then at least one digit and nothing else,
  and the value in the range of \<open>int64\<close>.
\<close>

definition parse_digits :: "string \<Rightarrow> nat option" where
  "parse_digits s = (if s \<noteq> [] \<and> list_all is_digit s
     then Some (foldl (\<lambda>v c. 10 * v + digit_value c) 0 s) else None)"

definition ParseInt :: "string \<Rightarrow> int64 option" where
  "ParseInt s =
     (case s of
        [] \<Rightarrow> None
      | c # cs \<Rightarrow>
          (if c = CHR ''-'' then
             (case parse_digits cs of
                None \<Rightarrow> None
              | Some v \<Rightarrow> if v \<le> 9223372036854775808 then Some (word_of_int (- int v)) else None)
           else
             (case parse_digits (if c = CHR ''+'' then cs else s) of
                None \<Rightarrow> None
              | Some v \<Rightarrow> if v < 9223372036854775808 then Some (word_of_int (int v)) else None)))"

lemma of_char_digit: "d < 10 \<Longrightarrow> (of_char (digit d) :: nat) = 48 + d"
  by (simp add: digit_def)

lemma is_digit_digit [simp]: "d < 10 \<Longrightarrow> is_digit (digit d)"
  by (simp add: is_digit_def of_char_digit)

lemma digit_value_digit [simp]: "d < 10 \<Longrightarrow> digit_value (digit d) = d"
  by (simp add: digit_value_def of_char_digit)

lemma digits_not_Nil [simp]: "digits n \<noteq> []"
  by (subst digits.simps) simp

lemma digits_all_digit [simp]: "list_all is_digit (digits n)"
proof (induction n rule: digits.induct)
  case (1 n)
  then show ?case by (subst digits.simps) simp
qed

lemma digits_value:
  "foldl (\<lambda>v c. 10 * v + digit_value c) 0 (digits n) = n"
proof (induction n rule: digits.induct)
  case (1 n)
  then show ?case
    by (subst digits.simps) simp
qed

lemma parse_digits_digits [simp]: "parse_digits (digits n) = Some n"
  by (simp add: parse_digits_def digits_value)

lemma not_digit_chars [simp]:
  "\<not> is_digit (CHR ''-'')" "\<not> is_digit (CHR ''_'')" "\<not> is_digit (CHR '':'')"
  "\<not> is_digit (CHR ''+'')" "\<not> is_digit (CHR ''%'')" "\<not> is_digit (CHR ''.'')"
  by (simp_all add: is_digit_def)

lemma digits_hd_digit: "digits n = c # cs \<Longrightarrow> is_digit c"
  using digits_all_digit [of n] by simp

lemma digits_inject [simp]: "digits m = digits n \<longleftrightarrow> m = n"
  by (metis parse_digits_digits option.inject)

lemma show_int_nonneg: "0 \<le> i \<Longrightarrow> show_int i = digits (nat i)"
  by (simp add: show_int_def)

lemma ParseInt_show_int [simp]: "ParseInt (show_int (sint (x :: int64))) = Some x"
proof (cases "sint x < 0")
  case True
  have b: "nat (- sint x) \<le> 9223372036854775808"
    using sint64_lower [of x] by linarith
  have "int (nat (- sint x)) = - sint x" using True by simp
  with True b show ?thesis
    by (simp add: show_int_def ParseInt_def)
next
  case False
  obtain c cs where d: "digits (nat (sint x)) = c # cs"
    by (cases "digits (nat (sint x))") simp_all
  then have "is_digit c" by (rule digits_hd_digit)
  then have "c \<noteq> CHR ''-''" and "c \<noteq> CHR ''+''" by auto
  moreover have "nat (sint x) < 9223372036854775808"
    using sint64_upper [of x] False by linarith
  moreover have "parse_digits (c # cs) = Some (nat (sint x))"
    using parse_digits_digits [of "nat (sint x)"] by (simp add: d)
  ultimately show ?thesis using False
    by (simp add: show_int_def ParseInt_def d)
qed

lemma show_int_inject [simp]: "show_int i = show_int j \<longleftrightarrow> i = j"
proof
  assume eq: "show_int i = show_int j"
  show "i = j"
  proof (cases "i < 0"; cases "j < 0")
    assume "\<not> i < 0" "j < 0"
    with eq show ?thesis
      using digits_hd_digit [of "nat i"] by (auto simp: show_int_def)
  next
    assume "i < 0" "\<not> j < 0"
    with eq have "digits (nat j) = CHR ''-'' # digits (nat (- i))"
      by (simp add: show_int_def)
    then show ?thesis using digits_hd_digit by fastforce
  qed (use eq in \<open>auto simp: show_int_def\<close>)
qed simp

lemma set_show_int: "c \<in> set (show_int i) \<Longrightarrow> is_digit c \<or> c = CHR ''-''"
  using digits_all_digit by (auto simp: show_int_def list_all_iff split: if_splits)

section \<open>String functions\<close>

text \<open>\<open>strings.ReplaceAll(s, "{}", "%d")\<close>, left to right and without overlaps.\<close>

fun ReplaceAll_braces :: "string \<Rightarrow> string" where
  "ReplaceAll_braces [] = []"
| "ReplaceAll_braces [c] = [c]"
| "ReplaceAll_braces (c # d # cs) =
     (if c = CHR ''{'' \<and> d = CHR ''}'' then ''%d'' @ ReplaceAll_braces cs
      else c # ReplaceAll_braces (d # cs))"

text \<open>\<open>strings.Contains(s, t)\<close>.\<close>

abbreviation Contains :: "string \<Rightarrow> string \<Rightarrow> bool" where
  "Contains s t \<equiv> sublist t s"

text \<open>\<open>strings.Split(s, sep)\<close> for a separator of one byte.\<close>

fun Split :: "string \<Rightarrow> char \<Rightarrow> string list" where
  "Split [] sep = [[]]"
| "Split (c # cs) sep =
     (if c = sep then [] # Split cs sep
      else (case Split cs sep of [] \<Rightarrow> [[c]] | w # ws \<Rightarrow> (c # w) # ws))"

lemma Split_not_Nil [simp]: "Split s sep \<noteq> []"
  by (induction s) (auto split: list.splits)

lemma Split_no_sep [go_string]: "sep \<notin> set s \<Longrightarrow> Split s sep = [s]"
  by (induction s) auto

lemma Split_append_sep [go_string]:
  "sep \<notin> set s \<Longrightarrow> Split (s @ sep # t) sep = s # Split t sep"
  by (induction s) auto

lemma hd_ReplaceAll_braces:
  "prefix ''}'' (ReplaceAll_braces (c # cs)) \<Longrightarrow> c = CHR ''}''"
  by (cases cs) (auto split: if_splits)

lemma ReplaceAll_braces_Nil_iff [simp]: "ReplaceAll_braces s = [] \<longleftrightarrow> s = []"
  by (induction s rule: ReplaceAll_braces.induct) auto

lemma prefix_braces_Cons:
  "prefix ''{}'' (c # cs) \<longleftrightarrow> c = CHR ''{'' \<and> (\<exists>ds. cs = CHR ''}'' # ds)"
  by (cases cs) auto

lemma ReplaceAll_braces_no_braces: "\<not> Contains (ReplaceAll_braces s) ''{}''"
proof (induction s rule: ReplaceAll_braces.induct)
  case (3 c d cs)
  show ?case
  proof (cases "c = CHR ''{'' \<and> d = CHR ''}''")
    case True
    then show ?thesis using 3(1) by (simp add: sublist_Cons_right)
  next
    case False
    have "\<not> prefix ''{}'' (c # ReplaceAll_braces (d # cs))"
      using False hd_ReplaceAll_braces [of d cs] by auto
    with 3(2) [OF False] have "\<not> Contains (c # ReplaceAll_braces (d # cs)) ''{}''"
      by (simp add: sublist_Cons_right)
    with False show ?thesis by (simp only: ReplaceAll_braces.simps if_not_P not_False_eq_True)
  qed
qed (simp_all add: sublist_Cons_right)

lemma ReplaceAll_braces_id: "\<not> Contains s ''{}'' \<Longrightarrow> ReplaceAll_braces s = s"
proof (induction s rule: ReplaceAll_braces.induct)
  case (3 c d cs)
  have "\<not> (c = CHR ''{'' \<and> d = CHR ''}'')"
    using 3(3) by (auto simp: prefix_braces_Cons)
  with 3 show ?case by (simp add: sublist_Cons_right)
qed simp_all

lemma ReplaceAll_braces_idem [simp]:
  "ReplaceAll_braces (ReplaceAll_braces s) = ReplaceAll_braces s"
  by (rule ReplaceAll_braces_id) (rule ReplaceAll_braces_no_braces)

lemma Contains_percent_d: "Contains s ''%d'' \<longleftrightarrow> (\<exists>a b. s = a @ CHR ''%'' # CHR ''d'' # b)"
  by (simp add: sublist_def)

text \<open>
  \<open>fmt.Sprintf(format, n)\<close> with one \<open>int32\<close> operand, for formats whose directives are
  \<open>%d\<close> and \<open>%%\<close>: a second \<open>%d\<close> finds no operand, an operand that no directive used is
  reported at the end, and a lone \<open>%\<close> at the end has no verb.  What \<open>fmt\<close> prints for any
  other directive is the parameter \<open>other\<close>.
\<close>

fun plain_format :: "string \<Rightarrow> bool" where
  "plain_format [] = True"
| "plain_format [c] = True"
| "plain_format (c # d # cs) =
     (if c = CHR ''%'' then (d = CHR ''d'' \<or> d = CHR ''%'') \<and> plain_format cs
      else plain_format (d # cs))"

fun printf_d :: "bool \<Rightarrow> int32 \<Rightarrow> string \<Rightarrow> string" where
  "printf_d used n [] = (if used then [] else ''%!(EXTRA int32='' @ show_int (sint n) @ '')'')"
| "printf_d used n [c] =
     (if c = CHR ''%'' then ''%!(NOVERB)'' else [c]) @ printf_d used n []"
| "printf_d used n (c # d # cs) =
     (if c \<noteq> CHR ''%'' then c # printf_d used n (d # cs)
      else if d = CHR ''%'' then CHR ''%'' # printf_d used n cs
      else if used then ''%!d(MISSING)'' @ printf_d used n cs
      else show_int (sint n) @ printf_d True n cs)"

definition Sprintf_int32 :: "(string \<Rightarrow> int32 \<Rightarrow> string) \<Rightarrow> string \<Rightarrow> int32 \<Rightarrow> string" where
  "Sprintf_int32 other format n =
     (if plain_format format then printf_d False n format else other format n)"

lemma plain_format_no_percent [simp]: "CHR ''%'' \<notin> set s \<Longrightarrow> plain_format s"
  by (induction s rule: plain_format.induct) auto

lemma plain_format_append_d:
  "CHR ''%'' \<notin> set s \<Longrightarrow> plain_format (s @ CHR ''%'' # CHR ''d'' # t) = plain_format t"
  by (induction s rule: plain_format.induct) auto

lemma printf_d_used_no_percent:
  "CHR ''%'' \<notin> set s \<Longrightarrow> printf_d True n s = s"
  by (induction True n s rule: printf_d.induct) auto

lemma printf_d_append_d:
  "CHR ''%'' \<notin> set s \<Longrightarrow>
   printf_d False n (s @ CHR ''%'' # CHR ''d'' # t) = s @ show_int (sint n) @ printf_d True n t"
proof (induction s)
  case (Cons c cs)
  then show ?case by (cases cs) auto
qed simp

lemma ReplaceAll_braces_append:
  "CHR ''{'' \<notin> set s \<Longrightarrow> ReplaceAll_braces (s @ t) = s @ ReplaceAll_braces t"
proof (induction s)
  case (Cons c cs)
  then show ?case by (cases "cs @ t") auto
qed simp

section \<open>Slices trimmed at the front\<close>

definition last_n :: "nat \<Rightarrow> 'a list \<Rightarrow> 'a list" where
  "last_n n xs = drop (length xs - n) xs"

lemma length_last_n [simp]: "length (last_n n xs) = min n (length xs)"
  by (simp add: last_n_def)

lemma last_n_id [go_slice]: "length xs \<le> n \<Longrightarrow> last_n n xs = xs"
  by (simp add: last_n_def)

lemma suffix_last_n: "suffix (last_n n xs) xs"
  by (simp add: last_n_def suffix_drop)

lemma set_last_n: "set (last_n n xs) \<subseteq> set xs"
  by (simp add: last_n_def set_drop_subset)

lemma last_n_0 [simp]: "last_n 0 xs = []"
  by (simp add: last_n_def)

lemma last_n_Nil [simp]: "last_n n [] = []"
  by (simp add: last_n_def)

lemma last_n_append_last_n [go_slice]: "last_n n (last_n n xs @ ys) = last_n n (xs @ ys)"
proof (cases "length xs \<le> n")
  case False
  then have "length (last_n n xs @ ys) - n + (length xs - n) = length (xs @ ys) - n"
    by simp
  with False show ?thesis by (simp add: last_n_def)
qed (simp add: last_n_id)

lemma map_last_n: "map f (last_n n xs) = last_n n (map f xs)"
  by (simp add: last_n_def drop_map)

lemma last_n_snoc: "0 < n \<Longrightarrow> last_n n (xs @ [x]) = last_n (n - 1) xs @ [x]"
  by (cases "length xs < n") (auto simp: last_n_def Suc_diff_le)

end
