(* ===== verification/Float64.thy ===== *)
theory Float64
  imports Go_Base "HOL-Library.Log_Nat"
begin

text \<open>
  Go's \<open>float64\<close>: IEEE 754 binary64 with round to nearest, ties to even.  A finite value is
  the rational number it stands for (the two zeros are one value), the others are the
  infinities and NaN.  The first part defines rounding and the operations the program uses;
  the second proves the facts the components rely on: rounding is monotone, leaves every
  dyadic number with at most 53 significant bits alone, and has a relative error of at most
  2 to the power -53.
\<close>

section \<open>Rounding\<close>

abbreviation pow2 :: "int \<Rightarrow> rat" where
  "pow2 e \<equiv> 2 powi e"

definition ilog2 :: "rat \<Rightarrow> int" where
  "ilog2 x = (let (p, q) = quotient_of x;
                  d = int (floorlog 2 (nat p)) - int (floorlog 2 (nat q))
              in if pow2 d \<le> x then d else d - 1)"

definition round_even :: "rat \<Rightarrow> int" where
  "round_even x = (let f = \<lfloor>x\<rfloor>; d = x - of_int f
                   in if d < 1 / 2 then f else if 1 / 2 < d then f + 1
                      else if even f then f else f + 1)"

text \<open>The exponent of the unit in the last place; below the normal range it stays at -1074.\<close>

definition ulp_exp :: "rat \<Rightarrow> int" where
  "ulp_exp x = max (ilog2 x) (- 1022) - 52"

definition round_pos :: "rat \<Rightarrow> rat" where
  "round_pos x = of_int (round_even (x / pow2 (ulp_exp x))) * pow2 (ulp_exp x)"

definition round_rat :: "rat \<Rightarrow> rat" where
  "round_rat x = (if x = 0 then 0 else if 0 < x then round_pos x else - round_pos (- x))"

datatype float64 = Fin rat | PInf | NInf | NaN

definition fl :: "rat \<Rightarrow> float64" where
  "fl x = (let r = round_rat x
           in if pow2 1024 \<le> r then PInf else if r \<le> - pow2 1024 then NInf else Fin r)"

section \<open>Operations\<close>

fun fneg :: "float64 \<Rightarrow> float64" where
  "fneg (Fin x) = Fin (- x)" | "fneg PInf = NInf" | "fneg NInf = PInf" | "fneg NaN = NaN"

fun fadd :: "float64 \<Rightarrow> float64 \<Rightarrow> float64" where
  "fadd NaN y = NaN"
| "fadd x NaN = NaN"
| "fadd (Fin x) (Fin y) = fl (x + y)"
| "fadd PInf NInf = NaN"
| "fadd NInf PInf = NaN"
| "fadd (Fin x) y = y"
| "fadd x y = x"

definition finf :: "rat \<Rightarrow> float64" where
  "finf s = (if s = 0 then NaN else if 0 < s then PInf else NInf)"

fun fsgn :: "float64 \<Rightarrow> rat" where
  "fsgn (Fin x) = sgn x" | "fsgn PInf = 1" | "fsgn NInf = - 1" | "fsgn NaN = 0"

fun fmul :: "float64 \<Rightarrow> float64 \<Rightarrow> float64" where
  "fmul NaN y = NaN"
| "fmul x NaN = NaN"
| "fmul (Fin x) (Fin y) = fl (x * y)"
| "fmul x y = finf (fsgn x * fsgn y)"

fun fdiv :: "float64 \<Rightarrow> float64 \<Rightarrow> float64" where
  "fdiv NaN y = NaN"
| "fdiv x NaN = NaN"
| "fdiv (Fin x) (Fin y) = (if y = 0 then finf (sgn x) else fl (x / y))"
| "fdiv (Fin x) y = Fin 0"
| "fdiv x (Fin y) = finf (fsgn x * (if y < 0 then - 1 else 1))"
| "fdiv x y = NaN"

fun fle :: "float64 \<Rightarrow> float64 \<Rightarrow> bool" where
  "fle NaN y = False"
| "fle x NaN = False"
| "fle NInf y = True"
| "fle x PInf = True"
| "fle (Fin x) (Fin y) = (x \<le> y)"
| "fle PInf y = False"
| "fle x NInf = False"

definition flt :: "float64 \<Rightarrow> float64 \<Rightarrow> bool" where
  "flt x y \<longleftrightarrow> fle x y \<and> x \<noteq> y"

text \<open>The built-in \<open>min\<close> and \<open>max\<close> on floats return NaN when an operand is NaN.\<close>

definition fmin :: "float64 \<Rightarrow> float64 \<Rightarrow> float64" where
  "fmin x y = (if x = NaN \<or> y = NaN then NaN else if fle x y then x else y)"

definition fmax :: "float64 \<Rightarrow> float64 \<Rightarrow> float64" where
  "fmax x y = (if x = NaN \<or> y = NaN then NaN else if fle x y then y else x)"

text \<open>The class syntax of order, sum and product for floats (NaN is not below itself).\<close>

instantiation float64 :: "{ord, plus, times, uminus}"
begin

definition less_eq_float64 :: "float64 \<Rightarrow> float64 \<Rightarrow> bool" where
  "less_eq_float64 = fle"

definition less_float64 :: "float64 \<Rightarrow> float64 \<Rightarrow> bool" where
  "less_float64 = flt"

definition plus_float64 :: "float64 \<Rightarrow> float64 \<Rightarrow> float64" where
  "plus_float64 = fadd"

definition times_float64 :: "float64 \<Rightarrow> float64 \<Rightarrow> float64" where
  "times_float64 = fmul"

definition uminus_float64 :: "float64 \<Rightarrow> float64" where
  "uminus_float64 = fneg"

instance ..

end

lemmas float64_class_defs =
  less_eq_float64_def less_float64_def plus_float64_def times_float64_def uminus_float64_def

section \<open>Conversions\<close>

definition float_of_int :: "int \<Rightarrow> float64" where
  "float_of_int i = fl (of_int i)"

definition trunc_rat :: "rat \<Rightarrow> int" where
  "trunc_rat x = (if 0 \<le> x then \<lfloor>x\<rfloor> else \<lceil>x\<rceil>)"

text \<open>
  A conversion to an integer type drops the fraction.  When the truncated value does not fit
  the type, the Go specification leaves the result to the implementation: it is the
  parameter \<open>oob\<close>.
\<close>

record impl =
  oob32 :: "float64 \<Rightarrow> int32"
  oob64 :: "float64 \<Rightarrow> int64"

fun to_int32 :: "impl \<Rightarrow> float64 \<Rightarrow> int32" where
  "to_int32 im (Fin x) =
     (if - 2147483648 \<le> trunc_rat x \<and> trunc_rat x < 2147483648
      then word_of_int (trunc_rat x) else oob32 im (Fin x))"
| "to_int32 im x = oob32 im x"

fun to_int64 :: "impl \<Rightarrow> float64 \<Rightarrow> int64" where
  "to_int64 im (Fin x) =
     (if - 9223372036854775808 \<le> trunc_rat x \<and> trunc_rat x < 9223372036854775808
      then word_of_int (trunc_rat x) else oob64 im (Fin x))"
| "to_int64 im x = oob64 im x"

text \<open>The amd64 instructions return the smallest integer; used by the concrete witnesses.\<close>

definition amd64 :: impl where
  "amd64 = \<lparr>oob32 = \<lambda>_. word_of_int (- 2147483648), oob64 = \<lambda>_. word_of_int (- 9223372036854775808)\<rparr>"

section \<open>Facts about rounding\<close>

lemma pow2_pos [simp]: "0 < pow2 e"
  by (simp add: zero_less_power_int)

lemma pow2_nonneg [simp]: "0 \<le> pow2 e"
  by (simp add: zero_le_power_int)

lemma pow2_add: "pow2 (a + b) = pow2 a * pow2 b"
  by (simp add: power_int_add)

lemma pow2_join: "a + b = c \<Longrightarrow> pow2 a * pow2 b = pow2 c"
  by (simp only: pow2_add [symmetric])

lemma pow2_mono: "a \<le> b \<Longrightarrow> pow2 a \<le> pow2 b"
  by (rule power_int_increasing) simp_all

lemma pow2_less_cancel: "pow2 a < pow2 b \<Longrightarrow> a < b"
  using pow2_mono [of b a] by (meson not_less)

lemma pow2_of_nat: "0 \<le> e \<Longrightarrow> pow2 e = of_int (2 ^ nat e)"
  by (simp add: power_int_def)

lemma floorlog_bounds_pow2:
  assumes "0 < p"
  shows "pow2 (int (floorlog 2 (nat p)) - 1) \<le> of_int p"
    and "of_int p < pow2 (int (floorlog 2 (nat p)))"
proof -
  let ?n = "floorlog 2 (nat p)"
  from assms have p: "0 < nat p" by simp
  have b: "2 ^ (?n - 1) \<le> nat p" "nat p < 2 ^ ?n"
    using floorlog_bounds [OF p, of 2] by simp_all
  have n: "0 < ?n" using b(2) p by (cases ?n) simp_all
  have "int (2 ^ (?n - 1)) \<le> int (nat p)" using b(1) by (simp only: of_nat_le_iff)
  then have "(2::int) ^ (?n - 1) \<le> p" using assms by simp
  then have "(of_int (2 ^ (?n - 1)) :: rat) \<le> of_int p"
    by (simp only: of_int_le_iff)
  moreover have "nat (int ?n - 1) = ?n - 1" by simp
  ultimately show "pow2 (int ?n - 1) \<le> of_int p"
    using n by (simp add: power_int_def)
  have "int (nat p) < int (2 ^ ?n)" using b(2) by (simp only: of_nat_less_iff)
  then have "p < 2 ^ ?n" using assms by simp
  then have "(of_int p :: rat) < of_int (2 ^ ?n)"
    by (simp only: of_int_less_iff)
  then show "of_int p < pow2 (int ?n)" by (simp add: power_int_def)
qed

lemma ilog2_bounds:
  assumes "0 < x"
  shows "pow2 (ilog2 x) \<le> x" and "x < pow2 (ilog2 x + 1)"
proof -
  obtain p q where pq: "quotient_of x = (p, q)" by (cases "quotient_of x")
  have q: "0 < q" using quotient_of_denom_pos [OF pq] .
  have x: "x = of_int p / of_int q" using quotient_of_div [OF pq] .
  have p: "0 < p" using assms q x by (simp add: zero_less_divide_iff)
  let ?n = "int (floorlog 2 (nat p))" and ?m = "int (floorlog 2 (nat q))"
  note bp = floorlog_bounds_pow2 [OF p] and bq = floorlog_bounds_pow2 [OF q]
  have lo: "pow2 (?n - ?m - 1) \<le> x"
  proof -
    have "pow2 (?n - ?m - 1) * of_int q \<le> pow2 (?n - ?m - 1) * pow2 ?m"
      using bq(2) by (intro mult_left_mono) simp_all
    also have "\<dots> = pow2 (?n - 1)" by (rule pow2_join) simp
    also have "\<dots> \<le> of_int p" by (rule bp(1))
    finally show ?thesis using q by (simp add: x pos_le_divide_eq)
  qed
  have hi: "x < pow2 (?n - ?m + 1)"
  proof -
    have "of_int p < pow2 ?n" by (rule bp(2))
    also have "\<dots> = pow2 (?n - ?m + 1) * pow2 (?m - 1)"
      by (rule pow2_join [symmetric]) simp
    also have "\<dots> \<le> pow2 (?n - ?m + 1) * of_int q"
      using bq(1) by (intro mult_left_mono) simp_all
    finally show ?thesis using q by (simp add: x pos_divide_less_eq)
  qed
  show "pow2 (ilog2 x) \<le> x" and "x < pow2 (ilog2 x + 1)"
    using lo hi by (auto simp: ilog2_def pq Let_def not_le)
qed

lemma ilog2_eq:
  assumes "pow2 e \<le> x" and "x < pow2 (e + 1)"
  shows "ilog2 x = e"
proof -
  have x: "0 < x" using assms(1) pow2_pos [of e] by linarith
  have "pow2 (ilog2 x) < pow2 (e + 1)" and "pow2 e < pow2 (ilog2 x + 1)"
    using ilog2_bounds [OF x] assms by linarith+
  then show ?thesis by (auto dest!: pow2_less_cancel)
qed

lemma round_even_mono: "x \<le> y \<Longrightarrow> round_even x \<le> round_even y"
proof -
  assume xy: "x \<le> y"
  show ?thesis
  proof (cases "\<lfloor>x\<rfloor> = \<lfloor>y\<rfloor>")
    case True
    with xy show ?thesis by (auto simp: round_even_def Let_def)
  next
    case False
    with floor_mono [OF xy] have "\<lfloor>x\<rfloor> + 1 \<le> \<lfloor>y\<rfloor>" by simp
    moreover have "round_even x \<le> \<lfloor>x\<rfloor> + 1" and "\<lfloor>y\<rfloor> \<le> round_even y"
      by (auto simp: round_even_def Let_def)
    ultimately show ?thesis by linarith
  qed
qed

lemma round_even_of_int [simp]: "round_even (of_int i) = i"
  by (simp add: round_even_def)

lemma round_even_error: "\<bar>of_int (round_even x) - x\<bar> \<le> 1 / 2"
  using floor_correct [of x] by (auto simp: round_even_def Let_def)

lemma ilog2_mono: "0 < x \<Longrightarrow> x \<le> y \<Longrightarrow> ilog2 x \<le> ilog2 y"
  using ilog2_bounds [of x] ilog2_bounds [of y] pow2_less_cancel [of "ilog2 x" "ilog2 y + 1"]
  by linarith

lemma ilog2_ge: "pow2 e \<le> x \<Longrightarrow> e \<le> ilog2 x"
  using ilog2_bounds(2) [of x] pow2_pos [of e] pow2_less_cancel [of e "ilog2 x + 1"]
  by linarith

lemma ulp_upper: "0 < x \<Longrightarrow> x < pow2 (ulp_exp x + 53)"
  using ilog2_bounds(2) [of x] pow2_mono [of "ilog2 x + 1" "ulp_exp x + 53"]
  by (simp add: ulp_exp_def)

lemma ulp_lower: "0 < x \<Longrightarrow> - 1022 \<le> ilog2 x \<Longrightarrow> pow2 (ulp_exp x + 52) \<le> x"
  using ilog2_bounds(1) [of x] by (simp add: ulp_exp_def)

lemma scaled_pow2: "pow2 (u + 53) / pow2 u = of_int (2 ^ 53)"
  "pow2 (u + 52) / pow2 u = of_int (2 ^ 52)"
  by (simp_all add: pow2_add)

lemma round_pos_upper:
  assumes "0 < x" shows "round_pos x \<le> pow2 (ulp_exp x + 53)"
proof -
  let ?u = "ulp_exp x"
  have "x / pow2 ?u \<le> of_int (2 ^ 53)"
    using ulp_upper [OF assms] unfolding scaled_pow2(1) [of ?u, symmetric]
    by (intro divide_right_mono) simp_all
  from round_even_mono [OF this] have "round_even (x / pow2 ?u) \<le> 2 ^ 53"
    by (simp only: round_even_of_int)
  then have "(of_int (round_even (x / pow2 ?u)) :: rat) \<le> of_int (2 ^ 53)"
    by (simp only: of_int_le_iff)
  then have "round_pos x \<le> of_int (2 ^ 53) * pow2 ?u"
    unfolding round_pos_def by (rule mult_right_mono) simp
  also have "\<dots> = pow2 (?u + 53)" by (simp add: pow2_add)
  finally show ?thesis .
qed

lemma round_pos_lower:
  assumes "0 < x" and "- 1022 \<le> ilog2 x" shows "pow2 (ulp_exp x + 52) \<le> round_pos x"
proof -
  let ?u = "ulp_exp x"
  have "of_int (2 ^ 52) \<le> x / pow2 ?u"
    using ulp_lower [OF assms] unfolding scaled_pow2(2) [of ?u, symmetric]
    by (intro divide_right_mono) simp_all
  from round_even_mono [OF this] have "2 ^ 52 \<le> round_even (x / pow2 ?u)"
    by (simp only: round_even_of_int)
  then have "(of_int (2 ^ 52) :: rat) \<le> of_int (round_even (x / pow2 ?u))"
    by (simp only: of_int_le_iff)
  then have "of_int (2 ^ 52) * pow2 ?u \<le> round_pos x"
    unfolding round_pos_def by (rule mult_right_mono) simp
  moreover have "of_int (2 ^ 52) * pow2 ?u = pow2 (?u + 52)" by (simp add: pow2_add)
  ultimately show ?thesis by simp
qed

lemma round_pos_mono:
  assumes "0 < x" and "x \<le> y" shows "round_pos x \<le> round_pos y"
proof (cases "ulp_exp x = ulp_exp y")
  case True
  have "x / pow2 (ulp_exp y) \<le> y / pow2 (ulp_exp y)"
    using assms by (intro divide_right_mono) simp_all
  then show ?thesis using True unfolding round_pos_def
    by (simp add: round_even_mono)
next
  case False
  have y: "0 < y" using assms by simp
  with False ilog2_mono [OF assms] have big: "- 1022 \<le> ilog2 y" and "ulp_exp x < ulp_exp y"
    by (auto simp: ulp_exp_def)
  then have "pow2 (ulp_exp x + 53) \<le> pow2 (ulp_exp y + 52)" by (intro pow2_mono) simp
  with round_pos_upper [OF assms(1)] round_pos_lower [OF y big] show ?thesis by linarith
qed

lemma round_pos_nonneg: "0 < x \<Longrightarrow> 0 \<le> round_pos x"
proof -
  assume x: "0 < x"
  then have "(of_int 0 :: rat) \<le> x / pow2 (ulp_exp x)" by simp
  from round_even_mono [OF this] have "0 \<le> round_even (x / pow2 (ulp_exp x))"
    by (simp only: round_even_of_int)
  then show ?thesis by (simp add: round_pos_def)
qed

lemma round_rat_0 [simp]: "round_rat 0 = 0"
  by (simp add: round_rat_def)

lemma round_rat_minus [simp]: "round_rat (- x) = - round_rat x"
  by (simp add: round_rat_def)

lemma round_rat_mono: "x \<le> y \<Longrightarrow> round_rat x \<le> round_rat y"
  using round_pos_mono [of x y] round_pos_mono [of "- y" "- x"]
    round_pos_nonneg [of y] round_pos_nonneg [of "- x"]
  by (cases "0 < x"; cases "0 < y"; auto simp: round_rat_def)

lemma round_pos_exact_aux:
  assumes "0 < m" and "m < 2 ^ 53" and "- 1074 \<le> k"
  shows "round_pos (of_int m * pow2 k) = of_int m * pow2 k"
proof -
  let ?x = "of_int m * pow2 k" and ?u = "ulp_exp (of_int m * pow2 k)"
  have x: "0 < ?x" using assms(1) by simp
  have "(of_int m :: rat) < of_int (2 ^ 53)" using assms(2) by (simp only: of_int_less_iff)
  then have "?x < of_int (2 ^ 53) * pow2 k" by (rule mult_strict_right_mono) simp
  then have "?x < pow2 (k + 53)" by (simp add: pow2_add)
  with ilog2_bounds(1) [OF x] have "ilog2 ?x < k + 53"
    by (intro pow2_less_cancel) linarith
  then have u: "?u \<le> k" using assms(3) by (simp add: ulp_exp_def)
  have "?x / pow2 ?u = of_int m * (pow2 (k - ?u) * pow2 ?u) / pow2 ?u"
    by (simp only: pow2_add [symmetric]) simp
  also have "\<dots> = of_int (m * 2 ^ nat (k - ?u))"
    using u by (simp add: pow2_of_nat)
  finally have scaled: "?x / pow2 ?u = of_int (m * 2 ^ nat (k - ?u))" .
  have "round_pos ?x = ?x / pow2 ?u * pow2 ?u"
    unfolding round_pos_def scaled round_even_of_int ..
  then show ?thesis by simp
qed

lemma round_pos_exact:
  assumes "0 < m" and "m \<le> 2 ^ 53" and "- 1074 \<le> k"
  shows "round_pos (of_int m * pow2 k) = of_int m * pow2 k"
proof (cases "m = 2 ^ 53")
  case True
  have "of_int m * pow2 k = of_int 1 * pow2 (k + 53)" using True by (simp add: pow2_add)
  then show ?thesis using round_pos_exact_aux [of 1 "k + 53"] assms(3) by simp
qed (use assms round_pos_exact_aux in simp)

lemma round_rat_of_int [simp]: "\<bar>m\<bar> \<le> 2 ^ 53 \<Longrightarrow> round_rat (of_int m) = of_int m"
  using round_pos_exact [of m 0] round_pos_exact [of "- m" 0]
  by (auto simp: round_rat_def)

lemma round_rat_pow2: "- 1074 \<le> k \<Longrightarrow> round_rat (pow2 k) = pow2 k"
  using round_pos_exact [of 1 k] by (simp add: round_rat_def)

lemma round_rat_relative:
  assumes "pow2 (- 1022) \<le> x" shows "\<bar>round_rat x - x\<bar> \<le> x * pow2 (- 53)"
proof -
  let ?u = "ulp_exp x"
  have x: "0 < x" using assms pow2_pos [of "- 1022"] by linarith
  have big: "- 1022 \<le> ilog2 x" by (rule ilog2_ge [OF assms])
  have "round_rat x - x = (of_int (round_even (x / pow2 ?u)) - x / pow2 ?u) * pow2 ?u"
    using x by (simp add: round_rat_def round_pos_def left_diff_distrib)
  then have "\<bar>round_rat x - x\<bar> = \<bar>of_int (round_even (x / pow2 ?u)) - x / pow2 ?u\<bar> * pow2 ?u"
    by (simp add: abs_mult)
  also have "\<dots> \<le> 1 / 2 * pow2 ?u"
    by (intro mult_right_mono round_even_error) simp
  also have "\<dots> = pow2 (?u + 52) * pow2 (- 53)"
    by (simp add: pow2_add)
  also have "\<dots> \<le> x * pow2 (- 53)"
    by (intro mult_right_mono ulp_lower x big) simp
  finally show ?thesis .
qed

section \<open>Facts about the operations\<close>

lemma round_rat_abs_le: "\<bar>x\<bar> \<le> pow2 e \<Longrightarrow> - 1074 \<le> e \<Longrightarrow> \<bar>round_rat x\<bar> \<le> pow2 e"
  using round_rat_mono [of x "pow2 e"] round_rat_mono [of "- pow2 e" x] round_rat_pow2 [of e]
  by (simp add: abs_le_iff)

lemma fl_finite:
  assumes "\<bar>x\<bar> \<le> pow2 e" and "- 1074 \<le> e" and "e < 1024"
  shows "fl x = Fin (round_rat x)"
proof -
  have "pow2 e < pow2 1024" by (rule power_int_strict_increasing [OF assms(3)]) simp
  with round_rat_abs_le [OF assms(1,2)]
  have "\<not> pow2 1024 \<le> round_rat x" and "\<not> round_rat x \<le> - pow2 1024"
    by linarith+
  then show ?thesis unfolding fl_def Let_def by (simp only: if_False)
qed

lemma fl_0 [simp]: "fl 0 = Fin 0"
  using fl_finite [of 0 0] by simp

lemma fl_of_int [simp]: "\<bar>m\<bar> \<le> 2 ^ 53 \<Longrightarrow> fl (of_int m) = Fin (of_int m)"
proof -
  assume m: "\<bar>m\<bar> \<le> 2 ^ 53"
  then have "(of_int \<bar>m\<bar> :: rat) \<le> of_int (2 ^ 53)" by (simp only: of_int_le_iff)
  then have "\<bar>of_int m\<bar> \<le> pow2 53" by simp
  from fl_finite [OF this] m show ?thesis by simp
qed

lemma float_of_int_exact: "\<bar>m\<bar> \<le> 2 ^ 53 \<Longrightarrow> float_of_int m = Fin (of_int m)"
  by (simp add: float_of_int_def)

lemma float_of_int32 [simp]: "float_of_int (sint (x :: int32)) = Fin (of_int (sint x))"
  by (rule float_of_int_exact) simp

lemma trunc_rat_of_int [simp]: "trunc_rat (of_int m) = m"
  by (simp add: trunc_rat_def)

lemma trunc_rat_mono: "x \<le> y \<Longrightarrow> trunc_rat x \<le> trunc_rat y"
proof -
  assume xy: "x \<le> y"
  have "\<lceil>x\<rceil> \<le> \<lfloor>y\<rfloor>" if "\<not> 0 \<le> x" and "0 \<le> y"
  proof -
    from that have "\<lceil>x\<rceil> \<le> 0" and "0 \<le> \<lfloor>y\<rfloor>" by (simp_all add: ceiling_le_iff)
    then show ?thesis by (rule order_trans)
  qed
  with xy floor_mono [OF xy] ceiling_mono [OF xy] show ?thesis
    by (auto simp: trunc_rat_def)
qed

lemma to_int32_of_int32 [simp]: "to_int32 im (Fin (of_int (sint (x :: int32)))) = x"
  by simp

text \<open>A product of two positive finite floats lies between the products of larger and smaller ones.\<close>

lemma fl_eq_Fin_mono:
  assumes "fl x = Fin a" and "fl y = Fin b" and "x \<le> y" shows "a \<le> b"
proof -
  have "a = round_rat x" and "b = round_rat y"
    using assms by (auto simp: fl_def Let_def split: if_splits)
  then show ?thesis using round_rat_mono [OF assms(3)] by simp
qed

lemma fl_eval:
  assumes "pow2 e \<le> x" and "x < pow2 (e + 1)" and "- 1022 \<le> e" and "e < 1023"
    and "round_even (x / pow2 (e - 52)) = m"
  shows "fl x = Fin (of_int m * pow2 (e - 52))"
proof -
  have x: "0 < x" using assms(1) pow2_pos [of e] by linarith
  have i: "ilog2 x = e" using assms(1,2) by (rule ilog2_eq)
  have "\<bar>x\<bar> \<le> pow2 (e + 1)" using assms(2) x by linarith
  then have "fl x = Fin (round_rat x)" by (rule fl_finite) (use assms(3,4) in simp_all)
  then show ?thesis using x i assms(3,5)
    by (simp add: round_rat_def round_pos_def ulp_exp_def)
qed

lemma round_even_near: "\<bar>x - of_int k\<bar> < 1 / 2 \<Longrightarrow> round_even x = k"
proof (cases "of_int k \<le> x")
  case True
  moreover assume "\<bar>x - of_int k\<bar> < 1 / 2"
  ultimately have "\<lfloor>x\<rfloor> = k" and "x - of_int k < 1 / 2" by (auto simp: floor_eq_iff)
  then show ?thesis by (simp add: round_even_def)
next
  case False
  moreover assume "\<bar>x - of_int k\<bar> < 1 / 2"
  ultimately have "\<lfloor>x\<rfloor> = k - 1" and "1 / 2 < x - of_int (k - 1)" by (auto simp: floor_eq_iff)
  then show ?thesis by (simp add: round_even_def)
qed

lemma ulp_exp_le_0: "0 < x \<Longrightarrow> x < pow2 53 \<Longrightarrow> ulp_exp x \<le> 0"
proof -
  assume "0 < x" and "x < pow2 53"
  then have "ilog2 x < 53" using ilog2_bounds(1) [of x] by (intro pow2_less_cancel) linarith
  then show ?thesis by (simp add: ulp_exp_def)
qed

text \<open>A number closer to an integer than half a unit in its last place rounds to it.\<close>

lemma round_rat_near_int:
  assumes x: "0 < x" "x < pow2 53" and near: "\<bar>x - of_int m\<bar> < x * pow2 (- 54)"
  shows "round_rat x = of_int m"
proof -
  let ?u = "ulp_exp x"
  have u: "?u \<le> 0" using x by (rule ulp_exp_le_0)
  have scale: "of_int m / pow2 ?u = of_int (m * 2 ^ nat (- ?u))"
    using u pow2_of_nat [of "- ?u"] by (simp add: power_int_minus divide_inverse)
  have "x * pow2 (- 54) < pow2 (?u + 53) * pow2 (- 54)"
    using ulp_upper [OF x(1)] by (intro mult_strict_right_mono) simp_all
  also have "\<dots> = pow2 ?u / 2" by (simp add: pow2_add)
  finally have "\<bar>x - of_int m\<bar> < pow2 ?u / 2" using near by linarith
  then have "\<bar>(x - of_int m) / pow2 ?u\<bar> < 1 / 2"
    by (simp add: abs_divide pos_divide_less_eq)
  then have "\<bar>x / pow2 ?u - of_int (m * 2 ^ nat (- ?u))\<bar> < 1 / 2"
    unfolding scale [symmetric] by (simp only: diff_divide_distrib)
  then have "round_even (x / pow2 ?u) = m * 2 ^ nat (- ?u)" by (rule round_even_near)
  then have "round_pos x = of_int m / pow2 ?u * pow2 ?u" unfolding round_pos_def scale by simp
  then show ?thesis using x(1) by (simp add: round_rat_def)
qed

end
