(* ===== verification/Go_Time.thy ===== *)
theory Go_Time
  imports Float64
begin

text \<open>
  The parts of package \<open>time\<close> the program computes with: durations in nanoseconds as
  64-bit words, the parser of duration strings (the standard library's loop over terms with
  its overflow checks), and the conversions between durations, seconds and milliseconds.
  An instant is the integer number of nanoseconds since the Unix epoch.
\<close>

section \<open>Durations\<close>

type_synonym Time = int

definition Nanosecond :: Duration where "Nanosecond = 1"
definition Millisecond :: Duration where "Millisecond = 1000000"
definition Second :: Duration where "Second = 1000000000"
definition Minute :: Duration where "Minute = 60000000000"

lemmas duration_units = Nanosecond_def Millisecond_def Second_def Minute_def

text \<open>\<open>d.Seconds()\<close>.\<close>

definition Seconds :: "Duration \<Rightarrow> float64" where
  "Seconds d = float_of_int (sint (quot64 d Second))
     + fdiv (float_of_int (sint (rem64 d Second))) (Fin 1000000000)"

text \<open>\<open>t.Sub(u)\<close> saturates at the bounds of \<open>int64\<close>.\<close>

definition Sub :: "Time \<Rightarrow> Time \<Rightarrow> Duration" where
  "Sub t u = word_of_int (max (- 9223372036854775808) (min (t - u) 9223372036854775807))"

definition UnixMilli :: "Time \<Rightarrow> int64" where
  "UnixMilli t = word_of_int (t div 1000000)"

lemma sint_Sub [go_word]:
  "sint (Sub t u) = max (- 9223372036854775808) (min (t - u) 9223372036854775807)"
  unfolding Sub_def by (rule sint_of_int_64) auto

section \<open>Parsing durations\<close>

fun leadingInt :: "nat \<Rightarrow> string \<Rightarrow> (nat \<times> string) option" where
  "leadingInt x [] = Some (x, [])"
| "leadingInt x (c # cs) =
     (if \<not> is_digit c then Some (x, c # cs)
      else if 9223372036854775808 div 10 < x then None
      else (let y = x * 10 + digit_value c
            in if 9223372036854775808 < y then None else leadingInt y cs))"

fun leadingFraction :: "nat \<Rightarrow> float64 \<Rightarrow> bool \<Rightarrow> string \<Rightarrow> nat \<times> float64 \<times> string" where
  "leadingFraction x scale overflow [] = (x, scale, [])"
| "leadingFraction x scale overflow (c # cs) =
     (if \<not> is_digit c then (x, scale, c # cs)
      else if overflow then leadingFraction x scale overflow cs
      else if 9223372036854775807 div 10 < x then leadingFraction x scale True cs
      else (let y = x * 10 + digit_value c
            in if 9223372036854775808 < y then leadingFraction x scale True cs
               else leadingFraction y (scale * Fin 10) overflow cs))"

definition unit_nanos :: "string \<Rightarrow> nat option" where
  "unit_nanos = map_of
     [(''ns'', 1), (''us'', 1000), ([char_of (0xC2::nat), char_of (0xB5::nat), CHR ''s''], 1000),
      ([char_of (0xCE::nat), char_of (0xBC::nat), CHR ''s''], 1000), (''ms'', 1000000),
      (''s'', 1000000000), (''m'', 60000000000), (''h'', 3600000000000)]"

definition unit_char :: "char \<Rightarrow> bool" where
  "unit_char c \<longleftrightarrow> \<not> (c = CHR ''.'' \<or> is_digit c)"

text \<open>
  The nanoseconds of the fraction; the product is below the unit, which is at most one hour,
  so the conversion to \<open>uint64\<close> is in range.
\<close>

definition fraction_nanos :: "nat \<Rightarrow> nat \<Rightarrow> float64 \<Rightarrow> nat" where
  "fraction_nanos f unit scale =
     (case float_of_int (int f) * fdiv (float_of_int (int unit)) scale of
        Fin r \<Rightarrow> nat (trunc_rat r) | _ \<Rightarrow> 0)"

text \<open>One term, a number and its unit: its nanoseconds and the rest of the string.\<close>

definition parse_term :: "string \<Rightarrow> (nat \<times> string) option" where
  "parse_term s =
     (case leadingInt 0 s of
        None \<Rightarrow> None
      | Some (v, s1) \<Rightarrow>
          (let pre = (length s \<noteq> length s1);
               (f, scale, s2) =
                 (case s1 of
                    c # cs \<Rightarrow> if c = CHR ''.'' then leadingFraction 0 (Fin 1) False cs
                             else (0, Fin 1, s1)
                  | [] \<Rightarrow> (0, Fin 1, s1));
               post = (s1 \<noteq> [] \<and> hd s1 = CHR ''.'' \<and> length s2 \<noteq> length (tl s1));
               u = takeWhile unit_char s2
           in if \<not> pre \<and> \<not> post then None
              else if u = [] then None
              else (case unit_nanos u of
                      None \<Rightarrow> None
                    | Some unit \<Rightarrow>
                        if 9223372036854775808 div unit < v then None
                        else (let w = v * unit + (if 0 < f then fraction_nanos f unit scale else 0)
                              in if 9223372036854775808 < w then None
                                 else Some (w, dropWhile unit_char s2)))))"

lemma leadingInt_length: "leadingInt x s = Some (v, t) \<Longrightarrow> length t \<le> length s"
  by (induction x s rule: leadingInt.induct) (auto simp: Let_def split: if_splits)

lemma leadingFraction_length: "leadingFraction x sc ov s = (f, sc', t) \<Longrightarrow> length t \<le> length s"
  by (induction x sc ov s rule: leadingFraction.induct) (auto simp: Let_def split: if_splits)

lemma dropWhile_shorter: "takeWhile P s \<noteq> [] \<Longrightarrow> length (dropWhile P s) < length s"
  by (metis length_append length_greater_0_conv less_add_same_cancel2 takeWhile_dropWhile_id)

lemma parse_term_shorter: "parse_term s = Some (w, t) \<Longrightarrow> length t < length s"
  unfolding parse_term_def
  by (auto simp: Let_def split: option.splits prod.splits if_splits list.splits
      dest!: leadingInt_length leadingFraction_length dropWhile_shorter
      intro: le_less_trans [OF length_dropWhile_le])

text \<open>The loop over the terms; the sum is a \<open>uint64\<close>.\<close>

function parse_terms :: "nat \<Rightarrow> string \<Rightarrow> nat option" where
  "parse_terms d s =
     (if s = [] then Some d
      else if \<not> (hd s = CHR ''.'' \<or> is_digit (hd s)) then None
      else (case parse_term s of
              None \<Rightarrow> None
            | Some (w, t) \<Rightarrow>
                (let d' = (d + w) mod 18446744073709551616
                 in if 9223372036854775808 < d' then None else parse_terms d' t)))"
  by pat_completeness auto
termination
  by (relation "measure (\<lambda>(d, s). length s)") (auto dest: parse_term_shorter)

declare parse_terms.simps [simp del]

definition ParseDuration :: "string \<Rightarrow> Duration option" where
  "ParseDuration orig =
     (let neg = (orig \<noteq> [] \<and> hd orig = CHR ''-'');
          s = (if orig \<noteq> [] \<and> (hd orig = CHR ''-'' \<or> hd orig = CHR ''+'') then tl orig else orig)
      in if s = ''0'' then Some 0
         else if s = [] then None
         else (case parse_terms 0 s of
                 None \<Rightarrow> None
               | Some d \<Rightarrow>
                   if neg then Some (- word_of_int (int d))
                   else if 9223372036854775807 < d then None
                   else Some (word_of_int (int d))))"

lemma ParseDuration_empty: "ParseDuration [] = None"
  by (simp add: ParseDuration_def)

lemma ParseDuration_5m: "ParseDuration ''5m'' = Some 300000000000"
  by (simp add: ParseDuration_def parse_terms.simps parse_term_def unit_nanos_def unit_char_def
      is_digit_def digit_value_def)

end
