(* ===== verification/Config_Types.thy ===== *)
theory Config_Types
  imports Go_Time
begin

text \<open>
  The data of \<open>internal/config/config.go\<close>: one record per Go struct, in the order of the
  struct's fields.  A pointer to a scalar is an \<open>option\<close>; the slice of pointers to load test
  specs is a list of options, since a JSON \<open>null\<close> in it is a nil pointer.
\<close>

section \<open>Constants\<close>

definition consumerTypePush :: string where "consumerTypePush = ''push''"
definition consumerTypePull :: string where "consumerTypePull = ''pull''"
definition defaultStatsInterval :: int64 where "defaultStatsInterval = 5"

definition BadgerDBStorage :: string where "BadgerDBStorage = ''badger''"
definition FileStorageType :: string where "FileStorageType = ''file''"
definition StdoutStorage :: string where "StdoutStorage = ''stdout''"
definition defaultBadgerDBPath :: string where "defaultBadgerDBPath = ''./load_test_stats.db''"
definition defaultFileStoragePath :: string where "defaultFileStoragePath = ''./load_test_stats.log''"
definition defaultStdoutStoragePath :: string where "defaultStdoutStoragePath = ''/dev/stdout''"

definition PublishPatternSteady :: string where "PublishPatternSteady = ''steady''"
definition PublishPatternRandom :: string where "PublishPatternRandom = ''random''"
definition RetentionLimits :: string where "RetentionLimits = ''limits''"
definition RetentionInterest :: string where "RetentionInterest = ''interest''"
definition RetentionWorkQueue :: string where "RetentionWorkQueue = ''workqueue''"
definition StorageFile :: string where "StorageFile = ''file''"
definition StorageMemory :: string where "StorageMemory = ''memory''"
definition DiscardOld :: string where "DiscardOld = ''old''"
definition DiscardNew :: string where "DiscardNew = ''new''"

lemmas config_constants =
  consumerTypePush_def consumerTypePull_def defaultStatsInterval_def BadgerDBStorage_def
  FileStorageType_def StdoutStorage_def defaultBadgerDBPath_def defaultFileStoragePath_def
  defaultStdoutStoragePath_def PublishPatternSteady_def PublishPatternRandom_def
  RetentionLimits_def RetentionInterest_def RetentionWorkQueue_def StorageFile_def
  StorageMemory_def DiscardOld_def DiscardNew_def

section \<open>Structs\<close>

record StreamSpec =
  ss_NamePrefix :: string
  ss_Count :: int32
  ss_Replicas :: int32
  ss_Subjects :: "string list"
  ss_MessagesPerStreamPerSecond :: int64
  ss_Retention :: string
  ss_MaxAge :: string
  ss_Storage :: string
  ss_DiscardNewPerSubject :: "bool option"
  ss_Discard :: string
  ss_MaxMsgs :: "int64 option"
  ss_MaxBytes :: "int64 option"
  ss_MaxMsgsPerSubject :: "int64 option"
  ss_MaxConsumers :: "go_int option"

record PublisherSpec =
  ps_CountPerStream :: int32
  ps_StreamNamePrefix :: string
  ps_PublishRatePerSecond :: int32
  ps_PublishPattern :: string
  ps_PublishBurstSize :: int32
  ps_MessageSizeBytes :: int32
  ps_TrackLatency :: bool

record ConsumerSpec =
  cs_StreamNamePrefix :: string
  cs_Type :: string
  cs_CountPerStream :: int32
  cs_DurableNamePrefix :: string
  cs_AckWaitSeconds :: int64
  cs_MaxAckPending :: int32
  cs_ConsumeDelayMs :: int64
  cs_AckPolicy :: string

record BehaviorConfig =
  bc_DurationSeconds :: int64
  bc_RampUpSeconds :: int64

record LogLimits =
  ll_MaxLines :: int32
  ll_MaxBytes :: int64

record LoadTestSpec =
  lts_Name :: string
  lts_NATSURL :: string
  lts_NATSCredsFile :: string
  lts_UseJetStream :: bool
  lts_ClientIDPrefix :: string
  lts_Streams :: "StreamSpec list"
  lts_Publishers :: PublisherSpec
  lts_Consumers :: ConsumerSpec
  lts_Behavior :: BehaviorConfig
  lts_LogLimits :: LogLimits

record StreamMultipliers =
  sm_Count :: float64
  sm_Replicas :: float64
  sm_MessagesPerStreamPerSecond :: float64

record BehaviorMultipliers =
  bm_Duration :: float64
  bm_RampUp :: float64

record ConsumerMultipliers =
  cm_AckWait :: float64
  cm_MaxAckPending :: float64
  cm_ConsumeDelay :: float64
  cm_CountPerStream :: float64

record PublisherMultipliers =
  pm_CountPerStream :: float64
  pm_PublishRate :: float64
  pm_MessageSizeBytes :: float64

record RepeatPolicy =
  rp_Enabled :: bool
  rp_Streams :: StreamMultipliers
  rp_Behavior :: BehaviorMultipliers
  rp_Consumers :: ConsumerMultipliers
  rp_Publishers :: PublisherMultipliers

record StorageConfig =
  sc_Type :: string
  sc_Path :: string

record Config =
  cfg_LoadTestSpecs :: "LoadTestSpec option list"
  cfg_RepeatPolicy :: RepeatPolicy
  cfg_Storage :: StorageConfig
  cfg_StatsCollectionIntervalSeconds :: int64

section \<open>Durations of a configuration\<close>

text \<open>The products wrap at 64 bits, as Go's do.\<close>

definition StatsInterval :: "Config \<Rightarrow> Duration" where
  "StatsInterval c = cfg_StatsCollectionIntervalSeconds c * Second"

definition Duration_of :: "LoadTestSpec \<Rightarrow> Duration" where
  "Duration_of lts = bc_DurationSeconds (lts_Behavior lts) * Second"

definition RampUpDuration :: "LoadTestSpec \<Rightarrow> Duration" where
  "RampUpDuration lts = bc_RampUpSeconds (lts_Behavior lts) * Second"

lemma sint_seconds:
  assumes "0 \<le> sint n" and "sint n \<le> 9223372036"
  shows "sint (n * Second) = sint n * 1000000000"
proof -
  have "sint Second = 1000000000" by (simp add: Second_def)
  moreover have "sint n * 1000000000 < 9223372036854775808" using assms by linarith
  ultimately show ?thesis using assms by (simp add: sint_mult_64)
qed

end
