(* ===== verification/Config_Validate.thy ===== *)
theory Config_Validate
  imports Config_Types
begin

text \<open>
  Validation of a configuration (\<open>Validate\<close> of every struct of
  \<open>internal/config/config.go\<close>).  Go's methods both check and fill in defaults through their
  pointer receiver, so each function returns the errors and the updated receiver.  A joined
  error is the list of its parts in the order they are appended; the empty list is nil.
\<close>

section \<open>Errors\<close>

datatype stream_error =
    StreamNamePrefixRequired
  | StreamCountNotPositive int32
  | ReplicasNotPositive int32
  | SubjectRequired
  | MessageRateNotPositive int64
  | BadRetention string
  | BadStorage string
  | BadDiscard string
  | DiscardNewPerSubjectNeedsNew
  | BadMaxAge string
  | BadMaxMsgs int64
  | BadMaxBytes int64
  | BadMaxMsgsPerSubject int64
  | BadMaxConsumers go_int

datatype publisher_error =
    PubPrefixRequired | PubCountNotPositive int32 | RateNotPositive int32
  | MessageSizeNotPositive int32 | BurstNotPositive int32 | UnknownPattern string

datatype consumer_error =
    ConPrefixRequired | ConCountNotPositive int32 | BadConsumerType string
  | DurableRequired | AckWaitNotPositive int64 | MaxAckPendingNotPositive int32
  | AckPolicyRequired

datatype behavior_error = DurationNotPositive int64 | RampUpNegative int64

datatype sync_error =
    PrefixMismatch string string | PublisherPrefixUnmatched string | ConsumerPrefixUnmatched string

datatype spec_error =
    NameRequired
  | NATSURLRequired
  | StreamsRequired
  | StreamError nat "stream_error list"
  | PublishersError "publisher_error list"
  | ConsumersError "consumer_error list"
  | BehaviorError "behavior_error list"
  | SynchronizationError sync_error

datatype config_error =
    ConfigurationRequired
  | ConfigurationError nat "spec_error list"
  | RepeatPolicyError float64
  | UnknownStorageType string
  | StoragePathRequired string

text \<open>Appending an error when a check fails.\<close>

definition err_if :: "bool \<Rightarrow> 'e \<Rightarrow> 'e list" where
  "err_if b e = (if b then [e] else [])"

lemma err_if_Nil [simp]: "err_if b e = [] \<longleftrightarrow> \<not> b"
  by (simp add: err_if_def)

section \<open>StreamSpec\<close>

definition StreamSpec_errors :: "StreamSpec \<Rightarrow> stream_error list" where
  "StreamSpec_errors s =
     err_if (ss_NamePrefix s = []) StreamNamePrefixRequired
   @ err_if (sint (ss_Count s) \<le> 0) (StreamCountNotPositive (ss_Count s))
   @ err_if (sint (ss_Replicas s) \<le> 0) (ReplicasNotPositive (ss_Replicas s))
   @ err_if (ss_Subjects s = []) SubjectRequired
   @ err_if (sint (ss_MessagesPerStreamPerSecond s) \<le> 0)
       (MessageRateNotPositive (ss_MessagesPerStreamPerSecond s))
   @ err_if (ss_Retention s \<noteq> [] \<and> ss_Retention s \<noteq> RetentionLimits
         \<and> ss_Retention s \<noteq> RetentionInterest \<and> ss_Retention s \<noteq> RetentionWorkQueue)
       (BadRetention (ss_Retention s))
   @ err_if (ss_Storage s \<noteq> [] \<and> ss_Storage s \<noteq> StorageFile \<and> ss_Storage s \<noteq> StorageMemory)
       (BadStorage (ss_Storage s))
   @ err_if (ss_Discard s \<noteq> [] \<and> ss_Discard s \<noteq> DiscardOld \<and> ss_Discard s \<noteq> DiscardNew)
       (BadDiscard (ss_Discard s))
   @ err_if (ss_Discard s = DiscardOld \<and> ss_DiscardNewPerSubject s = Some True)
       DiscardNewPerSubjectNeedsNew
   @ err_if (ss_MaxAge s \<noteq> [] \<and> ParseDuration (ss_MaxAge s) = None) (BadMaxAge (ss_MaxAge s))
   @ (case ss_MaxMsgs s of None \<Rightarrow> [] | Some n \<Rightarrow> err_if (sint n < - 1) (BadMaxMsgs n))
   @ (case ss_MaxBytes s of None \<Rightarrow> [] | Some n \<Rightarrow> err_if (sint n < - 1) (BadMaxBytes n))
   @ (case ss_MaxMsgsPerSubject s of
        None \<Rightarrow> [] | Some n \<Rightarrow> err_if (sint n < - 1) (BadMaxMsgsPerSubject n))
   @ (case ss_MaxConsumers s of
        None \<Rightarrow> [] | Some n \<Rightarrow> err_if (sint n < - 1) (BadMaxConsumers n))"

definition StreamSpec_Validate :: "StreamSpec \<Rightarrow> stream_error list \<times> StreamSpec" where
  "StreamSpec_Validate s =
     (let es = StreamSpec_errors s
      in if es \<noteq> [] then (es, s)
         else ([], s\<lparr>ss_Subjects := map ReplaceAll_braces (ss_Subjects s)\<rparr>))"

section \<open>PublisherConfig, ConsumerConfig and BehaviorConfig\<close>

definition PublisherSpec_Validate :: "PublisherSpec \<Rightarrow> publisher_error list" where
  "PublisherSpec_Validate p =
     err_if (ps_StreamNamePrefix p = []) PubPrefixRequired
   @ err_if (sint (ps_CountPerStream p) \<le> 0) (PubCountNotPositive (ps_CountPerStream p))
   @ err_if (sint (ps_PublishRatePerSecond p) \<le> 0) (RateNotPositive (ps_PublishRatePerSecond p))
   @ err_if (sint (ps_MessageSizeBytes p) \<le> 0) (MessageSizeNotPositive (ps_MessageSizeBytes p))
   @ err_if (sint (ps_PublishBurstSize p) \<le> 0) (BurstNotPositive (ps_PublishBurstSize p))
   @ err_if (ps_PublishPattern p \<noteq> PublishPatternSteady \<and> ps_PublishPattern p \<noteq> PublishPatternRandom)
       (UnknownPattern (ps_PublishPattern p))"

definition ConsumerSpec_Validate :: "ConsumerSpec \<Rightarrow> consumer_error list" where
  "ConsumerSpec_Validate c =
     err_if (cs_StreamNamePrefix c = []) ConPrefixRequired
   @ err_if (sint (cs_CountPerStream c) \<le> 0) (ConCountNotPositive (cs_CountPerStream c))
   @ err_if (cs_Type c \<noteq> consumerTypePush \<and> cs_Type c \<noteq> consumerTypePull) (BadConsumerType (cs_Type c))
   @ err_if (cs_DurableNamePrefix c = []) DurableRequired
   @ err_if (sint (cs_AckWaitSeconds c) \<le> 0) (AckWaitNotPositive (cs_AckWaitSeconds c))
   @ err_if (sint (cs_MaxAckPending c) \<le> 0) (MaxAckPendingNotPositive (cs_MaxAckPending c))
   @ err_if (cs_AckPolicy c = []) AckPolicyRequired"

definition BehaviorConfig_Validate :: "BehaviorConfig \<Rightarrow> behavior_error list" where
  "BehaviorConfig_Validate b =
     err_if (sint (bc_DurationSeconds b) \<le> 0) (DurationNotPositive (bc_DurationSeconds b))
   @ err_if (sint (bc_RampUpSeconds b) < 0) (RampUpNegative (bc_RampUpSeconds b))"

section \<open>LoadTestSpec\<close>

definition prefix_matched :: "string \<Rightarrow> StreamSpec list \<Rightarrow> bool" where
  "prefix_matched p streams = list_ex (\<lambda>s. ss_NamePrefix s = p) streams"

definition validateStreamSynchronization :: "LoadTestSpec \<Rightarrow> sync_error option" where
  "validateStreamSynchronization lts =
     (let pp = ps_StreamNamePrefix (lts_Publishers lts);
          cp = cs_StreamNamePrefix (lts_Consumers lts)
      in if pp \<noteq> cp then Some (PrefixMismatch pp cp)
         else if \<not> prefix_matched pp (lts_Streams lts) then Some (PublisherPrefixUnmatched pp)
         else if \<not> prefix_matched cp (lts_Streams lts) then Some (ConsumerPrefixUnmatched cp)
         else None)"

text \<open>The loop over the streams: the errors with their index, and the updated streams.\<close>

fun validate_streams :: "nat \<Rightarrow> StreamSpec list \<Rightarrow> spec_error list \<times> StreamSpec list" where
  "validate_streams i [] = ([], [])"
| "validate_streams i (s # ss) =
     (let (es, s') = StreamSpec_Validate s;
          (rest, ss') = validate_streams (Suc i) ss
      in (err_if (es \<noteq> []) (StreamError i es) @ rest, s' # ss'))"

definition LoadTestSpec_Validate :: "LoadTestSpec \<Rightarrow> spec_error list \<times> LoadTestSpec" where
  "LoadTestSpec_Validate lts =
     (let (stream_errs, streams) = validate_streams 0 (lts_Streams lts);
          lts1 = lts\<lparr>lts_Streams := streams\<rparr>;
          pe = PublisherSpec_Validate (lts_Publishers lts1);
          ce = ConsumerSpec_Validate (lts_Consumers lts1);
          be = BehaviorConfig_Validate (lts_Behavior lts1);
          es = err_if (lts_Name lts1 = []) NameRequired
             @ err_if (lts_NATSURL lts1 = []) NATSURLRequired
             @ err_if (lts_Streams lts = []) StreamsRequired
             @ stream_errs
             @ err_if (pe \<noteq> []) (PublishersError pe)
             @ err_if (ce \<noteq> []) (ConsumersError ce)
             @ err_if (be \<noteq> []) (BehaviorError be)
             @ (case validateStreamSynchronization lts1 of
                  None \<Rightarrow> [] | Some e \<Rightarrow> [SynchronizationError e])
      in (es, if lts_ClientIDPrefix lts1 = []
              then lts1\<lparr>lts_ClientIDPrefix := ''load-tester''\<rparr> else lts1))"

section \<open>RepeatPolicy\<close>

definition default_one :: "float64 \<Rightarrow> float64" where
  "default_one m = (if m \<le> Fin 0 then Fin 1 else m)"

definition RepeatPolicy_Validate :: "RepeatPolicy \<Rightarrow> float64 option \<times> RepeatPolicy" where
  "RepeatPolicy_Validate rp =
     (if \<not> rp_Enabled rp then (None, rp)
      else
        (let s = rp_Streams rp; b = rp_Behavior rp; c = rp_Consumers rp; p = rp_Publishers rp;
             rp1 = rp\<lparr>rp_Streams := \<lparr>sm_Count = default_one (sm_Count s),
                        sm_Replicas = default_one (sm_Replicas s),
                        sm_MessagesPerStreamPerSecond = default_one (sm_MessagesPerStreamPerSecond s)\<rparr>,
                      rp_Behavior := b\<lparr>bm_Duration := default_one (bm_Duration b)\<rparr>\<rparr>
         in if bm_RampUp b < Fin 0 then (Some (bm_RampUp b), rp1)
            else (None,
              rp1\<lparr>rp_Consumers := \<lparr>cm_AckWait = default_one (cm_AckWait c),
                     cm_MaxAckPending = default_one (cm_MaxAckPending c),
                     cm_ConsumeDelay = default_one (cm_ConsumeDelay c),
                     cm_CountPerStream = default_one (cm_CountPerStream c)\<rparr>,
                   rp_Publishers := \<lparr>pm_CountPerStream = default_one (pm_CountPerStream p),
                     pm_PublishRate = default_one (pm_PublishRate p),
                     pm_MessageSizeBytes = default_one (pm_MessageSizeBytes p)\<rparr>\<rparr>)))"

section \<open>Config\<close>

text \<open>
  A nil spec in the list panics at its first field access.  On an error the receiver keeps
  the changes made so far, so it is part of the error result.
\<close>

fun validate_specs :: "nat \<Rightarrow> LoadTestSpec option list
    \<Rightarrow> (config_error \<times> LoadTestSpec option list, LoadTestSpec option list) outcome" where
  "validate_specs i [] = Return []"
| "validate_specs i (None # rest) = Panic"
| "validate_specs i (Some s # rest) =
     (let (es, s') = LoadTestSpec_Validate s
      in if es \<noteq> [] then Error (ConfigurationError i es, Some s' # rest)
         else (case validate_specs (Suc i) rest of
                 Return ss \<Rightarrow> Return (Some s' # ss)
               | Error (e, ss) \<Rightarrow> Error (e, Some s' # ss)
               | Panic \<Rightarrow> Panic))"

definition default_path :: "string \<Rightarrow> string option" where
  "default_path ty =
     (if ty = FileStorageType then Some defaultFileStoragePath
      else if ty = StdoutStorage then Some defaultStdoutStoragePath
      else if ty = BadgerDBStorage then Some defaultBadgerDBPath
      else None)"

definition validate_storage :: "Config \<Rightarrow> (config_error \<times> Config, Config) outcome" where
  "validate_storage c =
     (let st0 = cfg_Storage c;
          st = (if sc_Type st0 = [] then st0\<lparr>sc_Type := BadgerDBStorage\<rparr> else st0);
          c1 = c\<lparr>cfg_Storage := st\<rparr>
      in if sc_Type st \<noteq> BadgerDBStorage \<and> sc_Type st \<noteq> FileStorageType \<and> sc_Type st \<noteq> StdoutStorage
         then Error (UnknownStorageType (sc_Type st), c1)
         else if sc_Path st = []
              then (case default_path (sc_Type st) of
                      None \<Rightarrow> Error (StoragePathRequired (sc_Type st), c1)
                    | Some p \<Rightarrow> Return (c1\<lparr>cfg_Storage := st\<lparr>sc_Path := p\<rparr>\<rparr>))
              else Return c1)"

definition default_interval :: "Config \<Rightarrow> Config" where
  "default_interval c =
     (if sint (cfg_StatsCollectionIntervalSeconds c) \<le> 0
      then c\<lparr>cfg_StatsCollectionIntervalSeconds := defaultStatsInterval\<rparr> else c)"

definition Config_Validate :: "Config \<Rightarrow> (config_error \<times> Config, Config) outcome" where
  "Config_Validate c =
     (if cfg_LoadTestSpecs c = [] then Error (ConfigurationRequired, c)
      else (case validate_specs 0 (cfg_LoadTestSpecs c) of
              Panic \<Rightarrow> Panic
            | Error (e, ss) \<Rightarrow> Error (e, c\<lparr>cfg_LoadTestSpecs := ss\<rparr>)
            | Return ss \<Rightarrow>
                (let (re, rp) = RepeatPolicy_Validate (cfg_RepeatPolicy c);
                     c1 = c\<lparr>cfg_LoadTestSpecs := ss, cfg_RepeatPolicy := rp\<rparr>
                 in (case re of
                       Some m \<Rightarrow> Error (RepeatPolicyError m, c1)
                     | None \<Rightarrow> obind (validate_storage c1) (\<lambda>c2. Return (default_interval c2))))))"

section \<open>What validation guarantees\<close>

text \<open>
  The well-formedness the rest of the program relies on, stated without the order and the
  bookkeeping of the checks.
\<close>

definition at_least_unlimited :: "int64 option \<Rightarrow> bool" where
  "at_least_unlimited x \<longleftrightarrow> (case x of None \<Rightarrow> True | Some n \<Rightarrow> - 1 \<le> sint n)"

definition stream_ok :: "StreamSpec \<Rightarrow> bool" where
  "stream_ok s \<longleftrightarrow>
     ss_NamePrefix s \<noteq> [] \<and> 0 < sint (ss_Count s) \<and> 0 < sint (ss_Replicas s)
   \<and> ss_Subjects s \<noteq> [] \<and> 0 < sint (ss_MessagesPerStreamPerSecond s)
   \<and> ss_Retention s \<in> {[], RetentionLimits, RetentionInterest, RetentionWorkQueue}
   \<and> ss_Storage s \<in> {[], StorageFile, StorageMemory}
   \<and> ss_Discard s \<in> {[], DiscardOld, DiscardNew}
   \<and> (ss_Discard s = DiscardOld \<longrightarrow> ss_DiscardNewPerSubject s \<noteq> Some True)
   \<and> (ss_MaxAge s = [] \<or> ParseDuration (ss_MaxAge s) \<noteq> None)
   \<and> at_least_unlimited (ss_MaxMsgs s) \<and> at_least_unlimited (ss_MaxBytes s)
   \<and> at_least_unlimited (ss_MaxMsgsPerSubject s) \<and> at_least_unlimited (ss_MaxConsumers s)"

definition publisher_ok :: "PublisherSpec \<Rightarrow> bool" where
  "publisher_ok p \<longleftrightarrow>
     ps_StreamNamePrefix p \<noteq> [] \<and> 0 < sint (ps_CountPerStream p)
   \<and> 0 < sint (ps_PublishRatePerSecond p) \<and> 0 < sint (ps_MessageSizeBytes p)
   \<and> 0 < sint (ps_PublishBurstSize p)
   \<and> ps_PublishPattern p \<in> {PublishPatternSteady, PublishPatternRandom}"

definition consumer_ok :: "ConsumerSpec \<Rightarrow> bool" where
  "consumer_ok c \<longleftrightarrow>
     cs_StreamNamePrefix c \<noteq> [] \<and> 0 < sint (cs_CountPerStream c)
   \<and> cs_Type c \<in> {consumerTypePush, consumerTypePull} \<and> cs_DurableNamePrefix c \<noteq> []
   \<and> 0 < sint (cs_AckWaitSeconds c) \<and> 0 < sint (cs_MaxAckPending c) \<and> cs_AckPolicy c \<noteq> []"

definition behavior_ok :: "BehaviorConfig \<Rightarrow> bool" where
  "behavior_ok b \<longleftrightarrow> 0 < sint (bc_DurationSeconds b) \<and> 0 \<le> sint (bc_RampUpSeconds b)"

text \<open>Everything the checks of a spec ask for, before any default is filled in.\<close>

definition spec_ok :: "LoadTestSpec \<Rightarrow> bool" where
  "spec_ok lts \<longleftrightarrow>
     lts_Name lts \<noteq> [] \<and> lts_NATSURL lts \<noteq> []
   \<and> (\<forall>s \<in> set (lts_Streams lts). stream_ok s)
   \<and> publisher_ok (lts_Publishers lts) \<and> consumer_ok (lts_Consumers lts)
   \<and> behavior_ok (lts_Behavior lts)
   \<and> ps_StreamNamePrefix (lts_Publishers lts) = cs_StreamNamePrefix (lts_Consumers lts)
   \<and> (\<exists>s \<in> set (lts_Streams lts). ss_NamePrefix s = ps_StreamNamePrefix (lts_Publishers lts))"

definition normalise_stream :: "StreamSpec \<Rightarrow> StreamSpec" where
  "normalise_stream s = s\<lparr>ss_Subjects := map ReplaceAll_braces (ss_Subjects s)\<rparr>"

definition normalise_spec :: "LoadTestSpec \<Rightarrow> LoadTestSpec" where
  "normalise_spec lts = lts\<lparr>lts_Streams := map normalise_stream (lts_Streams lts),
     lts_ClientIDPrefix := (if lts_ClientIDPrefix lts = [] then ''load-tester''
                            else lts_ClientIDPrefix lts)\<rparr>"

text \<open>A spec as the engine receives it.\<close>

definition spec_wf :: "LoadTestSpec \<Rightarrow> bool" where
  "spec_wf lts \<longleftrightarrow> spec_ok lts \<and> lts_ClientIDPrefix lts \<noteq> []
   \<and> (\<forall>s \<in> set (lts_Streams lts). \<forall>t \<in> set (ss_Subjects s). \<not> Contains t ''{}'')"

definition positive_multiplier :: "float64 \<Rightarrow> bool" where
  "positive_multiplier m \<longleftrightarrow> \<not> m \<le> Fin 0"

definition policy_wf :: "RepeatPolicy \<Rightarrow> bool" where
  "policy_wf rp \<longleftrightarrow> (rp_Enabled rp \<longrightarrow>
     (let s = rp_Streams rp; b = rp_Behavior rp; c = rp_Consumers rp; p = rp_Publishers rp
      in list_all positive_multiplier
           [sm_Count s, sm_Replicas s, sm_MessagesPerStreamPerSecond s, bm_Duration b,
            cm_AckWait c, cm_MaxAckPending c, cm_ConsumeDelay c, cm_CountPerStream c,
            pm_CountPerStream p, pm_PublishRate p, pm_MessageSizeBytes p]
         \<and> \<not> bm_RampUp b < Fin 0))"

definition config_wf :: "Config \<Rightarrow> bool" where
  "config_wf c \<longleftrightarrow>
     cfg_LoadTestSpecs c \<noteq> []
   \<and> (\<forall>s \<in> set (cfg_LoadTestSpecs c). \<exists>lts. s = Some lts \<and> spec_wf lts)
   \<and> policy_wf (cfg_RepeatPolicy c)
   \<and> sc_Type (cfg_Storage c) \<in> {BadgerDBStorage, FileStorageType, StdoutStorage}
   \<and> sc_Path (cfg_Storage c) \<noteq> [] \<and> 0 < sint (cfg_StatsCollectionIntervalSeconds c)"

subsection \<open>Streams\<close>

lemma StreamSpec_errors_Nil_iff: "StreamSpec_errors s = [] \<longleftrightarrow> stream_ok s"
  by (auto simp: StreamSpec_errors_def stream_ok_def at_least_unlimited_def not_less not_le
      split: option.splits)

lemma StreamSpec_Validate_ok:
  "stream_ok s \<Longrightarrow> StreamSpec_Validate s = ([], normalise_stream s)"
  by (simp add: StreamSpec_Validate_def StreamSpec_errors_Nil_iff normalise_stream_def)

lemma fst_StreamSpec_Validate [simp]: "fst (StreamSpec_Validate s) = StreamSpec_errors s"
  by (simp add: StreamSpec_Validate_def Let_def)

lemma validate_streams_ok:
  "\<forall>s \<in> set ss. stream_ok s \<Longrightarrow> validate_streams i ss = ([], map normalise_stream ss)"
  by (induction ss arbitrary: i) (simp_all add: StreamSpec_Validate_ok)

lemma fst_validate_streams_Cons:
  "fst (validate_streams i (s # ss)) =
     err_if (StreamSpec_errors s \<noteq> []) (StreamError i (StreamSpec_errors s))
     @ fst (validate_streams (Suc i) ss)"
  by (simp add: split_beta)

lemma validate_streams_errors:
  "e \<in> set (fst (validate_streams i ss)) \<longleftrightarrow>
   (\<exists>k < length ss. StreamSpec_errors (ss ! k) \<noteq> [] \<and> e = StreamError (i + k) (StreamSpec_errors (ss ! k)))"
  by (induction ss arbitrary: i)
    (simp_all only: fst_validate_streams_Cons, simp_all add: Ex_less_Suc2 err_if_def, blast)

lemma validate_streams_Nil_iff:
  "fst (validate_streams i ss) = [] \<longleftrightarrow> (\<forall>s \<in> set ss. stream_ok s)"
  by (induction ss arbitrary: i)
    (simp_all only: fst_validate_streams_Cons, simp_all add: StreamSpec_errors_Nil_iff)

lemma normalise_stream_simps [simp]:
  "ss_NamePrefix (normalise_stream s) = ss_NamePrefix s"
  "ss_Subjects (normalise_stream s) = map ReplaceAll_braces (ss_Subjects s)"
  "stream_ok (normalise_stream s) \<longleftrightarrow> stream_ok s"
  by (simp_all add: normalise_stream_def stream_ok_def)

lemma validate_streams_prefixes:
  "map ss_NamePrefix (snd (validate_streams i ss)) = map ss_NamePrefix ss"
  by (induction ss arbitrary: i) (auto simp: StreamSpec_Validate_def Let_def split_beta)

lemma prefix_matched_iff: "prefix_matched p ss \<longleftrightarrow> p \<in> set (map ss_NamePrefix ss)"
  by (auto simp: prefix_matched_def list_ex_iff)

lemma prefix_mem_iff: "p \<in> set (map ss_NamePrefix ss) \<longleftrightarrow> (\<exists>s \<in> set ss. ss_NamePrefix s = p)"
  by auto

subsection \<open>Specs\<close>

lemma PublisherSpec_Validate_Nil_iff: "PublisherSpec_Validate p = [] \<longleftrightarrow> publisher_ok p"
  by (auto simp: PublisherSpec_Validate_def publisher_ok_def not_le)

lemma ConsumerSpec_Validate_Nil_iff: "ConsumerSpec_Validate c = [] \<longleftrightarrow> consumer_ok c"
  by (auto simp: ConsumerSpec_Validate_def consumer_ok_def not_le)

lemma BehaviorConfig_Validate_Nil_iff: "BehaviorConfig_Validate b = [] \<longleftrightarrow> behavior_ok b"
  by (auto simp: BehaviorConfig_Validate_def behavior_ok_def not_le not_less)

lemmas section_Nil_iffs =
  PublisherSpec_Validate_Nil_iff ConsumerSpec_Validate_Nil_iff BehaviorConfig_Validate_Nil_iff

lemma validateStreamSynchronization_None_iff:
  "validateStreamSynchronization lts = None \<longleftrightarrow>
     ps_StreamNamePrefix (lts_Publishers lts) = cs_StreamNamePrefix (lts_Consumers lts)
   \<and> ps_StreamNamePrefix (lts_Publishers lts) \<in> set (map ss_NamePrefix (lts_Streams lts))"
  by (simp add: validateStreamSynchronization_def Let_def prefix_matched_iff)

lemma LoadTestSpec_Validate_errors_Nil_iff:
  "fst (LoadTestSpec_Validate lts) = [] \<longleftrightarrow> spec_ok lts"
proof -
  have sync: "validateStreamSynchronization (lts\<lparr>lts_Streams := snd (validate_streams 0 (lts_Streams lts))\<rparr>)
      = None \<longleftrightarrow>
      ps_StreamNamePrefix (lts_Publishers lts) = cs_StreamNamePrefix (lts_Consumers lts)
    \<and> ps_StreamNamePrefix (lts_Publishers lts) \<in> set (map ss_NamePrefix (lts_Streams lts))"
    by (simp add: validateStreamSynchronization_None_iff validate_streams_prefixes
        del: set_map list.set_map)
  have "fst (LoadTestSpec_Validate lts) = [] \<longleftrightarrow>
      lts_Name lts \<noteq> [] \<and> lts_NATSURL lts \<noteq> [] \<and> lts_Streams lts \<noteq> []
    \<and> (\<forall>s \<in> set (lts_Streams lts). stream_ok s)
    \<and> publisher_ok (lts_Publishers lts) \<and> consumer_ok (lts_Consumers lts)
    \<and> behavior_ok (lts_Behavior lts)
    \<and> validateStreamSynchronization (lts\<lparr>lts_Streams := snd (validate_streams 0 (lts_Streams lts))\<rparr>)
      = None"
    by (auto simp: LoadTestSpec_Validate_def split_beta Let_def section_Nil_iffs
        validate_streams_Nil_iff split: option.splits)
  then show ?thesis unfolding sync spec_ok_def prefix_mem_iff by auto
qed

lemma LoadTestSpec_Validate_ok:
  assumes "spec_ok lts" shows "LoadTestSpec_Validate lts = ([], normalise_spec lts)"
proof -
  have "\<forall>s \<in> set (lts_Streams lts). stream_ok s" using assms by (simp add: spec_ok_def)
  then have "snd (LoadTestSpec_Validate lts) = normalise_spec lts"
    by (simp add: LoadTestSpec_Validate_def validate_streams_ok normalise_spec_def Let_def)
  moreover have "fst (LoadTestSpec_Validate lts) = []"
    using assms by (simp add: LoadTestSpec_Validate_errors_Nil_iff)
  ultimately show ?thesis by (metis prod.collapse)
qed

lemma spec_ok_normalise [simp]: "spec_ok (normalise_spec lts) \<longleftrightarrow> spec_ok lts"
  by (auto simp: spec_ok_def normalise_spec_def)

lemma spec_wf_normalise: "spec_ok lts \<Longrightarrow> spec_wf (normalise_spec lts)"
  by (auto simp: spec_wf_def ReplaceAll_braces_no_braces) (auto simp: normalise_spec_def ReplaceAll_braces_no_braces split: if_splits)

lemma normalise_spec_wf: "spec_wf lts \<Longrightarrow> normalise_spec lts = lts"
proof -
  assume wf: "spec_wf lts"
  have "map ReplaceAll_braces (ss_Subjects s) = ss_Subjects s" if "s \<in> set (lts_Streams lts)" for s
    using wf that by (intro map_idI ReplaceAll_braces_id) (simp add: spec_wf_def)
  then have "normalise_stream s = s" if "s \<in> set (lts_Streams lts)" for s
    using that by (simp add: normalise_stream_def)
  then have "map normalise_stream (lts_Streams lts) = lts_Streams lts"
    by (simp add: map_idI)
  then show ?thesis using wf by (simp add: normalise_spec_def spec_wf_def)
qed

lemma LoadTestSpec_Validate_wf: "spec_wf lts \<Longrightarrow> LoadTestSpec_Validate lts = ([], lts)"
  using LoadTestSpec_Validate_ok [of lts] normalise_spec_wf [of lts] by (simp add: spec_wf_def)

lemma LoadTestSpec_Validate_okD:
  "LoadTestSpec_Validate lts = ([], lts') \<Longrightarrow> spec_ok lts \<and> lts' = normalise_spec lts"
  using LoadTestSpec_Validate_errors_Nil_iff [of lts] LoadTestSpec_Validate_ok [of lts] by simp

subsection \<open>Repeat policy and configuration\<close>

lemma default_one_positive [simp]:
  "positive_multiplier (default_one m)"
  by (auto simp: positive_multiplier_def default_one_def float64_class_defs)

lemma default_one_id [simp]: "positive_multiplier m \<Longrightarrow> default_one m = m"
  by (simp add: positive_multiplier_def default_one_def)

lemma RepeatPolicy_Validate_policy_wf:
  "RepeatPolicy_Validate rp = (None, rp') \<Longrightarrow> policy_wf rp'"
  by (auto simp: RepeatPolicy_Validate_def policy_wf_def Let_def split: if_splits)

lemma RepeatPolicy_Validate_id: "policy_wf rp \<Longrightarrow> RepeatPolicy_Validate rp = (None, rp)"
  by (auto simp: RepeatPolicy_Validate_def policy_wf_def Let_def)

lemma validate_specs_ReturnD:
  "validate_specs i ss = Return ss' \<Longrightarrow>
   \<exists>ls. ss = map Some ls \<and> (\<forall>l \<in> set ls. spec_ok l) \<and> ss' = map (Some \<circ> normalise_spec) ls"
proof (induction i ss arbitrary: ss' rule: validate_specs.induct)
  case (3 i s rest)
  obtain es s' where v: "LoadTestSpec_Validate s = (es, s')" by (cases "LoadTestSpec_Validate s")
  with 3(2) obtain ss'' where es: "es = []" and r: "validate_specs (Suc i) rest = Return ss''"
    and ss': "ss' = Some s' # ss''"
    by (auto split: if_splits outcome.splits)
  from v es have s: "spec_ok s" "s' = normalise_spec s"
    by (auto dest: LoadTestSpec_Validate_okD)
  from 3(1) [OF v [symmetric] refl _ r] es obtain ls where "rest = map Some ls"
    "\<forall>l \<in> set ls. spec_ok l" "ss'' = map (Some \<circ> normalise_spec) ls"
    by auto
  with s ss' show ?case by (intro exI [of _ "s # ls"]) simp
qed simp_all

lemma validate_specs_ok:
  "\<forall>l \<in> set ls. spec_ok l \<Longrightarrow>
   validate_specs i (map Some ls) = Return (map (Some \<circ> normalise_spec) ls)"
  by (induction ls arbitrary: i) (simp_all add: LoadTestSpec_Validate_ok)

lemma validate_storage_ReturnD:
  "validate_storage c = Return c' \<Longrightarrow>
     sc_Type (cfg_Storage c') \<in> {BadgerDBStorage, FileStorageType, StdoutStorage}
   \<and> sc_Path (cfg_Storage c') \<noteq> []
   \<and> c' = c\<lparr>cfg_Storage := cfg_Storage c'\<rparr>"
  by (auto simp: validate_storage_def default_path_def config_constants Let_def split: if_splits)

lemma validate_storage_id:
  "sc_Type (cfg_Storage c) \<in> {BadgerDBStorage, FileStorageType, StdoutStorage} \<Longrightarrow>
   sc_Path (cfg_Storage c) \<noteq> [] \<Longrightarrow> validate_storage c = Return c"
  by (auto simp: validate_storage_def config_constants Let_def)

lemma config_wf_specs:
  "config_wf c \<Longrightarrow> \<exists>ls. cfg_LoadTestSpecs c = map Some ls \<and> ls \<noteq> [] \<and> (\<forall>l \<in> set ls. spec_wf l)"
proof (intro exI conjI)
  assume wf: "config_wf c"
  let ?ls = "map the (cfg_LoadTestSpecs c)"
  show "cfg_LoadTestSpecs c = map Some ?ls"
    using wf by (auto simp: config_wf_def intro!: map_idI [symmetric])
  show "?ls \<noteq> []" and "\<forall>l \<in> set ?ls. spec_wf l"
    using wf by (auto simp: config_wf_def)
qed

lemma Config_Validate_ReturnD:
  assumes "Config_Validate c = Return c'" shows "config_wf c'"
proof -
  from assms have ne: "cfg_LoadTestSpecs c \<noteq> []" by (auto simp: Config_Validate_def split: if_splits)
  obtain ss where ss: "validate_specs 0 (cfg_LoadTestSpecs c) = Return ss"
    using assms ne by (auto simp: Config_Validate_def split: outcome.splits prod.splits)
  obtain ls where ls: "cfg_LoadTestSpecs c = map Some ls" "\<forall>l \<in> set ls. spec_ok l"
    "ss = map (Some \<circ> normalise_spec) ls"
    using validate_specs_ReturnD [OF ss] by auto
  obtain re rp where rp: "RepeatPolicy_Validate (cfg_RepeatPolicy c) = (re, rp)"
    by (cases "RepeatPolicy_Validate (cfg_RepeatPolicy c)")
  with assms ne ss obtain c2 where re: "re = None"
    and c2: "validate_storage (c\<lparr>cfg_LoadTestSpecs := ss, cfg_RepeatPolicy := rp\<rparr>) = Return c2"
    and c': "c' = default_interval c2"
    by (cases re) (auto simp: Config_Validate_def Let_def)
  note st = validate_storage_ReturnD [OF c2]
  then have f: "c2 = c\<lparr>cfg_LoadTestSpecs := ss, cfg_RepeatPolicy := rp, cfg_Storage := cfg_Storage c2\<rparr>"
    by blast
  have "cfg_LoadTestSpecs c2 = ss" by (subst f) simp
  moreover have "cfg_RepeatPolicy c2 = rp" by (subst f) simp
  ultimately have "cfg_LoadTestSpecs c' = ss" "cfg_RepeatPolicy c' = rp" "cfg_Storage c' = cfg_Storage c2"
    by (simp_all add: c' default_interval_def)
  moreover have "0 < sint (cfg_StatsCollectionIntervalSeconds c')"
    by (simp add: c' default_interval_def defaultStatsInterval_def)
  ultimately show ?thesis
    using ne ls st RepeatPolicy_Validate_policy_wf [OF rp [unfolded re]]
    by (auto simp: config_wf_def spec_wf_normalise)
qed

lemma Config_Validate_id:
  assumes "config_wf c" shows "Config_Validate c = Return c"
proof -
  obtain ls where ls: "cfg_LoadTestSpecs c = map Some ls" "ls \<noteq> []" "\<forall>l \<in> set ls. spec_wf l"
    using config_wf_specs [OF assms] by auto
  have "\<forall>l \<in> set ls. spec_ok l" using ls(3) by (auto simp: spec_wf_def)
  from validate_specs_ok [OF this, of 0]
  have "validate_specs 0 (cfg_LoadTestSpecs c) = Return (map (Some \<circ> normalise_spec) ls)" by (simp add: ls)
  moreover have "map (Some \<circ> normalise_spec) ls = cfg_LoadTestSpecs c"
    using ls(3) by (auto simp: ls(1) normalise_spec_wf)
  ultimately have specs: "validate_specs 0 (cfg_LoadTestSpecs c) = Return (cfg_LoadTestSpecs c)" by simp
  have rp: "RepeatPolicy_Validate (cfg_RepeatPolicy c) = (None, cfg_RepeatPolicy c)"
    using assms by (intro RepeatPolicy_Validate_id) (simp add: config_wf_def)
  have "validate_storage c = Return c"
    using assms by (intro validate_storage_id) (simp_all add: config_wf_def)
  moreover have "default_interval c = c" and "cfg_LoadTestSpecs c \<noteq> []"
    using assms by (simp_all add: default_interval_def config_wf_def)
  moreover have "c\<lparr>cfg_LoadTestSpecs := cfg_LoadTestSpecs c, cfg_RepeatPolicy := cfg_RepeatPolicy c\<rparr> = c"
    by simp
  ultimately show ?thesis
    unfolding Config_Validate_def specs rp by (simp add: Let_def)
qed

end
