(* ===== verification/Config_Repeat.thy ===== *)
theory Config_Repeat
  imports Config_Validate
begin

text \<open>
  The scaling a repeat policy applies to the last spec before each repetition
  (\<open>ApplyMultipliers\<close> of \<open>internal/config/config.go\<close>).  Each field goes through \<open>float64\<close> and
  back; a product outside the integer type converts to whatever the platform returns.
\<close>

section \<open>Scaling\<close>

definition scale32 :: "impl \<Rightarrow> int32 \<Rightarrow> float64 \<Rightarrow> int32" where
  "scale32 im n m = to_int32 im (float_of_int (sint n) * m)"

definition scale64 :: "impl \<Rightarrow> int64 \<Rightarrow> float64 \<Rightarrow> int64" where
  "scale64 im n m = to_int64 im (float_of_int (sint n) * m)"

definition scale_stream :: "impl \<Rightarrow> StreamMultipliers \<Rightarrow> StreamSpec \<Rightarrow> StreamSpec" where
  "scale_stream im m s = s
     \<lparr>ss_Count := scale32 im (ss_Count s) (sm_Count m),
      ss_Replicas := scale32 im (ss_Replicas s) (sm_Replicas m),
      ss_MessagesPerStreamPerSecond :=
        scale64 im (ss_MessagesPerStreamPerSecond s) (sm_MessagesPerStreamPerSecond m)\<rparr>"

definition scale_behavior :: "impl \<Rightarrow> BehaviorMultipliers \<Rightarrow> BehaviorConfig \<Rightarrow> BehaviorConfig" where
  "scale_behavior im m b = b
     \<lparr>bc_DurationSeconds := scale64 im (bc_DurationSeconds b) (bm_Duration m),
      bc_RampUpSeconds := scale64 im (bc_RampUpSeconds b) (bm_RampUp m)\<rparr>"

definition scale_consumers :: "impl \<Rightarrow> ConsumerMultipliers \<Rightarrow> ConsumerSpec \<Rightarrow> ConsumerSpec" where
  "scale_consumers im m c = c
     \<lparr>cs_AckWaitSeconds := scale64 im (cs_AckWaitSeconds c) (cm_AckWait m),
      cs_MaxAckPending := scale32 im (cs_MaxAckPending c) (cm_MaxAckPending m),
      cs_ConsumeDelayMs := scale64 im (cs_ConsumeDelayMs c) (cm_ConsumeDelay m),
      cs_CountPerStream := scale32 im (cs_CountPerStream c) (cm_CountPerStream m)\<rparr>"

definition scale_publishers :: "impl \<Rightarrow> PublisherMultipliers \<Rightarrow> PublisherSpec \<Rightarrow> PublisherSpec" where
  "scale_publishers im m p = p
     \<lparr>ps_CountPerStream := scale32 im (ps_CountPerStream p) (pm_CountPerStream m),
      ps_PublishRatePerSecond := scale32 im (ps_PublishRatePerSecond p) (pm_PublishRate m),
      ps_MessageSizeBytes := scale32 im (ps_MessageSizeBytes p) (pm_MessageSizeBytes m)\<rparr>"

definition ApplyMultipliers :: "impl \<Rightarrow> RepeatPolicy \<Rightarrow> LoadTestSpec \<Rightarrow> LoadTestSpec" where
  "ApplyMultipliers im rp lts = lts
     \<lparr>lts_Streams := map (scale_stream im (rp_Streams rp)) (lts_Streams lts),
      lts_Behavior := scale_behavior im (rp_Behavior rp) (lts_Behavior lts),
      lts_Consumers := scale_consumers im (rp_Consumers rp) (lts_Consumers lts),
      lts_Publishers := scale_publishers im (rp_Publishers rp) (lts_Publishers lts)\<rparr>"

section \<open>Multipliers of one\<close>

definition exact64 :: "int64 \<Rightarrow> bool" where
  "exact64 n \<longleftrightarrow> \<bar>sint n\<bar> \<le> 2 ^ 53"

lemma scale32_one [simp]: "scale32 im n (Fin 1) = n"
  by (simp add: scale32_def times_float64_def)

lemma scale64_one: "exact64 n \<Longrightarrow> scale64 im n (Fin 1) = n"
  by (simp add: scale64_def exact64_def times_float64_def float_of_int_exact)

definition neutral_policy :: "RepeatPolicy \<Rightarrow> bool" where
  "neutral_policy rp \<longleftrightarrow>
     rp_Streams rp = \<lparr>sm_Count = Fin 1, sm_Replicas = Fin 1, sm_MessagesPerStreamPerSecond = Fin 1\<rparr>
   \<and> rp_Behavior rp = \<lparr>bm_Duration = Fin 1, bm_RampUp = Fin 1\<rparr>
   \<and> rp_Consumers rp = \<lparr>cm_AckWait = Fin 1, cm_MaxAckPending = Fin 1,
        cm_ConsumeDelay = Fin 1, cm_CountPerStream = Fin 1\<rparr>
   \<and> rp_Publishers rp = \<lparr>pm_CountPerStream = Fin 1, pm_PublishRate = Fin 1,
        pm_MessageSizeBytes = Fin 1\<rparr>"

definition exact_spec :: "LoadTestSpec \<Rightarrow> bool" where
  "exact_spec lts \<longleftrightarrow>
     (\<forall>s \<in> set (lts_Streams lts). exact64 (ss_MessagesPerStreamPerSecond s))
   \<and> exact64 (bc_DurationSeconds (lts_Behavior lts)) \<and> exact64 (bc_RampUpSeconds (lts_Behavior lts))
   \<and> exact64 (cs_AckWaitSeconds (lts_Consumers lts)) \<and> exact64 (cs_ConsumeDelayMs (lts_Consumers lts))"

lemma ApplyMultipliers_one:
  assumes "neutral_policy rp" and "exact_spec lts"
  shows "ApplyMultipliers im rp lts = lts"
proof -
  have "map (scale_stream im (rp_Streams rp)) (lts_Streams lts) = lts_Streams lts"
    using assms by (intro map_idI) (simp add: scale_stream_def neutral_policy_def exact_spec_def scale64_one)
  then show ?thesis using assms
    by (simp add: ApplyMultipliers_def scale_behavior_def scale_consumers_def scale_publishers_def
        neutral_policy_def exact_spec_def scale64_one)
qed

section \<open>Growing multipliers\<close>

text \<open>A multiplier of at least one whose product with the field stays in the field's type.\<close>

definition grows32 :: "int32 \<Rightarrow> float64 \<Rightarrow> bool" where
  "grows32 n m \<longleftrightarrow> (\<exists>q r. m = Fin q \<and> 1 \<le> q \<and> float_of_int (sint n) * m = Fin r \<and> r < 2147483648)"

definition grows64 :: "int64 \<Rightarrow> float64 \<Rightarrow> bool" where
  "grows64 n m \<longleftrightarrow> (\<exists>q r. m = Fin q \<and> 1 \<le> q \<and> exact64 n
     \<and> float_of_int (sint n) * m = Fin r \<and> r < 9223372036854775808)"

lemma trunc_rat_less: "0 \<le> r \<Longrightarrow> r < of_int k \<Longrightarrow> trunc_rat r < k"
  by (simp add: trunc_rat_def floor_less_iff)

lemma product_at_least:
  assumes "0 \<le> sint n" and "1 \<le> q" and "\<bar>sint n\<bar> \<le> 2 ^ 53"
    and "fmul (float_of_int (sint n)) (Fin q) = Fin r"
  shows "sint n \<le> trunc_rat r" and "0 \<le> r"
proof -
  have "fl (of_int (sint n) * q) = Fin r"
    using assms(3,4) by (simp add: float_of_int_exact)
  moreover have "fl (of_int (sint n)) = Fin (of_int (sint n))" using assms(3) by simp
  moreover have "of_int (sint n) * 1 \<le> of_int (sint n) * q"
    using assms(1,2) by (intro mult_left_mono) simp_all
  ultimately have le: "of_int (sint n) \<le> r" by (auto intro: fl_eq_Fin_mono)
  from trunc_rat_mono [OF this] show "sint n \<le> trunc_rat r" by simp
  from assms(1) le show "0 \<le> r" by (meson of_int_0_le_iff order_trans)
qed

lemma scale32_grows:
  assumes "0 \<le> sint n" and "grows32 n m"
  shows "sint n \<le> sint (scale32 im n m)"
proof -
  obtain q r where m: "m = Fin q" "1 \<le> q" and r: "fmul (float_of_int (sint n)) (Fin q) = Fin r"
    and lt: "r < 2147483648"
    using assms(2) by (auto simp: grows32_def times_float64_def)
  have "\<bar>sint n\<bar> \<le> 2 ^ 53" by simp
  note p = product_at_least [OF assms(1) m(2) this r]
  have "trunc_rat r < 2147483648" using trunc_rat_less [OF p(2), of 2147483648] lt by simp
  moreover have "- 2147483648 \<le> trunc_rat r" using p(1) assms(1) by linarith
  moreover have "scale32 im n m = to_int32 im (Fin r)"
    by (simp only: scale32_def m times_float64_def r)
  ultimately show ?thesis using p(1) by (simp add: sint_of_int_32)
qed

lemma scale64_grows:
  assumes "0 \<le> sint n" and "grows64 n m"
  shows "sint n \<le> sint (scale64 im n m)"
proof -
  obtain q r where m: "m = Fin q" "1 \<le> q" and r: "fmul (float_of_int (sint n)) (Fin q) = Fin r"
    and lt: "r < 9223372036854775808" and e: "exact64 n"
    using assms(2) by (auto simp: grows64_def times_float64_def)
  note p = product_at_least [OF assms(1) m(2) e [unfolded exact64_def] r]
  have "trunc_rat r < 9223372036854775808"
    using trunc_rat_less [OF p(2), of 9223372036854775808] lt by simp
  moreover have "- 9223372036854775808 \<le> trunc_rat r" using p(1) assms(1) by linarith
  moreover have "scale64 im n m = to_int64 im (Fin r)"
    by (simp only: scale64_def m times_float64_def r)
  ultimately show ?thesis using p(1) by (simp add: sint_of_int_64)
qed

definition growing :: "RepeatPolicy \<Rightarrow> LoadTestSpec \<Rightarrow> bool" where
  "growing rp lts \<longleftrightarrow>
     (\<forall>s \<in> set (lts_Streams lts).
        grows32 (ss_Count s) (sm_Count (rp_Streams rp))
      \<and> grows32 (ss_Replicas s) (sm_Replicas (rp_Streams rp))
      \<and> grows64 (ss_MessagesPerStreamPerSecond s) (sm_MessagesPerStreamPerSecond (rp_Streams rp)))
   \<and> grows64 (bc_DurationSeconds (lts_Behavior lts)) (bm_Duration (rp_Behavior rp))
   \<and> grows64 (bc_RampUpSeconds (lts_Behavior lts)) (bm_RampUp (rp_Behavior rp))
   \<and> grows64 (cs_AckWaitSeconds (lts_Consumers lts)) (cm_AckWait (rp_Consumers rp))
   \<and> grows32 (cs_MaxAckPending (lts_Consumers lts)) (cm_MaxAckPending (rp_Consumers rp))
   \<and> grows32 (cs_CountPerStream (lts_Consumers lts)) (cm_CountPerStream (rp_Consumers rp))
   \<and> grows32 (ps_CountPerStream (lts_Publishers lts)) (pm_CountPerStream (rp_Publishers rp))
   \<and> grows32 (ps_PublishRatePerSecond (lts_Publishers lts)) (pm_PublishRate (rp_Publishers rp))
   \<and> grows32 (ps_MessageSizeBytes (lts_Publishers lts)) (pm_MessageSizeBytes (rp_Publishers rp))"

lemma scale_positive:
  "0 < sint n \<Longrightarrow> grows32 n m \<Longrightarrow> 0 < sint (scale32 im n m)"
  "0 < sint k \<Longrightarrow> grows64 k m \<Longrightarrow> 0 < sint (scale64 im k m)"
  "0 \<le> sint k \<Longrightarrow> grows64 k m \<Longrightarrow> 0 \<le> sint (scale64 im k m)"
  using scale32_grows [of n m im] scale64_grows [of k m im] by linarith+

lemma scale_stream_ok:
  assumes "stream_ok s" and "grows32 (ss_Count s) (sm_Count m)"
    and "grows32 (ss_Replicas s) (sm_Replicas m)"
    and "grows64 (ss_MessagesPerStreamPerSecond s) (sm_MessagesPerStreamPerSecond m)"
  shows "stream_ok (scale_stream im m s)"
  using assms by (simp add: stream_ok_def scale_stream_def scale_positive)

lemma scale_stream_simps [simp]:
  "ss_NamePrefix (scale_stream im m s) = ss_NamePrefix s"
  "ss_Subjects (scale_stream im m s) = ss_Subjects s"
  by (simp_all add: scale_stream_def)

lemma ApplyMultipliers_growing_wf:
  assumes wf: "spec_wf lts" and g: "growing rp lts"
  shows "spec_wf (ApplyMultipliers im rp lts)"
proof -
  let ?l = "ApplyMultipliers im rp lts"
  have ok: "spec_ok lts" using wf by (simp add: spec_wf_def)
  have "\<forall>s \<in> set (lts_Streams ?l). stream_ok s"
    using ok g by (auto simp: spec_ok_def growing_def ApplyMultipliers_def intro!: scale_stream_ok)
  moreover have "publisher_ok (lts_Publishers ?l)" and "consumer_ok (lts_Consumers ?l)"
    and "behavior_ok (lts_Behavior ?l)"
    using ok g by (simp_all add: spec_ok_def growing_def ApplyMultipliers_def publisher_ok_def
        consumer_ok_def behavior_ok_def scale_publishers_def scale_consumers_def
        scale_behavior_def scale_positive)
  moreover have "\<exists>s \<in> set (lts_Streams ?l). ss_NamePrefix s = ps_StreamNamePrefix (lts_Publishers ?l)"
    using ok by (auto simp: spec_ok_def ApplyMultipliers_def scale_publishers_def)
  moreover have "lts_Name ?l \<noteq> []" "lts_NATSURL ?l \<noteq> []" "lts_ClientIDPrefix ?l \<noteq> []"
    "ps_StreamNamePrefix (lts_Publishers ?l) = cs_StreamNamePrefix (lts_Consumers ?l)"
    "\<forall>s \<in> set (lts_Streams ?l). \<forall>t \<in> set (ss_Subjects s). \<not> Contains t ''{}''"
    using wf by (simp_all add: spec_wf_def spec_ok_def ApplyMultipliers_def
        scale_publishers_def scale_consumers_def)
  ultimately show ?thesis by (simp add: spec_wf_def spec_ok_def)
qed

text \<open>Doubling the rate is exact as long as the result is a 32-bit number.\<close>

lemma scale32_double:
  assumes "0 \<le> sint n" and "sint n < 1073741824"
  shows "sint (scale32 im n (Fin 2)) = 2 * sint n"
proof -
  have "fl (of_int (sint n) * 2) = fl (of_int (sint n * 2))" by simp
  also have "\<dots> = Fin (of_int (sint n * 2))" by (rule fl_of_int) (use assms in simp)
  finally have "scale32 im n (Fin 2) = to_int32 im (Fin (of_int (sint n * 2)))"
    by (simp add: scale32_def times_float64_def)
  also have "\<dots> = (if - 2147483648 \<le> sint n * 2 \<and> sint n * 2 < 2147483648
      then word_of_int (sint n * 2) else oob32 im (Fin (of_int (sint n * 2))))"
    by (simp only: to_int32.simps trunc_rat_of_int)
  also have "\<dots> = word_of_int (sint n * 2)" using assms by simp
  finally have "sint (scale32 im n (Fin 2)) = sint (word_of_int (sint n * 2) :: int32)" by (rule arg_cong)
  also have "\<dots> = sint n * 2" by (rule sint_of_int_32) (use assms in simp_all)
  finally show ?thesis by simp
qed

lemma rate_after_repeats:
  assumes "sint (ps_PublishRatePerSecond (lts_Publishers lts)) = r" and "0 \<le> r" and "r * 2 ^ n < 2147483648"
    and "pm_PublishRate (rp_Publishers rp) = Fin 2"
  shows "sint (ps_PublishRatePerSecond (lts_Publishers ((ApplyMultipliers im rp ^^ n) lts))) = r * 2 ^ n"
  using assms(3)
proof (induction n)
  case (Suc n)
  let ?x = "ps_PublishRatePerSecond (lts_Publishers ((ApplyMultipliers im rp ^^ n) lts))"
  have lt: "r * 2 ^ n < 1073741824" using Suc.prems by simp
  then have "sint ?x = r * 2 ^ n" using Suc.IH by simp
  moreover have "ps_PublishRatePerSecond (lts_Publishers ((ApplyMultipliers im rp ^^ Suc n) lts)) =
      scale32 im ?x (Fin 2)"
    by (simp add: ApplyMultipliers_def scale_publishers_def assms(4))
  ultimately show ?case using scale32_double [of ?x im] lt assms(2) by simp
qed (use assms(1) in simp)

section \<open>Multipliers between one and two\<close>

lemma fl_factor:
  assumes "1 \<le> q" and "q \<le> 2" and "0 \<le> n" and "n \<le> 2 ^ 52"
  shows "\<exists>r. fmul (float_of_int n) (Fin q) = Fin r \<and> trunc_rat r \<le> 2 * n \<and> r \<le> of_int (2 * n)"
proof -
  have n: "float_of_int n = Fin (of_int n)" by (rule float_of_int_exact) (use assms(3,4) in simp)
  have up: "of_int n * q \<le> of_int (2 * n)" using mult_left_mono [OF assms(2), of "of_int n"] assms(3) by simp
  have "(of_int (2 * n) :: rat) \<le> of_int (2 ^ 53)" by (rule of_int_le_iff [THEN iffD2]) (use assms(4) in simp)
  moreover have "0 \<le> of_int n * q" using assms(1,3) by simp
  ultimately have "\<bar>of_int n * q\<bar> \<le> pow2 53" using up by simp
  then have "fl (of_int n * q) = Fin (round_rat (of_int n * q))" by (rule fl_finite) simp_all
  moreover have "round_rat (of_int n * q) \<le> round_rat (of_int (2 * n))" by (rule round_rat_mono [OF up])
  moreover have "round_rat (of_int (2 * n)) = of_int (2 * n)" by (rule round_rat_of_int) (use assms(3,4) in simp)
  ultimately have "fmul (float_of_int n) (Fin q) = Fin (round_rat (of_int n * q))"
    "round_rat (of_int n * q) \<le> of_int (2 * n)" by (simp_all only: n fmul.simps)
  moreover from this(2) have "trunc_rat (round_rat (of_int n * q)) \<le> 2 * n"
    using trunc_rat_mono trunc_rat_of_int by metis
  ultimately show ?thesis by blast
qed

lemma scale32_factor:
  assumes "1 \<le> q" and "q \<le> 2" and "0 \<le> sint n" and "sint n < 1073741824"
  shows "sint n \<le> sint (scale32 im n (Fin q)) \<and> sint (scale32 im n (Fin q)) \<le> 2 * sint n"
proof -
  obtain r where r: "fmul (float_of_int (sint n)) (Fin q) = Fin r" "trunc_rat r \<le> 2 * sint n"
    using fl_factor [OF assms(1,2,3)] assms(4) by auto
  have low: "sint n \<le> trunc_rat r" by (rule product_at_least(1) [OF assms(3,1) _ r(1)]) simp
  have "scale32 im n (Fin q) = to_int32 im (Fin r)" by (simp only: scale32_def times_float64_def r)
  also have "\<dots> = word_of_int (trunc_rat r)" using low r(2) assms(3,4) by simp
  finally have "sint (scale32 im n (Fin q)) = trunc_rat r"
    using sint_of_int_32 [of "trunc_rat r"] low r(2) assms(3,4) by simp
  with low r(2) show ?thesis by simp
qed

lemma scale64_factor:
  assumes "1 \<le> q" and "q \<le> 2" and "0 \<le> sint n" and "sint n \<le> 2 ^ 52"
  shows "sint n \<le> sint (scale64 im n (Fin q)) \<and> sint (scale64 im n (Fin q)) \<le> 2 * sint n"
proof -
  obtain r where r: "fmul (float_of_int (sint n)) (Fin q) = Fin r" "trunc_rat r \<le> 2 * sint n"
    using fl_factor [OF assms] by auto
  have low: "sint n \<le> trunc_rat r" by (rule product_at_least(1) [OF assms(3,1) _ r(1)]) (use assms(3,4) in simp)
  have "scale64 im n (Fin q) = to_int64 im (Fin r)" by (simp only: scale64_def times_float64_def r)
  also have "\<dots> = word_of_int (trunc_rat r)" using low r(2) assms(3,4) by simp
  finally have "sint (scale64 im n (Fin q)) = trunc_rat r"
    using sint_of_int_64 [of "trunc_rat r"] low r(2) assms(3,4) by simp
  with low r(2) show ?thesis by simp
qed

end
