(* ===== verification/Config_Hash.thy ===== *)
theory Config_Hash
  imports Config_Repeat
begin

text \<open>
  The JSON trees of configurations and their hashes (\<open>Hash\<close> and \<open>Equals\<close> of
  \<open>internal/config/config.go\<close>).  A tree is what \<open>encoding/json\<close> prints for a struct: its
  fields in order under the names of their tags, a nil pointer with \<open>omitempty\<close> left out.  A
  number node holds the number, a time node the instant its RFC 3339 text denotes.  The
  printing of a tree followed by SHA-256 in hexadecimal is the parameter \<open>digest\<close>.
  JSON holds no infinity and no NaN, so a decoded configuration has none; their encoding
  (which \<open>encoding/json\<close> refuses) is never used.
\<close>

section \<open>Trees\<close>

datatype json =
    JNull
  | JBool bool
  | JNum rat
  | JString string
  | JTime Time
  | JArray "json list"
  | JObject "(string \<times> json) list"

definition JInt :: "int \<Rightarrow> json" where
  "JInt i = JNum (of_int i)"

fun JFloat :: "float64 \<Rightarrow> json" where
  "JFloat (Fin r) = JNum r"
| "JFloat PInf = JNull"
| "JFloat NInf = JNull"
| "JFloat NaN = JNull"

definition omitempty :: "string \<Rightarrow> ('a \<Rightarrow> json) \<Rightarrow> 'a option \<Rightarrow> (string \<times> json) list" where
  "omitempty k f x = (case x of None \<Rightarrow> [] | Some v \<Rightarrow> [(k, f v)])"

lemma JInt_inject [simp]: "JInt i = JInt j \<longleftrightarrow> i = j"
  by (simp add: JInt_def)

section \<open>Encoding\<close>

definition json_StreamSpec :: "StreamSpec \<Rightarrow> json" where
  "json_StreamSpec s = JObject
     ([(''name_prefix'', JString (ss_NamePrefix s)),
       (''count'', JInt (sint (ss_Count s))),
       (''replicas'', JInt (sint (ss_Replicas s))),
       (''subjects'', JArray (map JString (ss_Subjects s))),
       (''messages_per_stream_per_second'', JInt (sint (ss_MessagesPerStreamPerSecond s))),
       (''retention'', JString (ss_Retention s)),
       (''max_age'', JString (ss_MaxAge s)),
       (''storage'', JString (ss_Storage s))]
      @ omitempty ''discard_new_per_subject'' JBool (ss_DiscardNewPerSubject s)
      @ [(''discard'', JString (ss_Discard s))]
      @ omitempty ''max_msgs'' (JInt \<circ> sint) (ss_MaxMsgs s)
      @ omitempty ''max_bytes'' (JInt \<circ> sint) (ss_MaxBytes s)
      @ omitempty ''max_msgs_per_subject'' (JInt \<circ> sint) (ss_MaxMsgsPerSubject s)
      @ omitempty ''max_consumers'' (JInt \<circ> sint) (ss_MaxConsumers s))"

definition json_PublisherSpec :: "PublisherSpec \<Rightarrow> json" where
  "json_PublisherSpec p = JObject
     [(''count_per_stream'', JInt (sint (ps_CountPerStream p))),
      (''stream_name_prefix'', JString (ps_StreamNamePrefix p)),
      (''publish_rate_per_second'', JInt (sint (ps_PublishRatePerSecond p))),
      (''publish_pattern'', JString (ps_PublishPattern p)),
      (''publish_burst_size'', JInt (sint (ps_PublishBurstSize p))),
      (''message_size_bytes'', JInt (sint (ps_MessageSizeBytes p))),
      (''track_latency'', JBool (ps_TrackLatency p))]"

definition json_ConsumerSpec :: "ConsumerSpec \<Rightarrow> json" where
  "json_ConsumerSpec c = JObject
     [(''stream_name_prefix'', JString (cs_StreamNamePrefix c)),
      (''type'', JString (cs_Type c)),
      (''count_per_stream'', JInt (sint (cs_CountPerStream c))),
      (''durable_name_prefix'', JString (cs_DurableNamePrefix c)),
      (''ack_wait_seconds'', JInt (sint (cs_AckWaitSeconds c))),
      (''max_ack_pending'', JInt (sint (cs_MaxAckPending c))),
      (''consume_delay_ms'', JInt (sint (cs_ConsumeDelayMs c))),
      (''ack_policy'', JString (cs_AckPolicy c))]"

definition json_LoadTestSpec :: "LoadTestSpec \<Rightarrow> json" where
  "json_LoadTestSpec lts = JObject
     [(''name'', JString (lts_Name lts)),
      (''nats_url'', JString (lts_NATSURL lts)),
      (''nats_creds_file'', JString (lts_NATSCredsFile lts)),
      (''use_jetstream'', JBool (lts_UseJetStream lts)),
      (''client_id_prefix'', JString (lts_ClientIDPrefix lts)),
      (''streams'', JArray (map json_StreamSpec (lts_Streams lts))),
      (''publishers'', json_PublisherSpec (lts_Publishers lts)),
      (''consumers'', json_ConsumerSpec (lts_Consumers lts)),
      (''behavior'', JObject
         [(''duration_seconds'', JInt (sint (bc_DurationSeconds (lts_Behavior lts)))),
          (''ramp_up_seconds'', JInt (sint (bc_RampUpSeconds (lts_Behavior lts))))]),
      (''log_limits'', JObject
         [(''max_lines'', JInt (sint (ll_MaxLines (lts_LogLimits lts)))),
          (''max_bytes'', JInt (sint (ll_MaxBytes (lts_LogLimits lts))))])]"

definition json_RepeatPolicy :: "RepeatPolicy \<Rightarrow> json" where
  "json_RepeatPolicy rp = JObject
     [(''enabled'', JBool (rp_Enabled rp)),
      (''streams'', JObject
         [(''count_multiplier'', JFloat (sm_Count (rp_Streams rp))),
          (''replicas_multiplier'', JFloat (sm_Replicas (rp_Streams rp))),
          (''messages_per_stream_per_second_multiplier'',
             JFloat (sm_MessagesPerStreamPerSecond (rp_Streams rp)))]),
      (''behavior'', JObject
         [(''duration_multiplier'', JFloat (bm_Duration (rp_Behavior rp))),
          (''ramp_up_multiplier'', JFloat (bm_RampUp (rp_Behavior rp)))]),
      (''consumers'', JObject
         [(''ack_wait_multiplier'', JFloat (cm_AckWait (rp_Consumers rp))),
          (''max_ack_pending_multiplier'', JFloat (cm_MaxAckPending (rp_Consumers rp))),
          (''consume_delay_multiplier'', JFloat (cm_ConsumeDelay (rp_Consumers rp))),
          (''count_per_stream_multiplier'', JFloat (cm_CountPerStream (rp_Consumers rp)))]),
      (''publishers'', JObject
         [(''count_per_stream_multiplier'', JFloat (pm_CountPerStream (rp_Publishers rp))),
          (''publish_rate_multiplier'', JFloat (pm_PublishRate (rp_Publishers rp))),
          (''message_size_bytes_multiplier'', JFloat (pm_MessageSizeBytes (rp_Publishers rp)))])]"

definition json_Config :: "Config \<Rightarrow> json" where
  "json_Config c = JObject
     [(''load_test_specs'', JArray (map (\<lambda>s. case s of None \<Rightarrow> JNull | Some l \<Rightarrow> json_LoadTestSpec l)
        (cfg_LoadTestSpecs c))),
      (''repeat_policy'', json_RepeatPolicy (cfg_RepeatPolicy c)),
      (''storage'', JObject [(''type'', JString (sc_Type (cfg_Storage c))),
         (''path'', JString (sc_Path (cfg_Storage c)))]),
      (''stats_collection_interval_seconds'', JInt (sint (cfg_StatsCollectionIntervalSeconds c)))]"

section \<open>Hashes\<close>

definition LoadTestSpec_Hash :: "(json \<Rightarrow> string) \<Rightarrow> LoadTestSpec \<Rightarrow> string" where
  "LoadTestSpec_Hash digest lts = digest (json_LoadTestSpec lts)"

text \<open>The receiver may be nil, which marshals to \<open>null\<close>.\<close>

definition Config_Hash :: "(json \<Rightarrow> string) \<Rightarrow> Config option \<Rightarrow> string" where
  "Config_Hash digest c = digest (case c of None \<Rightarrow> JNull | Some cfg \<Rightarrow> json_Config cfg)"

definition Config_Equals :: "(json \<Rightarrow> string) \<Rightarrow> Config option \<Rightarrow> Config option \<Rightarrow> bool" where
  "Config_Equals digest c other =
     (if c = None \<or> other = None then c = None \<and> other = None
      else Config_Hash digest c = Config_Hash digest other)"

section \<open>Trees determine configurations\<close>

lemma fst_omitempty [simp]: "fst ` set (omitempty k f x) = (if x = None then {} else {k})"
  by (auto simp: omitempty_def split: option.splits)

lemma map_of_omitempty [simp]:
  "map_of (omitempty k f x) k = map_option f x"
  by (auto simp: omitempty_def split: option.splits)

lemma map_of_omitempty_append [simp]:
  "k \<notin> fst ` set ys \<Longrightarrow> map_of (omitempty k f x @ ys) k = map_option f x"
  "k \<noteq> k' \<Longrightarrow> map_of (omitempty k f x @ ys) k' = map_of ys k'"
  by (auto simp: omitempty_def map_of_eq_None_iff split: option.splits)

lemma inj_JInt_sint: "inj (JInt \<circ> sint :: 'a :: len word \<Rightarrow> json)"
  by (auto simp: inj_def word_eq_sint_iff)

lemma map_option_JInt_sint_eq [simp]:
  "map_option (JInt \<circ> sint) (x :: 'a :: len word option) = map_option (JInt \<circ> sint) y \<longleftrightarrow> x = y"
  by (rule inj_eq [OF option.inj_map [OF inj_JInt_sint]])

lemma map_option_JBool_eq [simp]: "map_option JBool x = map_option JBool y \<longleftrightarrow> x = y"
  by (rule inj_eq [OF option.inj_map]) (auto simp: inj_def)

text \<open>The fields of a stream that follow the optional ones are found by their keys.\<close>

definition optional_fields :: "StreamSpec \<Rightarrow> (string \<times> json) list" where
  "optional_fields s =
     omitempty ''discard_new_per_subject'' JBool (ss_DiscardNewPerSubject s)
     @ [(''discard'', JString (ss_Discard s))]
     @ omitempty ''max_msgs'' (JInt \<circ> sint) (ss_MaxMsgs s)
     @ omitempty ''max_bytes'' (JInt \<circ> sint) (ss_MaxBytes s)
     @ omitempty ''max_msgs_per_subject'' (JInt \<circ> sint) (ss_MaxMsgsPerSubject s)
     @ omitempty ''max_consumers'' (JInt \<circ> sint) (ss_MaxConsumers s)"

lemma optional_fields_lookup:
  "map_of (optional_fields s) ''discard_new_per_subject'' = map_option JBool (ss_DiscardNewPerSubject s)"
  "map_of (optional_fields s) ''discard'' = Some (JString (ss_Discard s))"
  "map_of (optional_fields s) ''max_msgs'' = map_option (JInt \<circ> sint) (ss_MaxMsgs s)"
  "map_of (optional_fields s) ''max_bytes'' = map_option (JInt \<circ> sint) (ss_MaxBytes s)"
  "map_of (optional_fields s) ''max_msgs_per_subject'' = map_option (JInt \<circ> sint) (ss_MaxMsgsPerSubject s)"
  "map_of (optional_fields s) ''max_consumers'' = map_option (JInt \<circ> sint) (ss_MaxConsumers s)"
  by (simp_all add: optional_fields_def image_Un del: map_of_append)

lemma optional_fields_inject:
  assumes "optional_fields a = optional_fields b"
  shows "ss_DiscardNewPerSubject a = ss_DiscardNewPerSubject b \<and> ss_Discard a = ss_Discard b
    \<and> ss_MaxMsgs a = ss_MaxMsgs b \<and> ss_MaxBytes a = ss_MaxBytes b
    \<and> ss_MaxMsgsPerSubject a = ss_MaxMsgsPerSubject b \<and> ss_MaxConsumers a = ss_MaxConsumers b"
  using optional_fields_lookup [of a] unfolding assms unfolding optional_fields_lookup
  by (simp only: map_option_JBool_eq map_option_JInt_sint_eq option.inject json.inject)

lemma json_StreamSpec_inject:
  assumes "json_StreamSpec a = json_StreamSpec b" shows "a = b"
proof -
  have o: "optional_fields a = optional_fields b" and "ss_NamePrefix a = ss_NamePrefix b"
    "ss_Count a = ss_Count b" "ss_Replicas a = ss_Replicas b" "ss_Subjects a = ss_Subjects b"
    "ss_MessagesPerStreamPerSecond a = ss_MessagesPerStreamPerSecond b"
    "ss_Retention a = ss_Retention b" "ss_MaxAge a = ss_MaxAge b" "ss_Storage a = ss_Storage b"
    using assms unfolding json_StreamSpec_def optional_fields_def [symmetric]
    by (simp_all add: word_eq_sint_iff inj_map_eq_map inj_def)
  with optional_fields_inject [OF o] show "a = b" by (intro StreamSpec.equality) simp_all
qed

lemma json_PublisherSpec_inject: "json_PublisherSpec a = json_PublisherSpec b \<Longrightarrow> a = b"
  by (simp add: json_PublisherSpec_def word_eq_sint_iff)

lemma json_ConsumerSpec_inject: "json_ConsumerSpec a = json_ConsumerSpec b \<Longrightarrow> a = b"
  by (simp add: json_ConsumerSpec_def word_eq_sint_iff)

lemma map_json_StreamSpec_inject: "map json_StreamSpec a = map json_StreamSpec b \<Longrightarrow> a = b"
  by (rule map_injective) (auto simp: inj_def intro: json_StreamSpec_inject)

lemma json_LoadTestSpec_inject: "json_LoadTestSpec a = json_LoadTestSpec b \<longleftrightarrow> a = b"
proof
  assume "json_LoadTestSpec a = json_LoadTestSpec b"
  then have eq: "lts_Name a = lts_Name b" "lts_NATSURL a = lts_NATSURL b"
    "lts_NATSCredsFile a = lts_NATSCredsFile b" "lts_UseJetStream a = lts_UseJetStream b"
    "lts_ClientIDPrefix a = lts_ClientIDPrefix b"
    "map json_StreamSpec (lts_Streams a) = map json_StreamSpec (lts_Streams b)"
    "json_PublisherSpec (lts_Publishers a) = json_PublisherSpec (lts_Publishers b)"
    "json_ConsumerSpec (lts_Consumers a) = json_ConsumerSpec (lts_Consumers b)"
    "lts_Behavior a = lts_Behavior b" "lts_LogLimits a = lts_LogLimits b"
    by (simp_all add: json_LoadTestSpec_def word_eq_sint_iff)
  show "a = b"
    by (rule LoadTestSpec.equality)
      (use eq in \<open>auto intro: map_json_StreamSpec_inject json_PublisherSpec_inject json_ConsumerSpec_inject\<close>)
qed simp

end
