(* ===== verification/Stats_Types.thy ===== *)
theory Stats_Types
  imports Config_Hash
begin

text \<open>
  The statistics of a collection (\<open>Stats\<close>, \<open>RampUpStats\<close>, \<open>LatencyStats\<close> of
  \<open>internal/stats/collector.go\<close>, \<open>StatsEntry\<close> of \<open>storage.go\<close>, \<open>persistedEntry\<close> of
  \<open>file_storage.go\<close>) and what \<open>encoding/json\<close> makes of them.  An error value is its text and
  the tree it marshals to (\<open>{}\<close> for the errors of package \<open>errors\<close> and \<open>fmt\<close>); a nil error
  in the slice is \<open>None\<close>.  Decoding follows the struct's fields by their names.
\<close>

section \<open>Structs\<close>

datatype go_error = GoError (err_text: string) (err_tree: json)

definition plain_error :: "string \<Rightarrow> go_error" where
  "plain_error msg = GoError msg (JObject [])"

record RampUpStats =
  ru_IsActive :: bool
  ru_Progress :: float64
  ru_TimeRemaining :: string

record LatencyStats =
  la_Min :: Duration
  la_Max :: Duration
  la_Mean :: Duration
  la_P99 :: Duration
  la_Count :: go_int

record Stats =
  st_Timestamp :: Time
  st_Published :: uint64
  st_Consumed :: uint64
  st_PublishRate :: float64
  st_ConsumeRate :: float64
  st_PublishErrors :: uint64
  st_ConsumeErrors :: uint64
  st_PendingMessages :: int64
  st_Latency :: LatencyStats
  st_Errors :: "go_error option list"
  st_RampUp :: RampUpStats

record StatsEntry =
  se_ConfigHash :: string
  se_Timestamp :: Time
  se_Stats :: Stats

record persistedEntry =
  pe_Type :: string
  pe_ConfigHash :: string
  pe_Timestamp :: Time
  pe_Stats :: Stats

definition zero_LatencyStats :: LatencyStats where
  "zero_LatencyStats = \<lparr>la_Min = 0, la_Max = 0, la_Mean = 0, la_P99 = 0, la_Count = 0\<rparr>"

definition zero_RampUpStats :: RampUpStats where
  "zero_RampUpStats = \<lparr>ru_IsActive = False, ru_Progress = Fin 0, ru_TimeRemaining = []\<rparr>"

definition zero_Stats :: Stats where
  "zero_Stats = \<lparr>st_Timestamp = 0, st_Published = 0, st_Consumed = 0, st_PublishRate = Fin 0,
     st_ConsumeRate = Fin 0, st_PublishErrors = 0, st_ConsumeErrors = 0, st_PendingMessages = 0,
     st_Latency = zero_LatencyStats, st_Errors = [], st_RampUp = zero_RampUpStats\<rparr>"

section \<open>Marshalling\<close>

text \<open>Marshalling fails when a float is not finite.\<close>

fun finite_float :: "float64 \<Rightarrow> bool" where
  "finite_float (Fin r) = True" | "finite_float _ = False"

definition json_LatencyStats :: "LatencyStats \<Rightarrow> json" where
  "json_LatencyStats l = JObject
     [(''Min'', JInt (sint (la_Min l))), (''Max'', JInt (sint (la_Max l))),
      (''Mean'', JInt (sint (la_Mean l))), (''P99'', JInt (sint (la_P99 l))),
      (''Count'', JInt (sint (la_Count l)))]"

definition json_RampUpStats :: "RampUpStats \<Rightarrow> json" where
  "json_RampUpStats r = JObject
     [(''is_active'', JBool (ru_IsActive r)), (''progress'', JFloat (ru_Progress r)),
      (''time_remaining'', JString (ru_TimeRemaining r))]"

definition json_error :: "go_error option \<Rightarrow> json" where
  "json_error e = (case e of None \<Rightarrow> JNull | Some x \<Rightarrow> err_tree x)"

definition json_Stats :: "Stats \<Rightarrow> json" where
  "json_Stats s = JObject
     [(''Timestamp'', JTime (st_Timestamp s)),
      (''Published'', JInt (uint (st_Published s))),
      (''Consumed'', JInt (uint (st_Consumed s))),
      (''PublishRate'', JFloat (st_PublishRate s)),
      (''ConsumeRate'', JFloat (st_ConsumeRate s)),
      (''PublishErrors'', JInt (uint (st_PublishErrors s))),
      (''ConsumeErrors'', JInt (uint (st_ConsumeErrors s))),
      (''PendingMessages'', JInt (sint (st_PendingMessages s))),
      (''Latency'', json_LatencyStats (st_Latency s)),
      (''Errors'', JArray (map json_error (st_Errors s))),
      (''RampUp'', json_RampUpStats (st_RampUp s))]"

definition marshalable :: "Stats \<Rightarrow> bool" where
  "marshalable s \<longleftrightarrow> finite_float (st_PublishRate s) \<and> finite_float (st_ConsumeRate s)
     \<and> finite_float (ru_Progress (st_RampUp s))"

definition Marshal_Stats :: "Stats \<Rightarrow> json option" where
  "Marshal_Stats s = (if marshalable s then Some (json_Stats s) else None)"

definition Marshal_persistedEntry :: "persistedEntry \<Rightarrow> json option" where
  "Marshal_persistedEntry e =
     (if marshalable (pe_Stats e)
      then Some (JObject
        [(''type'', JString (pe_Type e)),
         (''config_hash'', JString (pe_ConfigHash e)),
         (''timestamp'', JTime (pe_Timestamp e)),
         (''stats'', json_Stats (pe_Stats e))])
      else None)"

section \<open>Unmarshalling\<close>

text \<open>
  A missing field and a \<open>null\<close> keep the zero value, a value of another kind is an error.  A
  non-null element cannot be stored in a slice of \<open>error\<close> interfaces and is an error.
\<close>

fun dec_string :: "json \<Rightarrow> string option" where
  "dec_string (JString s) = Some s" | "dec_string JNull = Some []" | "dec_string _ = None"

fun dec_bool :: "json \<Rightarrow> bool option" where
  "dec_bool (JBool b) = Some b" | "dec_bool JNull = Some False" | "dec_bool _ = None"

fun dec_time :: "json \<Rightarrow> Time option" where
  "dec_time (JTime t) = Some t" | "dec_time JNull = Some 0" | "dec_time _ = None"

fun dec_float :: "json \<Rightarrow> float64 option" where
  "dec_float (JNum r) = (if finite_float (fl r) then Some (fl r) else None)"
| "dec_float JNull = Some (Fin 0)"
| "dec_float _ = None"

fun dec_int64 :: "json \<Rightarrow> int64 option" where
  "dec_int64 (JNum r) =
     (if of_int \<lfloor>r\<rfloor> = r \<and> - 9223372036854775808 \<le> \<lfloor>r\<rfloor> \<and> \<lfloor>r\<rfloor> < 9223372036854775808
      then Some (word_of_int \<lfloor>r\<rfloor>) else None)"
| "dec_int64 JNull = Some 0"
| "dec_int64 _ = None"

fun dec_uint64 :: "json \<Rightarrow> uint64 option" where
  "dec_uint64 (JNum r) =
     (if of_int \<lfloor>r\<rfloor> = r \<and> 0 \<le> \<lfloor>r\<rfloor> \<and> \<lfloor>r\<rfloor> < 18446744073709551616
      then Some (word_of_int \<lfloor>r\<rfloor>) else None)"
| "dec_uint64 JNull = Some 0"
| "dec_uint64 _ = None"

fun dec_errors :: "json \<Rightarrow> go_error option list option" where
  "dec_errors (JArray xs) = (if list_all (\<lambda>x. x = JNull) xs then Some (map (\<lambda>_. None) xs) else None)"
| "dec_errors JNull = Some []"
| "dec_errors _ = None"

text \<open>A field of an object: the last value under the key, or the zero value.\<close>

definition dec_field :: "(json \<Rightarrow> 'a option) \<Rightarrow> (string \<times> json) list \<Rightarrow> string \<Rightarrow> 'a option" where
  "dec_field dec kvs k = dec (case map_of (rev kvs) k of None \<Rightarrow> JNull | Some v \<Rightarrow> v)"

fun dec_object :: "((string \<times> json) list \<Rightarrow> 'a option) \<Rightarrow> json \<Rightarrow> 'a option" where
  "dec_object f (JObject kvs) = f kvs"
| "dec_object f JNull = f []"
| "dec_object f _ = None"

definition dec_LatencyStats :: "json \<Rightarrow> LatencyStats option" where
  "dec_LatencyStats = dec_object (\<lambda>kvs.
     Option.bind (dec_field dec_int64 kvs ''Min'') (\<lambda>mn.
     Option.bind (dec_field dec_int64 kvs ''Max'') (\<lambda>mx.
     Option.bind (dec_field dec_int64 kvs ''Mean'') (\<lambda>me.
     Option.bind (dec_field dec_int64 kvs ''P99'') (\<lambda>p.
     Option.bind (dec_field dec_int64 kvs ''Count'') (\<lambda>c.
     Some \<lparr>la_Min = mn, la_Max = mx, la_Mean = me, la_P99 = p, la_Count = c\<rparr>))))))"

definition dec_RampUpStats :: "json \<Rightarrow> RampUpStats option" where
  "dec_RampUpStats = dec_object (\<lambda>kvs.
     Option.bind (dec_field dec_bool kvs ''is_active'') (\<lambda>a.
     Option.bind (dec_field dec_float kvs ''progress'') (\<lambda>p.
     Option.bind (dec_field dec_string kvs ''time_remaining'') (\<lambda>t.
     Some \<lparr>ru_IsActive = a, ru_Progress = p, ru_TimeRemaining = t\<rparr>))))"

definition Unmarshal_Stats :: "json \<Rightarrow> Stats option" where
  "Unmarshal_Stats = dec_object (\<lambda>kvs.
     Option.bind (dec_field dec_time kvs ''Timestamp'') (\<lambda>ts.
     Option.bind (dec_field dec_uint64 kvs ''Published'') (\<lambda>p.
     Option.bind (dec_field dec_uint64 kvs ''Consumed'') (\<lambda>c.
     Option.bind (dec_field dec_float kvs ''PublishRate'') (\<lambda>pr.
     Option.bind (dec_field dec_float kvs ''ConsumeRate'') (\<lambda>cr.
     Option.bind (dec_field dec_uint64 kvs ''PublishErrors'') (\<lambda>pe.
     Option.bind (dec_field dec_uint64 kvs ''ConsumeErrors'') (\<lambda>ce.
     Option.bind (dec_field dec_int64 kvs ''PendingMessages'') (\<lambda>pm.
     Option.bind (dec_field dec_LatencyStats kvs ''Latency'') (\<lambda>la.
     Option.bind (dec_field dec_errors kvs ''Errors'') (\<lambda>es.
     Option.bind (dec_field dec_RampUpStats kvs ''RampUp'') (\<lambda>ru.
     Some \<lparr>st_Timestamp = ts, st_Published = p, st_Consumed = c, st_PublishRate = pr,
       st_ConsumeRate = cr, st_PublishErrors = pe, st_ConsumeErrors = ce,
       st_PendingMessages = pm, st_Latency = la, st_Errors = es, st_RampUp = ru\<rparr>))))))))))))"

definition Unmarshal_persistedEntry :: "json \<Rightarrow> persistedEntry option" where
  "Unmarshal_persistedEntry = dec_object (\<lambda>kvs.
     Option.bind (dec_field dec_string kvs ''type'') (\<lambda>ty.
     Option.bind (dec_field dec_string kvs ''config_hash'') (\<lambda>h.
     Option.bind (dec_field dec_time kvs ''timestamp'') (\<lambda>t.
     Option.bind (dec_field Unmarshal_Stats kvs ''stats'') (\<lambda>s.
     Some \<lparr>pe_Type = ty, pe_ConfigHash = h, pe_Timestamp = t, pe_Stats = s\<rparr>)))))"

section \<open>Round trips\<close>

text \<open>A float that rounding leaves alone; every result of an operation is one.\<close>

definition is_float :: "float64 \<Rightarrow> bool" where
  "is_float x \<longleftrightarrow> (case x of Fin r \<Rightarrow> fl r = Fin r | _ \<Rightarrow> True)"

definition stats_floats :: "Stats \<Rightarrow> bool" where
  "stats_floats s \<longleftrightarrow> is_float (st_PublishRate s) \<and> is_float (st_ConsumeRate s)
     \<and> is_float (ru_Progress (st_RampUp s))"

text \<open>The errors of a collection come back only when each marshals to \<open>null\<close>.\<close>

definition errors_lost :: "Stats \<Rightarrow> bool" where
  "errors_lost s \<longleftrightarrow> (\<exists>e \<in> set (st_Errors s). json_error e \<noteq> JNull)"

lemma dec_int64_JInt [simp]: "dec_int64 (JInt (sint x)) = Some x"
  by (simp add: JInt_def)

lemma dec_uint64_JInt [simp]: "dec_uint64 (JInt (uint (x :: uint64))) = Some x"
  using uint_lt2p [of x] by (simp add: JInt_def)

lemma dec_float_JFloat [simp]:
  "finite_float x \<Longrightarrow> is_float x \<Longrightarrow> dec_float (JFloat x) = Some x"
  by (cases x) (auto simp: is_float_def)

lemma dec_field_Cons [simp]:
  "dec_field dec (kvs @ [(k, v)]) k' = (if k = k' then dec v else dec_field dec kvs k')"
  by (simp add: dec_field_def)

lemma dec_LatencyStats_json [simp]: "dec_LatencyStats (json_LatencyStats l) = Some l"
  by (simp add: dec_LatencyStats_def json_LatencyStats_def dec_field_def)

lemma dec_RampUpStats_json [simp]:
  "finite_float (ru_Progress r) \<Longrightarrow> is_float (ru_Progress r) \<Longrightarrow>
   dec_RampUpStats (json_RampUpStats r) = Some r"
  by (simp add: dec_RampUpStats_def json_RampUpStats_def dec_field_def)

lemma dec_errors_json:
  "dec_errors (JArray (map json_error es)) =
     (if \<exists>e \<in> set es. json_error e \<noteq> JNull then None else Some (map (\<lambda>_. None) es))"
  by (auto simp: list_all_iff)

lemma Unmarshal_json_Stats:
  assumes "marshalable s" and "stats_floats s"
  shows "Unmarshal_Stats (json_Stats s) =
    (if errors_lost s then None else Some (s\<lparr>st_Errors := map (\<lambda>_. None) (st_Errors s)\<rparr>))"
proof -
  have "finite_float (st_PublishRate s)" "finite_float (st_ConsumeRate s)"
    "finite_float (ru_Progress (st_RampUp s))" "is_float (st_PublishRate s)"
    "is_float (st_ConsumeRate s)" "is_float (ru_Progress (st_RampUp s))"
    using assms by (simp_all add: marshalable_def stats_floats_def)
  then show ?thesis
    by (simp add: Unmarshal_Stats_def json_Stats_def dec_field_def dec_errors_json errors_lost_def
        del: dec_errors.simps)
qed

lemma Unmarshal_Marshal_persistedEntry:
  assumes "marshalable (pe_Stats e)" and "stats_floats (pe_Stats e)"
  shows "Option.bind (Marshal_persistedEntry e) Unmarshal_persistedEntry =
    (if errors_lost (pe_Stats e) then None
     else Some (e\<lparr>pe_Stats := (pe_Stats e)\<lparr>st_Errors := map (\<lambda>_. None) (st_Errors (pe_Stats e))\<rparr>\<rparr>))"
  using Unmarshal_json_Stats [OF assms] assms
  by (simp add: Marshal_persistedEntry_def Unmarshal_persistedEntry_def dec_field_def)

end
