(* ===== verification/Config_Json.thy ===== *)
theory Config_Json
  imports Stats_Types
begin

text \<open>
  Decoding a configuration from JSON, as \<open>encoding/json\<close> does for the structs of
  \<open>internal/config/config.go\<close> (the tags on their fields), and the round trip with the
  encoding.  Keys are taken as they are spelled in the tags, each at most once in an object;
  unknown keys are ignored, a missing field keeps its zero value.
\<close>

section \<open>Decoders\<close>

fun dec_int32 :: "json \<Rightarrow> int32 option" where
  "dec_int32 (JNum r) =
     (if of_int \<lfloor>r\<rfloor> = r \<and> - 2147483648 \<le> \<lfloor>r\<rfloor> \<and> \<lfloor>r\<rfloor> < 2147483648
      then Some (word_of_int \<lfloor>r\<rfloor>) else None)"
| "dec_int32 JNull = Some 0"
| "dec_int32 _ = None"

fun dec_list :: "(json \<Rightarrow> 'a option) \<Rightarrow> json \<Rightarrow> 'a list option" where
  "dec_list dec (JArray xs) = those (map dec xs)"
| "dec_list dec JNull = Some []"
| "dec_list dec _ = None"

text \<open>A pointer: \<open>null\<close> and a missing field are nil.\<close>

definition dec_pointer :: "(json \<Rightarrow> 'a option) \<Rightarrow> json \<Rightarrow> 'a option option" where
  "dec_pointer dec j = (if j = JNull then Some None else map_option Some (dec j))"

definition dec_StreamSpec :: "json \<Rightarrow> StreamSpec option" where
  "dec_StreamSpec = dec_object (\<lambda>kvs.
     Option.bind (dec_field dec_string kvs ''name_prefix'') (\<lambda>np.
     Option.bind (dec_field dec_int32 kvs ''count'') (\<lambda>c.
     Option.bind (dec_field dec_int32 kvs ''replicas'') (\<lambda>r.
     Option.bind (dec_field (dec_list dec_string) kvs ''subjects'') (\<lambda>subj.
     Option.bind (dec_field dec_int64 kvs ''messages_per_stream_per_second'') (\<lambda>mps.
     Option.bind (dec_field dec_string kvs ''retention'') (\<lambda>ret.
     Option.bind (dec_field dec_string kvs ''max_age'') (\<lambda>age.
     Option.bind (dec_field dec_string kvs ''storage'') (\<lambda>sto.
     Option.bind (dec_field (dec_pointer dec_bool) kvs ''discard_new_per_subject'') (\<lambda>dn.
     Option.bind (dec_field dec_string kvs ''discard'') (\<lambda>dis.
     Option.bind (dec_field (dec_pointer dec_int64) kvs ''max_msgs'') (\<lambda>mm.
     Option.bind (dec_field (dec_pointer dec_int64) kvs ''max_bytes'') (\<lambda>mb.
     Option.bind (dec_field (dec_pointer dec_int64) kvs ''max_msgs_per_subject'') (\<lambda>mps'.
     Option.bind (dec_field (dec_pointer dec_int64) kvs ''max_consumers'') (\<lambda>mc.
     Some \<lparr>ss_NamePrefix = np, ss_Count = c, ss_Replicas = r, ss_Subjects = subj,
       ss_MessagesPerStreamPerSecond = mps, ss_Retention = ret, ss_MaxAge = age, ss_Storage = sto,
       ss_DiscardNewPerSubject = dn, ss_Discard = dis, ss_MaxMsgs = mm, ss_MaxBytes = mb,
       ss_MaxMsgsPerSubject = mps', ss_MaxConsumers = mc\<rparr>)))))))))))))))"

definition dec_PublisherSpec :: "json \<Rightarrow> PublisherSpec option" where
  "dec_PublisherSpec = dec_object (\<lambda>kvs.
     Option.bind (dec_field dec_int32 kvs ''count_per_stream'') (\<lambda>c.
     Option.bind (dec_field dec_string kvs ''stream_name_prefix'') (\<lambda>p.
     Option.bind (dec_field dec_int32 kvs ''publish_rate_per_second'') (\<lambda>r.
     Option.bind (dec_field dec_string kvs ''publish_pattern'') (\<lambda>pat.
     Option.bind (dec_field dec_int32 kvs ''publish_burst_size'') (\<lambda>b.
     Option.bind (dec_field dec_int32 kvs ''message_size_bytes'') (\<lambda>m.
     Option.bind (dec_field dec_bool kvs ''track_latency'') (\<lambda>t.
     Some \<lparr>ps_CountPerStream = c, ps_StreamNamePrefix = p, ps_PublishRatePerSecond = r,
       ps_PublishPattern = pat, ps_PublishBurstSize = b, ps_MessageSizeBytes = m,
       ps_TrackLatency = t\<rparr>))))))))"

definition dec_ConsumerSpec :: "json \<Rightarrow> ConsumerSpec option" where
  "dec_ConsumerSpec = dec_object (\<lambda>kvs.
     Option.bind (dec_field dec_string kvs ''stream_name_prefix'') (\<lambda>p.
     Option.bind (dec_field dec_string kvs ''type'') (\<lambda>ty.
     Option.bind (dec_field dec_int32 kvs ''count_per_stream'') (\<lambda>c.
     Option.bind (dec_field dec_string kvs ''durable_name_prefix'') (\<lambda>d.
     Option.bind (dec_field dec_int64 kvs ''ack_wait_seconds'') (\<lambda>a.
     Option.bind (dec_field dec_int32 kvs ''max_ack_pending'') (\<lambda>m.
     Option.bind (dec_field dec_int64 kvs ''consume_delay_ms'') (\<lambda>del.
     Option.bind (dec_field dec_string kvs ''ack_policy'') (\<lambda>pol.
     Some \<lparr>cs_StreamNamePrefix = p, cs_Type = ty, cs_CountPerStream = c, cs_DurableNamePrefix = d,
       cs_AckWaitSeconds = a, cs_MaxAckPending = m, cs_ConsumeDelayMs = del, cs_AckPolicy = pol\<rparr>)))))))))"

definition dec_BehaviorConfig :: "json \<Rightarrow> BehaviorConfig option" where
  "dec_BehaviorConfig = dec_object (\<lambda>kvs.
     Option.bind (dec_field dec_int64 kvs ''duration_seconds'') (\<lambda>d.
     Option.bind (dec_field dec_int64 kvs ''ramp_up_seconds'') (\<lambda>r.
     Some \<lparr>bc_DurationSeconds = d, bc_RampUpSeconds = r\<rparr>)))"

definition dec_LogLimits :: "json \<Rightarrow> LogLimits option" where
  "dec_LogLimits = dec_object (\<lambda>kvs.
     Option.bind (dec_field dec_int32 kvs ''max_lines'') (\<lambda>l.
     Option.bind (dec_field dec_int64 kvs ''max_bytes'') (\<lambda>b.
     Some \<lparr>ll_MaxLines = l, ll_MaxBytes = b\<rparr>)))"

definition dec_LoadTestSpec :: "json \<Rightarrow> LoadTestSpec option" where
  "dec_LoadTestSpec = dec_object (\<lambda>kvs.
     Option.bind (dec_field dec_string kvs ''name'') (\<lambda>n.
     Option.bind (dec_field dec_string kvs ''nats_url'') (\<lambda>u.
     Option.bind (dec_field dec_string kvs ''nats_creds_file'') (\<lambda>cr.
     Option.bind (dec_field dec_bool kvs ''use_jetstream'') (\<lambda>js.
     Option.bind (dec_field dec_string kvs ''client_id_prefix'') (\<lambda>cl.
     Option.bind (dec_field (dec_list dec_StreamSpec) kvs ''streams'') (\<lambda>ss.
     Option.bind (dec_field dec_PublisherSpec kvs ''publishers'') (\<lambda>p.
     Option.bind (dec_field dec_ConsumerSpec kvs ''consumers'') (\<lambda>c.
     Option.bind (dec_field dec_BehaviorConfig kvs ''behavior'') (\<lambda>b.
     Option.bind (dec_field dec_LogLimits kvs ''log_limits'') (\<lambda>l.
     Some \<lparr>lts_Name = n, lts_NATSURL = u, lts_NATSCredsFile = cr, lts_UseJetStream = js,
       lts_ClientIDPrefix = cl, lts_Streams = ss, lts_Publishers = p, lts_Consumers = c,
       lts_Behavior = b, lts_LogLimits = l\<rparr>)))))))))))"

definition dec_StreamMultipliers :: "json \<Rightarrow> StreamMultipliers option" where
  "dec_StreamMultipliers = dec_object (\<lambda>kvs.
     Option.bind (dec_field dec_float kvs ''count_multiplier'') (\<lambda>c.
     Option.bind (dec_field dec_float kvs ''replicas_multiplier'') (\<lambda>r.
     Option.bind (dec_field dec_float kvs ''messages_per_stream_per_second_multiplier'') (\<lambda>m.
     Some \<lparr>sm_Count = c, sm_Replicas = r, sm_MessagesPerStreamPerSecond = m\<rparr>))))"

definition dec_BehaviorMultipliers :: "json \<Rightarrow> BehaviorMultipliers option" where
  "dec_BehaviorMultipliers = dec_object (\<lambda>kvs.
     Option.bind (dec_field dec_float kvs ''duration_multiplier'') (\<lambda>d.
     Option.bind (dec_field dec_float kvs ''ramp_up_multiplier'') (\<lambda>r.
     Some \<lparr>bm_Duration = d, bm_RampUp = r\<rparr>)))"

definition dec_ConsumerMultipliers :: "json \<Rightarrow> ConsumerMultipliers option" where
  "dec_ConsumerMultipliers = dec_object (\<lambda>kvs.
     Option.bind (dec_field dec_float kvs ''ack_wait_multiplier'') (\<lambda>a.
     Option.bind (dec_field dec_float kvs ''max_ack_pending_multiplier'') (\<lambda>m.
     Option.bind (dec_field dec_float kvs ''consume_delay_multiplier'') (\<lambda>d.
     Option.bind (dec_field dec_float kvs ''count_per_stream_multiplier'') (\<lambda>c.
     Some \<lparr>cm_AckWait = a, cm_MaxAckPending = m, cm_ConsumeDelay = d, cm_CountPerStream = c\<rparr>)))))"

definition dec_PublisherMultipliers :: "json \<Rightarrow> PublisherMultipliers option" where
  "dec_PublisherMultipliers = dec_object (\<lambda>kvs.
     Option.bind (dec_field dec_float kvs ''count_per_stream_multiplier'') (\<lambda>c.
     Option.bind (dec_field dec_float kvs ''publish_rate_multiplier'') (\<lambda>r.
     Option.bind (dec_field dec_float kvs ''message_size_bytes_multiplier'') (\<lambda>m.
     Some \<lparr>pm_CountPerStream = c, pm_PublishRate = r, pm_MessageSizeBytes = m\<rparr>))))"

definition dec_RepeatPolicy :: "json \<Rightarrow> RepeatPolicy option" where
  "dec_RepeatPolicy = dec_object (\<lambda>kvs.
     Option.bind (dec_field dec_bool kvs ''enabled'') (\<lambda>e.
     Option.bind (dec_field dec_StreamMultipliers kvs ''streams'') (\<lambda>s.
     Option.bind (dec_field dec_BehaviorMultipliers kvs ''behavior'') (\<lambda>b.
     Option.bind (dec_field dec_ConsumerMultipliers kvs ''consumers'') (\<lambda>c.
     Option.bind (dec_field dec_PublisherMultipliers kvs ''publishers'') (\<lambda>p.
     Some \<lparr>rp_Enabled = e, rp_Streams = s, rp_Behavior = b, rp_Consumers = c, rp_Publishers = p\<rparr>))))))"

definition dec_StorageConfig :: "json \<Rightarrow> StorageConfig option" where
  "dec_StorageConfig = dec_object (\<lambda>kvs.
     Option.bind (dec_field dec_string kvs ''type'') (\<lambda>t.
     Option.bind (dec_field dec_string kvs ''path'') (\<lambda>p.
     Some \<lparr>sc_Type = t, sc_Path = p\<rparr>)))"

definition dec_Config :: "json \<Rightarrow> Config option" where
  "dec_Config = dec_object (\<lambda>kvs.
     Option.bind (dec_field (dec_list (dec_pointer dec_LoadTestSpec)) kvs ''load_test_specs'') (\<lambda>ls.
     Option.bind (dec_field dec_RepeatPolicy kvs ''repeat_policy'') (\<lambda>rp.
     Option.bind (dec_field dec_StorageConfig kvs ''storage'') (\<lambda>st.
     Option.bind (dec_field dec_int64 kvs ''stats_collection_interval_seconds'') (\<lambda>i.
     Some \<lparr>cfg_LoadTestSpecs = ls, cfg_RepeatPolicy = rp, cfg_Storage = st,
       cfg_StatsCollectionIntervalSeconds = i\<rparr>)))))"

section \<open>Round trip\<close>

text \<open>The structs whose fields all have a value are decoded by evaluation.\<close>

lemma dec_int32_JInt [simp]: "dec_int32 (JInt (sint x)) = Some x"
  by (simp add: JInt_def)

lemma those_map_Some: "(\<And>x. x \<in> set xs \<Longrightarrow> dec (enc x) = Some x) \<Longrightarrow> those (map dec (map enc xs)) = Some xs"
  by (induction xs) auto

lemma dec_strings [simp]: "dec_list dec_string (JArray (map JString xs)) = Some xs"
  using those_map_Some [of xs dec_string JString] by simp

lemma JInt_not_Null [simp]: "JInt i \<noteq> JNull"
  by (simp add: JInt_def)

lemma dec_pointer_Null [simp]: "dec_pointer dec JNull = Some None"
  by (simp add: dec_pointer_def)

lemma dec_pointer_value: "j \<noteq> JNull \<Longrightarrow> dec j = Some x \<Longrightarrow> dec_pointer dec j = Some (Some x)"
  by (simp add: dec_pointer_def)

lemma dec_PublisherSpec_json [simp]: "dec_PublisherSpec (json_PublisherSpec p) = Some p"
  by (simp add: dec_PublisherSpec_def json_PublisherSpec_def dec_field_def)

lemma dec_ConsumerSpec_json [simp]: "dec_ConsumerSpec (json_ConsumerSpec c) = Some c"
  by (simp add: dec_ConsumerSpec_def json_ConsumerSpec_def dec_field_def)

text \<open>The fields of a stream, some of which may be left out, are found by their keys.\<close>

lemma map_of_rev_distinct: "distinct (map fst xs) \<Longrightarrow> map_of (rev xs) = map_of xs"
proof (induction xs)
  case (Cons x xs)
  then have "map_of xs (fst x) = None" by (simp add: map_of_eq_None_iff)
  with Cons show ?case by (auto simp: fun_eq_iff map_add_def split: option.split)
qed simp

lemma dec_field_distinct:
  "distinct (map fst kvs) \<Longrightarrow> map_of kvs k = Some v \<Longrightarrow> dec_field dec kvs k = dec v"
  by (simp add: dec_field_def map_of_rev_distinct)

lemma dec_field_pointer:
  assumes "distinct (map fst kvs)" and "map_of kvs k = map_option f x"
    and "\<And>y. f y \<noteq> JNull" and "\<And>y. dec (f y) = Some y"
  shows "dec_field (dec_pointer dec) kvs k = Some x"
  using assms by (auto simp: dec_field_def map_of_rev_distinct dec_pointer_value split: option.splits)

definition required_fields :: "StreamSpec \<Rightarrow> (string \<times> json) list" where
  "required_fields s =
     [(''name_prefix'', JString (ss_NamePrefix s)),
      (''count'', JInt (sint (ss_Count s))),
      (''replicas'', JInt (sint (ss_Replicas s))),
      (''subjects'', JArray (map JString (ss_Subjects s))),
      (''messages_per_stream_per_second'', JInt (sint (ss_MessagesPerStreamPerSecond s))),
      (''retention'', JString (ss_Retention s)),
      (''max_age'', JString (ss_MaxAge s)),
      (''storage'', JString (ss_Storage s))]"

definition stream_fields :: "StreamSpec \<Rightarrow> (string \<times> json) list" where
  "stream_fields s = required_fields s @ optional_fields s"

lemma json_StreamSpec_fields: "json_StreamSpec s = JObject (stream_fields s)"
  by (simp add: json_StreamSpec_def stream_fields_def required_fields_def optional_fields_def)

lemma required_keys: "map fst (required_fields s) = [''name_prefix'', ''count'', ''replicas'', ''subjects'',
    ''messages_per_stream_per_second'', ''retention'', ''max_age'', ''storage'']"
  by (simp add: required_fields_def)

lemma distinct_required: "distinct (map fst (required_fields s))"
  by (simp add: required_keys)

lemma distinct_omitempty_append [simp]:
  "distinct (map fst (omitempty k f x @ ys)) \<longleftrightarrow> distinct (map fst ys) \<and> (x \<noteq> None \<longrightarrow> k \<notin> fst ` set ys)"
  "distinct (map fst (omitempty k f x))"
  by (auto simp: omitempty_def split: option.splits)

lemma distinct_optional: "distinct (map fst (optional_fields s))"
  by (simp add: optional_fields_def image_Un del: map_append distinct_append)

lemma optional_keys: "fst ` set (optional_fields s) \<subseteq> set [''discard_new_per_subject'', ''discard'', ''max_msgs'',
    ''max_bytes'', ''max_msgs_per_subject'', ''max_consumers'']"
  by (simp add: optional_fields_def image_Un)

lemma keys_disjoint: "fst ` set (required_fields s) \<inter> fst ` set (optional_fields s) = {}"
proof -
  have "fst ` set (required_fields s) = set (map fst (required_fields s))" by simp
  then have "fst ` set (required_fields s) = set [''name_prefix'', ''count'', ''replicas'', ''subjects'',
    ''messages_per_stream_per_second'', ''retention'', ''max_age'', ''storage'']"
    by (simp only: required_keys)
  with optional_keys [of s] show ?thesis by auto
qed

lemma distinct_stream_fields: "distinct (map fst (stream_fields s))"
  using distinct_required distinct_optional keys_disjoint by (simp add: stream_fields_def)

lemma required_lookup:
  "map_of (stream_fields s) ''name_prefix'' = Some (JString (ss_NamePrefix s))"
  "map_of (stream_fields s) ''count'' = Some (JInt (sint (ss_Count s)))"
  "map_of (stream_fields s) ''replicas'' = Some (JInt (sint (ss_Replicas s)))"
  "map_of (stream_fields s) ''subjects'' = Some (JArray (map JString (ss_Subjects s)))"
  "map_of (stream_fields s) ''messages_per_stream_per_second'' = Some (JInt (sint (ss_MessagesPerStreamPerSecond s)))"
  "map_of (stream_fields s) ''retention'' = Some (JString (ss_Retention s))"
  "map_of (stream_fields s) ''max_age'' = Some (JString (ss_MaxAge s))"
  "map_of (stream_fields s) ''storage'' = Some (JString (ss_Storage s))"
  by (simp_all add: stream_fields_def required_fields_def)

lemma optional_lookup:
  "k \<notin> set (map fst (required_fields s)) \<Longrightarrow> map_of (stream_fields s) k = map_of (optional_fields s) k"
  by (simp add: stream_fields_def map_add_def map_of_eq_None_iff [THEN iffD2] split: option.split)

lemma stream_optional_lookup:
  "map_of (stream_fields s) ''discard_new_per_subject'' = map_option JBool (ss_DiscardNewPerSubject s)"
  "map_of (stream_fields s) ''discard'' = Some (JString (ss_Discard s))"
  "map_of (stream_fields s) ''max_msgs'' = map_option (JInt \<circ> sint) (ss_MaxMsgs s)"
  "map_of (stream_fields s) ''max_bytes'' = map_option (JInt \<circ> sint) (ss_MaxBytes s)"
  "map_of (stream_fields s) ''max_msgs_per_subject'' = map_option (JInt \<circ> sint) (ss_MaxMsgsPerSubject s)"
  "map_of (stream_fields s) ''max_consumers'' = map_option (JInt \<circ> sint) (ss_MaxConsumers s)"
  by (subst optional_lookup, simp only: required_keys, simp, rule optional_fields_lookup)+

lemmas stream_field_values =
  required_lookup [THEN dec_field_distinct [OF distinct_stream_fields]]
  stream_optional_lookup(2) [THEN dec_field_distinct [OF distinct_stream_fields]]
  stream_optional_lookup(1) [THEN dec_field_pointer [OF distinct_stream_fields]]
  stream_optional_lookup(3-6) [THEN dec_field_pointer [OF distinct_stream_fields]]

lemma dec_StreamSpec_json [simp]: "dec_StreamSpec (json_StreamSpec s) = Some s"
  by (simp add: dec_StreamSpec_def json_StreamSpec_fields stream_field_values
      del: dec_list.simps)

lemma json_objects_not_Null [simp]:
  "json_StreamSpec s \<noteq> JNull" "json_LoadTestSpec l \<noteq> JNull"
  by (simp_all add: json_StreamSpec_fields json_LoadTestSpec_def)

lemma dec_streams [simp]: "dec_list dec_StreamSpec (JArray (map json_StreamSpec ss)) = Some ss"
  using those_map_Some [of ss dec_StreamSpec json_StreamSpec] by simp

lemma dec_BehaviorConfig_json:
  "dec_BehaviorConfig (JObject [(''duration_seconds'', JInt (sint (bc_DurationSeconds b))),
     (''ramp_up_seconds'', JInt (sint (bc_RampUpSeconds b)))]) = Some b"
  by (simp add: dec_BehaviorConfig_def dec_field_def)

lemma dec_LogLimits_json:
  "dec_LogLimits (JObject [(''max_lines'', JInt (sint (ll_MaxLines b))),
     (''max_bytes'', JInt (sint (ll_MaxBytes b)))]) = Some b"
  by (simp add: dec_LogLimits_def dec_field_def)

lemma dec_LoadTestSpec_json [simp]: "dec_LoadTestSpec (json_LoadTestSpec l) = Some l"
  by (simp add: dec_LoadTestSpec_def json_LoadTestSpec_def dec_field_def dec_BehaviorConfig_json
      dec_LogLimits_json del: dec_list.simps)

text \<open>Multipliers that are floats JSON can hold.\<close>

definition json_float :: "float64 \<Rightarrow> bool" where
  "json_float x \<longleftrightarrow> finite_float x \<and> is_float x"

definition policy_floats :: "RepeatPolicy \<Rightarrow> bool" where
  "policy_floats rp \<longleftrightarrow> list_all json_float
     [sm_Count (rp_Streams rp), sm_Replicas (rp_Streams rp), sm_MessagesPerStreamPerSecond (rp_Streams rp),
      bm_Duration (rp_Behavior rp), bm_RampUp (rp_Behavior rp),
      cm_AckWait (rp_Consumers rp), cm_MaxAckPending (rp_Consumers rp), cm_ConsumeDelay (rp_Consumers rp),
      cm_CountPerStream (rp_Consumers rp), pm_CountPerStream (rp_Publishers rp),
      pm_PublishRate (rp_Publishers rp), pm_MessageSizeBytes (rp_Publishers rp)]"

lemma dec_RepeatPolicy_json: "policy_floats rp \<Longrightarrow> dec_RepeatPolicy (json_RepeatPolicy rp) = Some rp"
  by (simp add: policy_floats_def json_float_def dec_RepeatPolicy_def json_RepeatPolicy_def dec_field_def
      dec_StreamMultipliers_def dec_BehaviorMultipliers_def dec_ConsumerMultipliers_def
      dec_PublisherMultipliers_def)

lemma dec_spec_pointer:
  "dec_pointer dec_LoadTestSpec (case s of None \<Rightarrow> JNull | Some l \<Rightarrow> json_LoadTestSpec l) = Some s"
  by (simp add: dec_pointer_value split: option.split)

lemma dec_spec_list:
  "dec_list (dec_pointer dec_LoadTestSpec)
     (JArray (map (\<lambda>s. case s of None \<Rightarrow> JNull | Some l \<Rightarrow> json_LoadTestSpec l) ss)) = Some ss"
  using those_map_Some [of ss "dec_pointer dec_LoadTestSpec", OF dec_spec_pointer] by simp

lemma dec_StorageConfig_json:
  "dec_StorageConfig (JObject [(''type'', JString (sc_Type s)), (''path'', JString (sc_Path s))]) = Some s"
  by (simp add: dec_StorageConfig_def dec_field_def)

lemma dec_Config_json_lemma: "policy_floats (cfg_RepeatPolicy c) \<Longrightarrow> dec_Config (json_Config c) = Some c"
  by (simp add: dec_Config_def json_Config_def dec_field_def dec_RepeatPolicy_json dec_spec_list
      dec_StorageConfig_json del: dec_list.simps)

end
