(* ===== verification/Config_Streams.thy ===== *)
theory Config_Streams
  imports Config_Validate
begin

text \<open>
  Names and subjects of streams, and the settings a stream spec asks of JetStream
  (\<open>FormatSubject\<close> to \<open>GetMaxConsumers\<close> of \<open>internal/config/config.go\<close>).  A stream's name is
  its prefix, an underscore and its 1-based index; a subject is a \<open>fmt\<close> format that
  validation made out of the placeholder \<open>{}\<close>.  Indexing outside a slice and a negative
  length panic.
\<close>

section \<open>Subjects and names\<close>

definition containsFormatPlaceholder :: "string \<Rightarrow> bool" where
  "containsFormatPlaceholder subject = Contains subject ''%d''"

definition FormatSubject ::
  "(string \<Rightarrow> int32 \<Rightarrow> string) \<Rightarrow> StreamSpec \<Rightarrow> int32 \<Rightarrow> int32 \<Rightarrow> (unit, string) outcome" where
  "FormatSubject other s subjectIndex streamIndex =
     (if sint (word_of_nat (length (ss_Subjects s)) :: int32) \<le> sint subjectIndex then Return []
      else if sint subjectIndex < 0 then Panic
      else if int (length (ss_Subjects s)) \<le> sint subjectIndex then Panic
      else (let subject = ss_Subjects s ! nat (sint subjectIndex)
            in Return (if containsFormatPlaceholder subject
                       then Sprintf_int32 other subject streamIndex else subject)))"

definition GetFormattedSubjects ::
  "(string \<Rightarrow> int32 \<Rightarrow> string) \<Rightarrow> StreamSpec \<Rightarrow> int32 \<Rightarrow> (unit, string list) outcome" where
  "GetFormattedSubjects other s streamIndex =
     omap (\<lambda>i. FormatSubject other s (word_of_nat i) streamIndex) [0..<length (ss_Subjects s)]"

text \<open>The loop variable stays below \<open>Count\<close>, so \<open>i+1\<close> does not wrap.\<close>

definition stream_name :: "string \<Rightarrow> nat \<Rightarrow> string" where
  "stream_name pre i = pre @ CHR ''_'' # show_int (int i + 1)"

definition GetFormattedStreamNames :: "StreamSpec \<Rightarrow> (unit, string list) outcome" where
  "GetFormattedStreamNames s =
     (if sint (ss_Count s) < 0 then Panic
      else Return (map (stream_name (ss_NamePrefix s)) [0..<nat (sint (ss_Count s))]))"

section \<open>Settings with their defaults\<close>

datatype RetentionPolicy = LimitsPolicy | InterestPolicy | WorkQueuePolicy
datatype StorageType = FileStorage | MemoryStorage
datatype DiscardPolicy = DiscardOldPolicy | DiscardNewPolicy

definition GetRetentionPolicy :: "StreamSpec \<Rightarrow> RetentionPolicy" where
  "GetRetentionPolicy s =
     (if ss_Retention s = RetentionInterest then InterestPolicy
      else if ss_Retention s = RetentionWorkQueue then WorkQueuePolicy else LimitsPolicy)"

definition GetStorageType :: "StreamSpec \<Rightarrow> StorageType" where
  "GetStorageType s = (if ss_Storage s = StorageFile then FileStorage else MemoryStorage)"

definition GetDiscardPolicy :: "StreamSpec \<Rightarrow> DiscardPolicy" where
  "GetDiscardPolicy s = (if ss_Discard s = DiscardNew then DiscardNewPolicy else DiscardOldPolicy)"

definition GetMaxAge :: "StreamSpec \<Rightarrow> Duration" where
  "GetMaxAge s =
     (if ss_MaxAge s = [] then Minute
      else (case ParseDuration (ss_MaxAge s) of None \<Rightarrow> Minute | Some d \<Rightarrow> d))"

definition GetDiscardNewPerSubject :: "StreamSpec \<Rightarrow> bool" where
  "GetDiscardNewPerSubject s = (case ss_DiscardNewPerSubject s of None \<Rightarrow> False | Some b \<Rightarrow> b)"

definition GetMaxMsgs :: "StreamSpec \<Rightarrow> int64" where
  "GetMaxMsgs s = (case ss_MaxMsgs s of None \<Rightarrow> - 1 | Some n \<Rightarrow> n)"

definition GetMaxBytes :: "StreamSpec \<Rightarrow> int64" where
  "GetMaxBytes s = (case ss_MaxBytes s of None \<Rightarrow> - 1 | Some n \<Rightarrow> n)"

definition GetMaxMsgsPerSubject :: "StreamSpec \<Rightarrow> int64" where
  "GetMaxMsgsPerSubject s = (case ss_MaxMsgsPerSubject s of None \<Rightarrow> - 1 | Some n \<Rightarrow> n)"

definition GetMaxConsumers :: "StreamSpec \<Rightarrow> go_int" where
  "GetMaxConsumers s = (case ss_MaxConsumers s of None \<Rightarrow> - 1 | Some n \<Rightarrow> n)"

section \<open>Names are distinct\<close>

text \<open>The index is the part after the last underscore: digits hold none.\<close>

lemma underscore_split_unique:
  assumes "a @ CHR ''_'' # u = b @ CHR ''_'' # v"
    and "CHR ''_'' \<notin> set u" and "CHR ''_'' \<notin> set v"
  shows "a = b \<and> u = v"
  using assms by (auto simp: append_eq_append_conv2 append_eq_Cons_conv Cons_eq_append_conv)

lemma show_int_no_underscore [simp]: "CHR ''_'' \<notin> set (show_int i)"
  using set_show_int by fastforce

lemma stream_name_inject [simp]:
  "stream_name p i = stream_name q j \<longleftrightarrow> p = q \<and> i = j"
  by (auto simp: stream_name_def dest: underscore_split_unique)

section \<open>Subjects of a stream\<close>

definition subject_text :: "(string \<Rightarrow> int32 \<Rightarrow> string) \<Rightarrow> int32 \<Rightarrow> string \<Rightarrow> string" where
  "subject_text other streamIndex subject =
     (if containsFormatPlaceholder subject then Sprintf_int32 other subject streamIndex else subject)"

lemma GetFormattedSubjects_eq:
  assumes "length (ss_Subjects s) < 2147483648"
  shows "GetFormattedSubjects other s k = Return (map (subject_text other k) (ss_Subjects s))"
proof -
  have "GetFormattedSubjects other s k =
      Return (map (\<lambda>i. subject_text other k (ss_Subjects s ! i)) [0..<length (ss_Subjects s)])"
    unfolding GetFormattedSubjects_def
    by (rule omap_Return)
      (use assms in \<open>simp add: FormatSubject_def subject_text_def sint_of_nat_32\<close>)
  also have "map (\<lambda>i. subject_text other k (ss_Subjects s ! i)) [0..<length (ss_Subjects s)]
      = map (subject_text other k) (ss_Subjects s)"
    by (rule nth_equalityI) simp_all
  finally show ?thesis .
qed

text \<open>One placeholder in a text without percent signs or braces becomes the stream's index.\<close>

lemma subject_text_placeholder:
  assumes "CHR ''%'' \<notin> set a" and "CHR ''{'' \<notin> set a"
    and "CHR ''%'' \<notin> set b" and "CHR ''{'' \<notin> set b"
  shows "subject_text other k (ReplaceAll_braces (a @ ''{}'' @ b)) = a @ show_int (sint k) @ b"
proof -
  have b: "ReplaceAll_braces b = b"
    using ReplaceAll_braces_append [OF assms(4), of "[]"] by simp
  have "ReplaceAll_braces (a @ ''{}'' @ b) = a @ CHR ''%'' # CHR ''d'' # b"
    using assms(2) by (simp add: ReplaceAll_braces_append b)
  moreover have "containsFormatPlaceholder (a @ CHR ''%'' # CHR ''d'' # b)"
    by (auto simp: containsFormatPlaceholder_def Contains_percent_d)
  ultimately show ?thesis using assms(1,3)
    by (simp add: subject_text_def Sprintf_int32_def plain_format_append_d printf_d_append_d
        printf_d_used_no_percent)
qed

lemma GetFormattedStreamNames_ok:
  "stream_ok s \<Longrightarrow> GetFormattedStreamNames s =
     Return (map (stream_name (ss_NamePrefix s)) [0..<nat (sint (ss_Count s))])"
  by (simp add: GetFormattedStreamNames_def stream_ok_def)

end
