(* ===== verification/Example_Config.thy ===== *)
theory Example_Config
  imports Config_Json Config_Streams
begin

text \<open>
  The configuration the repository ships (\<open>config.default.json\<close>), before and after validation:
  the concrete input of the witnesses.
\<close>

definition example_stream :: "string list \<Rightarrow> StreamSpec" where
  "example_stream subjects =
     \<lparr>ss_NamePrefix = ''load_stream'', ss_Count = 10, ss_Replicas = 1, ss_Subjects = subjects,
      ss_MessagesPerStreamPerSecond = 1000000, ss_Retention = ''limits'', ss_MaxAge = ''5m'',
      ss_Storage = ''file'', ss_DiscardNewPerSubject = Some False, ss_Discard = ''old'',
      ss_MaxMsgs = Some 100000, ss_MaxBytes = Some 214857600, ss_MaxMsgsPerSubject = Some 10000000,
      ss_MaxConsumers = Some 100\<rparr>"

definition example_publishers :: PublisherSpec where
  "example_publishers =
     \<lparr>ps_CountPerStream = 50, ps_StreamNamePrefix = ''load_stream'', ps_PublishRatePerSecond = 10000,
      ps_PublishPattern = ''steady'', ps_PublishBurstSize = 1, ps_MessageSizeBytes = 1024,
      ps_TrackLatency = False\<rparr>"

definition example_consumers :: ConsumerSpec where
  "example_consumers =
     \<lparr>cs_StreamNamePrefix = ''load_stream'', cs_Type = ''pull'', cs_CountPerStream = 70,
      cs_DurableNamePrefix = ''load_consumer'', cs_AckWaitSeconds = 5, cs_MaxAckPending = 1000,
      cs_ConsumeDelayMs = 50, cs_AckPolicy = ''explicit''\<rparr>"

definition example_spec :: "string list \<Rightarrow> LoadTestSpec" where
  "example_spec subjects =
     \<lparr>lts_Name = ''simple_high_throughput'', lts_NATSURL = ''nats://localhost:4222'',
      lts_NATSCredsFile = [], lts_UseJetStream = True, lts_ClientIDPrefix = ''load_tester'',
      lts_Streams = [example_stream subjects], lts_Publishers = example_publishers,
      lts_Consumers = example_consumers,
      lts_Behavior = \<lparr>bc_DurationSeconds = 300, bc_RampUpSeconds = 30\<rparr>,
      lts_LogLimits = \<lparr>ll_MaxLines = 50, ll_MaxBytes = 16384\<rparr>\<rparr>"

text \<open>The decimal 1.2 is read as the float nearest to it.\<close>

definition example_policy :: RepeatPolicy where
  "example_policy =
     \<lparr>rp_Enabled = True,
      rp_Streams = \<lparr>sm_Count = Fin 1, sm_Replicas = Fin 1, sm_MessagesPerStreamPerSecond = Fin 1\<rparr>,
      rp_Behavior = \<lparr>bm_Duration = Fin (5404319552844595 / 4503599627370496), bm_RampUp = Fin 1\<rparr>,
      rp_Consumers = \<lparr>cm_AckWait = Fin 1, cm_MaxAckPending = Fin 1, cm_ConsumeDelay = Fin 1,
        cm_CountPerStream = Fin 1\<rparr>,
      rp_Publishers = \<lparr>pm_CountPerStream = Fin (5404319552844595 / 4503599627370496),
        pm_PublishRate = Fin 2, pm_MessageSizeBytes = Fin 1\<rparr>\<rparr>"

definition steady_policy :: RepeatPolicy where
  "steady_policy =
     \<lparr>rp_Enabled = True,
      rp_Streams = \<lparr>sm_Count = Fin 1, sm_Replicas = Fin 1, sm_MessagesPerStreamPerSecond = Fin 1\<rparr>,
      rp_Behavior = \<lparr>bm_Duration = Fin 1, bm_RampUp = Fin 1\<rparr>,
      rp_Consumers = \<lparr>cm_AckWait = Fin 1, cm_MaxAckPending = Fin 1, cm_ConsumeDelay = Fin 1,
        cm_CountPerStream = Fin 1\<rparr>,
      rp_Publishers = \<lparr>pm_CountPerStream = Fin 1, pm_PublishRate = Fin 1, pm_MessageSizeBytes = Fin 1\<rparr>\<rparr>"

definition example_config :: "string list \<Rightarrow> RepeatPolicy \<Rightarrow> Config" where
  "example_config subjects rp =
     \<lparr>cfg_LoadTestSpecs = [Some (example_spec subjects)], cfg_RepeatPolicy = rp,
      cfg_Storage = \<lparr>sc_Type = ''badger'', sc_Path = ''/var/lib/lt/load_test_stats.db''\<rparr>,
      cfg_StatsCollectionIntervalSeconds = 5\<rparr>"

abbreviation shipped_config :: Config where
  "shipped_config \<equiv> example_config [''test.subject.{}''] example_policy"

abbreviation validated_config :: Config where
  "validated_config \<equiv> example_config [''test.subject.%d''] example_policy"

abbreviation validated_spec :: LoadTestSpec where
  "validated_spec \<equiv> example_spec [''test.subject.%d'']"

abbreviation steady_config :: Config where
  "steady_config \<equiv> example_config [''test.subject.%d''] steady_policy"

text \<open>The same with another interval of collection.\<close>

definition other_config :: Config where
  "other_config = steady_config\<lparr>cfg_StatsCollectionIntervalSeconds := 6\<rparr>"

text \<open>A digest that tells these two apart.\<close>

definition two_digest :: "json \<Rightarrow> string" where
  "two_digest j = (if j = json_Config steady_config then ''steady'' else ''h'')"

lemmas example_defs =
  example_stream_def example_publishers_def example_consumers_def example_spec_def

lemma example_stream_ok: "subjects \<noteq> [] \<Longrightarrow> stream_ok (example_stream subjects)"
  by (simp add: stream_ok_def example_stream_def config_constants at_least_unlimited_def ParseDuration_5m)

lemma example_spec_ok: "subjects \<noteq> [] \<Longrightarrow> spec_ok (example_spec subjects)"
  using example_stream_ok [of subjects]
  by (simp add: spec_ok_def publisher_ok_def consumer_ok_def behavior_ok_def example_spec_def
      example_publishers_def example_consumers_def config_constants)
    (simp add: example_stream_def)

lemma no_braces: "\<not> Contains ''test.subject.%d'' ''{}''"
  by (simp add: sublist_Cons_right prefix_braces_Cons)

lemma validated_spec_wf: "spec_wf validated_spec"
  using example_spec_ok [of "[''test.subject.%d'']"] no_braces
  by (simp add: spec_wf_def example_spec_def example_stream_def)

lemma example_policies_wf: "policy_wf example_policy" "policy_wf steady_policy"
  by (simp_all add: policy_wf_def example_policy_def steady_policy_def positive_multiplier_def
      float64_class_defs flt_def)

lemma example_config_wf:
  "policy_wf rp \<Longrightarrow> config_wf (example_config [''test.subject.%d''] rp)"
  using validated_spec_wf by (simp add: config_wf_def example_config_def config_constants)

lemma normalise_example: "normalise_spec (example_spec [''test.subject.{}'']) = validated_spec"
  by (simp add: normalise_spec_def example_spec_def normalise_stream_def example_stream_def)

lemma Config_Validate_shipped: "Config_Validate shipped_config = Return validated_config"
proof -
  have "validate_specs 0 [Some (example_spec [''test.subject.{}''])] = Return [Some validated_spec]"
    using validate_specs_ok [of "[example_spec [''test.subject.{}'']]" 0] example_spec_ok
    by (simp add: normalise_example)
  then show ?thesis
    using RepeatPolicy_Validate_id [OF example_policies_wf(1)]
    by (simp add: Config_Validate_def example_config_def validate_storage_def config_constants
        default_interval_def)
qed

lemma pm_PublishRate_example: "pm_PublishRate (rp_Publishers example_policy) = Fin 2"
  by (simp add: example_policy_def)

lemma two_digest_simps [simp]:
  "two_digest (json_Config steady_config) = ''steady''" "two_digest (json_Config other_config) = ''h''"
  by (simp_all add: two_digest_def other_config_def json_Config_def example_config_def)

lemma other_config_wf: "config_wf other_config"
  using example_config_wf [OF example_policies_wf(2)] by (simp add: config_wf_def other_config_def)

end
