(* ===== verification/Config_Properties.thy ===== *)
theory Config_Properties
  imports Example_Config
begin

text \<open>
  The properties of the configuration code: what validation guarantees and accepts, how it
  reports, the names of streams, the repeat policy, hashes and JSON.
\<close>

section \<open>Validation\<close>

text \<open>C12. A configuration that passes validation is well-formed in every respect the rest of the
  program relies on (no nil spec, matched prefixes, positive numbers, known storage, no
  placeholder left in a subject), and validating it again changes nothing.\<close>

theorem Config_Validate_sound:
  "Config_Validate c = Return c' \<Longrightarrow> config_wf c' \<and> Config_Validate c' = Return c'"
  using Config_Validate_ReturnD Config_Validate_id by blast

theorem Config_Validate_sound_witness:
  "config_wf validated_config \<and> Config_Validate validated_config = Return validated_config"
  using Config_Validate_sound [OF Config_Validate_shipped] .

text \<open>What validation asks of its input, before any default is filled in.\<close>

definition acceptable :: "Config \<Rightarrow> bool" where
  "acceptable c \<longleftrightarrow>
     cfg_LoadTestSpecs c \<noteq> []
   \<and> list_all (\<lambda>s. case s of None \<Rightarrow> False | Some lts \<Rightarrow> spec_ok lts) (cfg_LoadTestSpecs c)
   \<and> (rp_Enabled (cfg_RepeatPolicy c) \<longrightarrow> \<not> bm_RampUp (rp_Behavior (cfg_RepeatPolicy c)) < Fin 0)
   \<and> sc_Type (cfg_Storage c) \<in> {[], BadgerDBStorage, FileStorageType, StdoutStorage}"

lemma list_all_specs:
  "list_all (\<lambda>s. case s of None \<Rightarrow> False | Some lts \<Rightarrow> spec_ok lts) ss \<longleftrightarrow>
     (\<exists>ls. ss = map Some ls \<and> (\<forall>l \<in> set ls. spec_ok l))"
proof
  assume "list_all (\<lambda>s. case s of None \<Rightarrow> False | Some lts \<Rightarrow> spec_ok lts) ss"
  then have "ss = map Some (map the ss)" "\<forall>l \<in> set (map the ss). spec_ok l"
    by (induction ss) (auto split: option.splits)
  then show "\<exists>ls. ss = map Some ls \<and> (\<forall>l \<in> set ls. spec_ok l)" by blast
qed (auto simp: list_all_iff)

lemma validate_specs_Return_iff:
  "(\<exists>rs. validate_specs 0 ss = Return rs) \<longleftrightarrow>
     list_all (\<lambda>s. case s of None \<Rightarrow> False | Some lts \<Rightarrow> spec_ok lts) ss"
  unfolding list_all_specs
proof
  show "\<exists>ls. ss = map Some ls \<and> (\<forall>l \<in> set ls. spec_ok l)" if "\<exists>rs. validate_specs 0 ss = Return rs"
    using that by (elim exE) (drule validate_specs_ReturnD, metis)
  show "\<exists>rs. validate_specs 0 ss = Return rs" if "\<exists>ls. ss = map Some ls \<and> (\<forall>l \<in> set ls. spec_ok l)"
    using that by (elim exE conjE) (simp add: validate_specs_ok)
qed

lemma validate_storage_Return_iff:
  "(\<exists>c'. validate_storage c = Return c') \<longleftrightarrow>
     sc_Type (cfg_Storage c) \<in> {[], BadgerDBStorage, FileStorageType, StdoutStorage}"
proof (cases "sc_Type (cfg_Storage c) \<in> {[], BadgerDBStorage, FileStorageType, StdoutStorage}")
  case True
  then consider "sc_Type (cfg_Storage c) = []" | "sc_Type (cfg_Storage c) = BadgerDBStorage"
    | "sc_Type (cfg_Storage c) = FileStorageType" | "sc_Type (cfg_Storage c) = StdoutStorage" by blast
  then show ?thesis
    by cases (auto simp: validate_storage_def default_path_def config_constants Let_def)
next
  case False then show ?thesis by (simp add: validate_storage_def)
qed

lemma RepeatPolicy_Validate_None_iff:
  "fst (RepeatPolicy_Validate rp) = None \<longleftrightarrow> (rp_Enabled rp \<longrightarrow> \<not> bm_RampUp (rp_Behavior rp) < Fin 0)"
  by (auto simp: RepeatPolicy_Validate_def Let_def)

text \<open>C13. Validation accepts exactly the acceptable configurations: those with specs, none of them
  nil and each passing its checks, a ramp-up multiplier that is not negative when repeating,
  and a storage type that is empty or known.\<close>

theorem Config_Validate_accepts:
  "(\<exists>c'. Config_Validate c = Return c') \<longleftrightarrow> acceptable c"
proof -
  note specs = validate_specs_Return_iff [of "cfg_LoadTestSpecs c"]
  obtain re rp where rp: "RepeatPolicy_Validate (cfg_RepeatPolicy c) = (re, rp)" by fastforce
  have re: "re = None \<longleftrightarrow> (rp_Enabled (cfg_RepeatPolicy c) \<longrightarrow> \<not> bm_RampUp (rp_Behavior (cfg_RepeatPolicy c)) < Fin 0)"
    using RepeatPolicy_Validate_None_iff [of "cfg_RepeatPolicy c"] by (simp add: rp)
  show ?thesis
  proof (cases "cfg_LoadTestSpecs c = [] \<or> (\<forall>ss. validate_specs 0 (cfg_LoadTestSpecs c) \<noteq> Return ss)")
    case True
    then have "Config_Validate c \<noteq> Return c'" for c'
      by (cases "validate_specs 0 (cfg_LoadTestSpecs c)") (auto simp: Config_Validate_def)
    moreover have "\<not> acceptable c" using True specs by (auto simp: acceptable_def)
    ultimately show ?thesis by blast
  next
    case False
    then obtain ss where ss: "validate_specs 0 (cfg_LoadTestSpecs c) = Return ss" by blast
    have list: "list_all (\<lambda>s. case s of None \<Rightarrow> False | Some lts \<Rightarrow> spec_ok lts) (cfg_LoadTestSpecs c)"
      using specs ss by blast
    show ?thesis
    proof (cases re)
      case None
      have "(\<exists>c'. Config_Validate c = Return c') \<longleftrightarrow>
          sc_Type (cfg_Storage c) \<in> {[], BadgerDBStorage, FileStorageType, StdoutStorage}"
        using validate_storage_Return_iff [of "c\<lparr>cfg_LoadTestSpecs := ss, cfg_RepeatPolicy := rp\<rparr>"] False
        by (cases "validate_storage (c\<lparr>cfg_LoadTestSpecs := ss, cfg_RepeatPolicy := rp\<rparr>)")
          (simp_all add: Config_Validate_def ss rp None)
      then show ?thesis using False list re None unfolding acceptable_def by blast
    next
      case (Some m)
      then show ?thesis using re False by (simp add: Config_Validate_def ss rp acceptable_def)
    qed
  qed
qed

text \<open>The errors reported for the streams of a spec are exactly the failed checks of each invalid
  stream under its index: no invalid stream is missed, no valid one is reported.\<close>

lemma LoadTestSpec_Validate_stream_errors:
  "StreamError i es \<in> set (fst (LoadTestSpec_Validate lts)) \<longleftrightarrow>
     i < length (lts_Streams lts) \<and> es = StreamSpec_errors (lts_Streams lts ! i)
       \<and> \<not> stream_ok (lts_Streams lts ! i)"
proof -
  have "StreamError i es \<in> set (fst (LoadTestSpec_Validate lts)) \<longleftrightarrow>
      StreamError i es \<in> set (fst (validate_streams 0 (lts_Streams lts)))"
    by (auto simp: LoadTestSpec_Validate_def Let_def err_if_def split: prod.splits option.splits)
  then show ?thesis
    by (auto simp: validate_streams_errors StreamSpec_errors_Nil_iff [symmetric])
qed

section \<open>Names\<close>

text \<open>C29. The streams of a validated spec whose prefixes differ all get different names, even when a
  prefix itself ends in an underscore and digits.\<close>

theorem stream_names_distinct:
  assumes "spec_wf lts" and "distinct (map ss_NamePrefix (lts_Streams lts))"
  shows "\<exists>names. omap GetFormattedStreamNames (lts_Streams lts) = Return names \<and> distinct (concat names)"
proof -
  have ok: "\<forall>s \<in> set (lts_Streams lts). stream_ok s" using assms(1) by (simp add: spec_wf_def spec_ok_def)
  let ?names = "\<lambda>s. map (stream_name (ss_NamePrefix s)) [0..<nat (sint (ss_Count s))]"
  have "omap GetFormattedStreamNames (lts_Streams lts) = Return (map ?names (lts_Streams lts))"
    by (rule omap_Return) (use ok in \<open>simp add: GetFormattedStreamNames_ok\<close>)
  moreover have "distinct (concat (map ?names ss))" if "distinct (map ss_NamePrefix ss)" for ss
    using that by (induction ss) (auto simp: distinct_map inj_on_def)
  ultimately show ?thesis using assms(2) by blast
qed

theorem stream_names_distinct_witness:
  "\<exists>names. omap GetFormattedStreamNames (lts_Streams validated_spec) = Return names \<and> distinct (concat names)"
  by (rule stream_names_distinct [OF validated_spec_wf]) (simp add: example_spec_def)

text \<open>A subject with one placeholder and no other special character is used with the number of its
  stream in the place of the placeholder, from the text of the configuration to the subject.\<close>

lemma subject_placeholder:
  assumes "CHR ''%'' \<notin> set a" "CHR ''{'' \<notin> set a" "CHR ''%'' \<notin> set b" "CHR ''{'' \<notin> set b"
    and "stream_ok s" and "ss_Subjects s = [a @ ''{}'' @ b]"
  shows "GetFormattedSubjects other (snd (StreamSpec_Validate s)) k = Return [a @ show_int (sint k) @ b]"
proof -
  have "snd (StreamSpec_Validate s) = normalise_stream s" by (simp add: StreamSpec_Validate_ok assms(5))
  moreover have "length (ss_Subjects (normalise_stream s)) < 2147483648" by (simp add: assms(6))
  ultimately show ?thesis
    by (simp only: GetFormattedSubjects_eq normalise_stream_simps assms(6) list.map
        subject_text_placeholder [OF assms(1-4)])
qed

lemma subject_placeholder_example:
  "GetFormattedSubjects (\<lambda>_ _. []) (snd (StreamSpec_Validate (example_stream [''test.subject.{}'']))) 7 =
     Return [''test.subject.7'']"
  using subject_placeholder [of "''test.subject.''" "[]" "example_stream [''test.subject.{}'']" "\<lambda>_ _. []" 7]
    example_stream_ok [of "[''test.subject.{}'']"]
  by (simp add: example_stream_def show_int_def digits.simps digit_def char_of_def bit_0)

section \<open>Repeating\<close>

text \<open>C30. Multipliers of at least one whose products stay in the range of their fields keep a validated
  spec well-formed, although it is not validated again before it is run.\<close>

theorem ApplyMultipliers_keeps_wf:
  assumes "spec_wf lts" and "growing rp lts" shows "spec_wf (ApplyMultipliers im rp lts)"
  by (rule ApplyMultipliers_growing_wf [OF assms])

text \<open>Policies of natural multipliers grow a spec as long as the products fit.\<close>

lemma grows_nat:
  fixes n :: int32 and k :: int64
  shows "1 \<le> m \<Longrightarrow> 0 \<le> sint n \<Longrightarrow> sint n * m < 2147483648 \<Longrightarrow> grows32 n (Fin (of_int m))"
    and "1 \<le> m \<Longrightarrow> 0 \<le> sint k \<Longrightarrow> sint k * m \<le> 2 ^ 53 \<Longrightarrow> \<bar>sint k\<bar> \<le> 2 ^ 53 \<Longrightarrow> grows64 k (Fin (of_int m))"
proof -
  have fl: "float_of_int i * Fin (of_int m) = Fin (of_int (i * m))" if "\<bar>i\<bar> \<le> 2 ^ 53" "\<bar>i * m\<bar> \<le> 2 ^ 53" for i
  proof -
    have "fl (of_int (i * m)) = Fin (of_int (i * m))" by (rule fl_of_int) (use that in simp)
    then show ?thesis using that(1) by (simp add: times_float64_def float_of_int_exact)
  qed
  show "grows32 n (Fin (of_int m))" if "1 \<le> m" "0 \<le> sint n" "sint n * m < 2147483648"
  proof -
    have "0 \<le> sint n * m" "\<bar>sint n\<bar> \<le> 2 ^ 53" using that(1,2) abs_sint32_le [of n] by simp_all
    then have "float_of_int (sint n) * Fin (of_int m) = Fin (of_int (sint n * m))" by (intro fl) (use that in simp_all)
    moreover have "(of_int (sint n * m) :: rat) < of_int 2147483648" using that(3) by (simp only: of_int_less_iff)
    ultimately show ?thesis using that(1) unfolding grows32_def by (intro exI [of _ "of_int m"] exI [of _ "of_int (sint n * m)"]) simp
  qed
  show "grows64 k (Fin (of_int m))" if "1 \<le> m" "0 \<le> sint k" "sint k * m \<le> 2 ^ 53" "\<bar>sint k\<bar> \<le> 2 ^ 53"
  proof -
    have "0 \<le> sint k * m" using that by simp
    then have "float_of_int (sint k) * Fin (of_int m) = Fin (of_int (sint k * m))" by (intro fl) (use that in simp_all)
    moreover have "(of_int (sint k * m) :: rat) < of_int 9223372036854775808" using that(3) by (simp only: of_int_less_iff) simp
    ultimately show ?thesis using that(1,4) unfolding grows64_def exact64_def
      by (intro exI [of _ "of_int m"] exI [of _ "of_int (sint k * m)"]) simp
  qed
qed

definition doubling_policy :: RepeatPolicy where
  "doubling_policy = steady_policy\<lparr>rp_Publishers :=
     \<lparr>pm_CountPerStream = Fin 1, pm_PublishRate = Fin 2, pm_MessageSizeBytes = Fin 1\<rparr>\<rparr>"

lemma growing_example: "growing doubling_policy validated_spec"
  using grows_nat [where m = 1] grows_nat [where m = 2]
  by (simp add: growing_def doubling_policy_def steady_policy_def example_defs)

theorem ApplyMultipliers_keeps_wf_witness:
  "spec_wf (ApplyMultipliers amd64 doubling_policy validated_spec)"
  by (rule ApplyMultipliers_keeps_wf [OF validated_spec_wf growing_example])

section \<open>Hashes and JSON\<close>

text \<open>Two specs have the same hash only when they are equal, provided the digest has no
  collision on the texts of the specs in use: no field is left out of the hash.\<close>

lemma LoadTestSpec_Hash_separates:
  assumes "inj_on digest (json_LoadTestSpec ` S)" and "a \<in> S" and "b \<in> S"
  shows "LoadTestSpec_Hash digest a = LoadTestSpec_Hash digest b \<longleftrightarrow> a = b"
  using assms by (auto simp: LoadTestSpec_Hash_def json_LoadTestSpec_inject inj_on_def)

definition example_digest :: "json \<Rightarrow> string" where
  "example_digest j = (if j = json_LoadTestSpec validated_spec then ''a'' else ''b'')"

lemma LoadTestSpec_Hash_separates_example:
  "LoadTestSpec_Hash example_digest validated_spec \<noteq> LoadTestSpec_Hash example_digest (example_spec [''other''])"
proof -
  have ne: "validated_spec \<noteq> example_spec [''other'']" by (simp add: example_defs)
  then have "inj_on example_digest (json_LoadTestSpec ` {validated_spec, example_spec [''other'']})"
    by (simp add: example_digest_def json_LoadTestSpec_inject)
  from LoadTestSpec_Hash_separates [OF this] ne show ?thesis by simp
qed

lemma is_float_small: "\<bar>m\<bar> \<le> 2 ^ 53 \<Longrightarrow> is_float (Fin (of_int m))"
  by (simp add: is_float_def)

text \<open>C24. Decoding the JSON of a configuration yields the configuration, field for field, so a
  configuration read from the server can be sent back to it.\<close>

theorem Config_json_roundtrip:
  assumes "policy_floats (cfg_RepeatPolicy c)" shows "dec_Config (json_Config c) = Some c"
  by (rule dec_Config_json_lemma [OF assms])

theorem Config_json_roundtrip_witness:
  "dec_Config (json_Config (example_config [''test.subject.%d''] doubling_policy)) =
     Some (example_config [''test.subject.%d''] doubling_policy)"
proof -
  have "is_float (Fin 1)" "is_float (Fin 2)" using is_float_small [of 1] is_float_small [of 2] by simp_all
  then show ?thesis
    by (intro Config_json_roundtrip)
      (simp add: policy_floats_def json_float_def example_config_def doubling_policy_def steady_policy_def)
qed

end
