(* ===== verification/Bounded_Log.thy ===== *)
theory Bounded_Log
  imports Go_Base
begin

text \<open>
  The contract of a slice that keeps its newest elements: the latency samples of the
  collector and the per-hash caches of the file storage append an element and drop from the
  front what exceeds their capacity.  Everything the components need about sequences of such
  appends is proved from the one law.
\<close>

locale bounded_log =
  fixes push :: "nat \<Rightarrow> 'a list \<Rightarrow> 'a \<Rightarrow> 'a list"
  assumes push_law: "push cap xs x = last_n cap (xs @ [x])"
begin

lemma push_length: "length (push cap xs x) \<le> cap"
  by (simp add: push_law)

lemma push_suffix: "suffix (push cap xs x) (xs @ [x])"
  unfolding push_law by (rule suffix_last_n)

lemma push_keeps_newest: "0 < cap \<Longrightarrow> push cap xs x \<noteq> [] \<and> last (push cap xs x) = x"
  by (simp add: push_law last_n_snoc)

lemma push_below: "length xs < cap \<Longrightarrow> push cap xs x = xs @ [x]"
  by (simp add: push_law last_n_id)

lemma push_all: "foldl (push cap) xs ys = last_n cap (xs @ ys)" if "length xs \<le> cap"
  using that
proof (induction ys arbitrary: xs)
  case (Cons y ys)
  have "foldl (push cap) xs (y # ys) = last_n cap (push cap xs y @ ys)"
    using Cons.IH [OF push_length] by simp
  also have "\<dots> = last_n cap (xs @ y # ys)"
    by (simp add: push_law last_n_append_last_n)
  finally show ?case .
qed (simp add: last_n_id)

lemma push_all_fits:
  assumes "length xs + length ys \<le> cap" shows "foldl (push cap) xs ys = xs @ ys"
proof -
  from assms have "foldl (push cap) xs ys = last_n cap (xs @ ys)" by (intro push_all) simp
  also have "\<dots> = xs @ ys" using assms by (intro last_n_id) simp
  finally show ?thesis .
qed

end

end
