(* ===== verification/Collector.thy ===== *)
theory Collector
  imports Stats_Types Bounded_Log "HOL-Library.Multiset"
begin

text \<open>
  The statistics collector (\<open>internal/stats/collector.go\<close>): counters, latency samples, the
  bounded error log, the periodic collection and its latency summary.  Every method takes the
  collector's locks for its whole body, so it is one step on the state.  The storage is
  reached through the two operations of \<open>Storage\<close> it calls, passed as parameters; the clock is
  an argument.
\<close>

section \<open>State\<close>

record Collector =
  co_loadTestSpec :: "LoadTestSpec option"
  co_published :: uint64
  co_consumed :: uint64
  co_publishErrors :: uint64
  co_consumeErrors :: uint64
  co_latencies :: "Duration list"
  co_errors :: "go_error list"
  co_startTime :: Time
  co_lastStatsTime :: Time
  co_currentLoadTestSpecHash :: string
  co_rampUpStats :: RampUpStats
  co_maxLatencySamples :: go_int

definition NewCollector :: "Time \<Rightarrow> Collector" where
  "NewCollector now =
     \<lparr>co_loadTestSpec = None, co_published = 0, co_consumed = 0, co_publishErrors = 0,
      co_consumeErrors = 0, co_latencies = [], co_errors = [], co_startTime = now,
      co_lastStatsTime = now, co_currentLoadTestSpecHash = [],
      co_rampUpStats = zero_RampUpStats, co_maxLatencySamples = 10000\<rparr>"

definition SetConfig :: "(json \<Rightarrow> string) \<Rightarrow> Time \<Rightarrow> LoadTestSpec \<Rightarrow> Collector \<Rightarrow> Collector" where
  "SetConfig digest now spec c = c
     \<lparr>co_currentLoadTestSpecHash := LoadTestSpec_Hash digest spec,
      co_loadTestSpec := Some spec,
      co_published := 0, co_consumed := 0, co_publishErrors := 0, co_consumeErrors := 0,
      co_latencies := [], co_errors := [], co_startTime := now, co_lastStatsTime := now,
      co_maxLatencySamples :=
        (if 0 < sint (ll_MaxLines (lts_LogLimits spec))
         then smin (scast (ll_MaxLines (lts_LogLimits spec)) * 10) 10000 else 10000)\<rparr>"

section \<open>Recording\<close>

definition RecordPublish :: "Collector \<Rightarrow> Collector" where
  "RecordPublish c = c\<lparr>co_published := co_published c + 1\<rparr>"

definition RecordConsume :: "Collector \<Rightarrow> Collector" where
  "RecordConsume c = c\<lparr>co_consumed := co_consumed c + 1\<rparr>"

definition errors_size :: "go_error list \<Rightarrow> int" where
  "errors_size es = sum_list (map (\<lambda>e. int (length (err_text e))) es)"

text \<open>The inner loop: drop the oldest errors while the new one does not fit.\<close>

fun evict :: "int \<Rightarrow> int \<Rightarrow> int \<Rightarrow> go_error list \<Rightarrow> go_error list" where
  "evict maxBytes newSize currentSize [] = []"
| "evict maxBytes newSize currentSize (e # es) =
     (if maxBytes < currentSize + newSize
      then evict maxBytes newSize (currentSize - int (length (err_text e))) es
      else e # es)"

text \<open>
  \<open>recordError\<close> reads the limits through the spec pointer and slices \<open>c.errors[1:]\<close>: a nil
  spec and an empty slice panic.
\<close>

definition recordError :: "go_error \<Rightarrow> Collector \<Rightarrow> (unit, Collector) outcome" where
  "recordError err c =
     (case co_loadTestSpec c of
        None \<Rightarrow> Panic
      | Some spec \<Rightarrow>
          (let maxLines = sint (ll_MaxLines (lts_LogLimits spec));
               maxBytes = sint (ll_MaxBytes (lts_LogLimits spec));
               full = maxLines \<le> int (length (co_errors c))
           in if full \<and> co_errors c = [] then Panic
              else (let errors = (if full then tl (co_errors c) else co_errors c);
                        kept = evict maxBytes (int (length (err_text err))) (errors_size errors) errors
                    in Return (c\<lparr>co_errors := kept @ [err]\<rparr>))))"

definition RecordError :: "go_error \<Rightarrow> Collector \<Rightarrow> (unit, Collector) outcome" where
  "RecordError err c = recordError err c"

definition RecordPublishError :: "go_error \<Rightarrow> Collector \<Rightarrow> (unit, Collector) outcome" where
  "RecordPublishError err c = recordError err (c\<lparr>co_publishErrors := co_publishErrors c + 1\<rparr>)"

definition RecordConsumeError :: "go_error \<Rightarrow> Collector \<Rightarrow> (unit, Collector) outcome" where
  "RecordConsumeError err c = recordError err (c\<lparr>co_consumeErrors := co_consumeErrors c + 1\<rparr>)"

definition push_latency :: "nat \<Rightarrow> Duration list \<Rightarrow> Duration \<Rightarrow> Duration list" where
  "push_latency maxSamples latencies latency =
     (let ls = latencies @ [latency]
      in if maxSamples < length ls then drop (length ls - maxSamples) ls else ls)"

definition RecordLatency :: "Duration \<Rightarrow> Collector \<Rightarrow> Collector" where
  "RecordLatency latency c =
     c\<lparr>co_latencies := push_latency (nat (sint (co_maxLatencySamples c))) (co_latencies c) latency\<rparr>"

section \<open>Collecting\<close>

definition p99Index :: "impl \<Rightarrow> nat \<Rightarrow> nat" where
  "p99Index im n =
     (let i = sint (to_int64 im (float_of_int (int n) * fl (99 / 100)))
      in if int n \<le> i then n - 1 else nat i)"

definition calculateLatencyStats :: "impl \<Rightarrow> Duration list \<Rightarrow> LatencyStats" where
  "calculateLatencyStats im latencies =
     (if latencies = [] then zero_LatencyStats
      else (let l = sort_key sint latencies; n = length l
            in \<lparr>la_Min = l ! 0, la_Max = l ! (n - 1),
                la_Mean = quot64 (sum_list l) (word_of_nat n),
                la_P99 = l ! p99Index im n, la_Count = word_of_nat n\<rparr>))"

text \<open>The statistics of one collection, before the state is reset and the storage written.\<close>

definition collect :: "impl \<Rightarrow> Time \<Rightarrow> Collector \<Rightarrow> Stats" where
  "collect im now c =
     (let duration = Seconds (Sub now (co_lastStatsTime c));
          rate = (\<lambda>n :: uint64. if Fin 0 < duration
                    then fdiv (float_of_int (uint n)) duration else Fin 0)
      in \<lparr>st_Timestamp = now, st_Published = co_published c, st_Consumed = co_consumed c,
          st_PublishRate = rate (co_published c), st_ConsumeRate = rate (co_consumed c),
          st_PublishErrors = co_publishErrors c, st_ConsumeErrors = co_consumeErrors c,
          st_PendingMessages = co_published c - co_consumed c,
          st_Latency = (if co_latencies c = [] then zero_LatencyStats
                        else calculateLatencyStats im (co_latencies c)),
          st_Errors = map Some (co_errors c), st_RampUp = co_rampUpStats c\<rparr>)"

text \<open>A failed write is logged only.  The spec is set whenever the hash is.\<close>

definition CollectStats ::
  "(LoadTestSpec \<Rightarrow> Stats \<Rightarrow> 'st \<Rightarrow> 'e option \<times> 'st) \<Rightarrow> impl \<Rightarrow> Time \<Rightarrow> Collector \<Rightarrow> 'st option
    \<Rightarrow> Stats \<times> Collector \<times> 'st option" where
  "CollectStats writeStats im now c storage =
     (let stats = collect im now c;
          c' = c\<lparr>co_latencies := [], co_errors := [], co_lastStatsTime := now\<rparr>;
          storage' =
            (case (storage, co_loadTestSpec c) of
               (Some st, Some spec) \<Rightarrow>
                 (if co_currentLoadTestSpecHash c \<noteq> [] then Some (snd (writeStats spec stats st))
                  else storage)
             | _ \<Rightarrow> storage)
      in (stats, c', storage'))"

text \<open>
  The goroutine \<open>Start\<close>: the ticker fires, the context is done, or the other goroutines have
  changed the collector since; the statistics it has collected are listed.  The ticker panics
  when its interval is not positive.
\<close>

datatype collector_event = Ticked Time | Cancelled Time | Meanwhile "Collector \<Rightarrow> Collector"

fun collector_loop ::
  "(LoadTestSpec \<Rightarrow> Stats \<Rightarrow> 'st \<Rightarrow> 'e option \<times> 'st) \<Rightarrow> impl \<Rightarrow> collector_event list \<Rightarrow> Collector
    \<Rightarrow> 'st option \<Rightarrow> Stats list \<times> Collector \<times> 'st option" where
  "collector_loop writeStats im [] c st = ([], c, st)"
| "collector_loop writeStats im (Meanwhile f # evs) c st = collector_loop writeStats im evs (f c) st"
| "collector_loop writeStats im (Ticked now # evs) c st =
     (case CollectStats writeStats im now c st of
        (s, c', st') \<Rightarrow> (case collector_loop writeStats im evs c' st' of (ss, r) \<Rightarrow> (s # ss, r)))"
| "collector_loop writeStats im (Cancelled now # evs) c st =
     (case CollectStats writeStats im now c st of (s, c', st') \<Rightarrow> ([s], c', st'))"

definition Collector_Start ::
  "(LoadTestSpec \<Rightarrow> Stats \<Rightarrow> 'st \<Rightarrow> 'e option \<times> 'st) \<Rightarrow> impl \<Rightarrow> Duration \<Rightarrow> collector_event list \<Rightarrow> Collector
    \<Rightarrow> 'st option \<Rightarrow> (unit, Stats list \<times> Collector \<times> 'st option) outcome" where
  "Collector_Start writeStats im statsInterval evs c st =
     (if sint statsInterval \<le> 0 then Panic else Return (collector_loop writeStats im evs c st))"

definition GetHistory ::
  "(LoadTestSpec \<Rightarrow> int \<Rightarrow> Time option \<Rightarrow> 'st \<Rightarrow> 'e + StatsEntry list) \<Rightarrow> int \<Rightarrow> Collector
    \<Rightarrow> 'st option \<Rightarrow> Stats list" where
  "GetHistory getStats limit c storage =
     (case (storage, co_loadTestSpec c) of
        (Some st, Some spec) \<Rightarrow>
          (if co_currentLoadTestSpecHash c = [] then []
           else (case getStats spec limit None st of
                   Inl e \<Rightarrow> []
                 | Inr entries \<Rightarrow> map se_Stats entries))
      | _ \<Rightarrow> [])"

definition failure_stats :: "Time \<Rightarrow> go_error \<Rightarrow> Stats" where
  "failure_stats now err = zero_Stats\<lparr>st_Timestamp := now, st_Errors := [Some err]\<rparr>"

definition WriteFailure ::
  "(LoadTestSpec \<Rightarrow> Stats \<Rightarrow> 'st \<Rightarrow> 'e option \<times> 'st) \<Rightarrow> Time \<Rightarrow> go_error \<Rightarrow> Collector \<Rightarrow> 'st option
    \<Rightarrow> 'st option" where
  "WriteFailure writeFailure now err c storage =
     (case (storage, co_loadTestSpec c) of
        (Some st, Some spec) \<Rightarrow>
          (if co_currentLoadTestSpecHash c \<noteq> []
           then Some (snd (writeFailure spec (failure_stats now err) st)) else storage)
      | _ \<Rightarrow> storage)"

section \<open>Ramp-up status\<close>

text \<open>\<open>fmt.Sprintf("%.2f", x)\<close>: the exact value rounded to hundredths, ties to even.\<close>

definition show_fixed2 :: "rat \<Rightarrow> string" where
  "show_fixed2 r =
     (let q = round_even (\<bar>r\<bar> * 100)
      in (if r < 0 then ''-'' else []) @ show_int (q div 100) @ ''.''
         @ [digit (nat (q mod 100) div 10), digit (nat (q mod 100) mod 10)])"

definition FormatLatency :: "Duration \<Rightarrow> string" where
  "FormatLatency d =
     (case fdiv (float_of_int (sint d)) (float_of_int (sint Millisecond)) of
        Fin r \<Rightarrow> show_fixed2 r | _ \<Rightarrow> [])"

definition SetRampUpStatus :: "bool \<Rightarrow> float64 \<Rightarrow> Duration \<Rightarrow> Collector \<Rightarrow> Collector" where
  "SetRampUpStatus active currentProgress timeRemaining c =
     c\<lparr>co_rampUpStats := \<lparr>ru_IsActive = active, ru_Progress = currentProgress,
        ru_TimeRemaining = FormatLatency timeRemaining\<rparr>\<rparr>"

section \<open>The error log\<close>

lemma errors_size_simps [simp]:
  "errors_size [] = 0"
  "errors_size (e # es) = int (length (err_text e)) + errors_size es"
  "errors_size (xs @ ys) = errors_size xs + errors_size ys"
  by (simp_all add: errors_size_def)

lemma errors_size_nonneg [simp]: "0 \<le> errors_size es"
  by (induction es) simp_all

text \<open>The loop removes the shortest prefix that makes room, and everything if nothing does.\<close>

lemma evict_drop:
  "\<exists>k \<le> length es. evict mb n (errors_size es) es = drop k es
     \<and> (k < length es \<longrightarrow> errors_size (drop k es) + n \<le> mb)
     \<and> (\<forall>j < k. mb < errors_size (drop j es) + n)"
proof (induction es)
  case (Cons e es)
  show ?case
  proof (cases "mb < errors_size (e # es) + n")
    case False
    then show ?thesis by (intro exI [of _ 0]) auto
  next
    case True
    from Cons obtain k where k: "k \<le> length es" "evict mb n (errors_size es) es = drop k es"
      "k < length es \<longrightarrow> errors_size (drop k es) + n \<le> mb"
      "\<forall>j < k. mb < errors_size (drop j es) + n" by blast
    have "mb < errors_size (drop j (e # es)) + n" if "j < Suc k" for j
      using that True k(4) by (cases j) auto
    with True k(1-3) show ?thesis by (intro exI [of _ "Suc k"]) auto
  qed
qed simp

lemma evict_suffix: "suffix (evict mb n (errors_size es) es) es"
  using evict_drop [of es mb n] by (auto simp: suffix_drop)

lemma evict_fits:
  "evict mb n (errors_size es) es = [] \<or> errors_size (evict mb n (errors_size es) es) + n \<le> mb"
  using evict_drop [of es mb n] by (auto simp: not_less)

lemma recordError_Return_iff:
  "(\<exists>c'. recordError err c = Return c') \<longleftrightarrow>
     (\<exists>spec. co_loadTestSpec c = Some spec
        \<and> (co_errors c \<noteq> [] \<or> 0 < sint (ll_MaxLines (lts_LogLimits spec))))"
  by (auto simp: recordError_def Let_def split: option.splits)

lemma recordError_Panic_iff:
  "recordError err c = Panic \<longleftrightarrow>
     (case co_loadTestSpec c of None \<Rightarrow> True
      | Some spec \<Rightarrow> co_errors c = [] \<and> sint (ll_MaxLines (lts_LogLimits spec)) \<le> 0)"
  by (auto simp: recordError_def Let_def split: option.splits)

lemma recordError_frame:
  "recordError err c = Return c' \<Longrightarrow> c' = c\<lparr>co_errors := co_errors c'\<rparr>"
  by (auto simp: recordError_def Let_def split: option.splits if_splits)

text \<open>The errors that stay after the line limit made room for one more.\<close>

definition below_limit :: "int \<Rightarrow> go_error list \<Rightarrow> go_error list" where
  "below_limit maxLines es = (if maxLines \<le> int (length es) then tl es else es)"

lemma below_limit_suffix: "suffix (below_limit n es) es"
  by (simp add: below_limit_def suffix_tl)

lemma below_limit_length: "0 < n \<Longrightarrow> int (length es) \<le> n \<Longrightarrow> int (length (below_limit n es)) + 1 \<le> n"
  by (auto simp: below_limit_def)

lemma recordError_errors:
  assumes "recordError err c = Return c'" and "co_loadTestSpec c = Some spec"
  shows "co_errors c' =
    (let es = below_limit (sint (ll_MaxLines (lts_LogLimits spec))) (co_errors c)
     in evict (sint (ll_MaxBytes (lts_LogLimits spec))) (int (length (err_text err))) (errors_size es) es @ [err])"
  using assms by (auto simp: recordError_def Let_def below_limit_def split: if_splits)

lemma recordError_spec:
  "recordError err c = Return c' \<Longrightarrow> \<exists>spec. co_loadTestSpec c = Some spec \<and> co_loadTestSpec c' = Some spec"
  by (auto simp: recordError_def Let_def split: option.splits if_splits)

lemma recordError_keeps_suffix:
  assumes "recordError err c = Return c'"
  shows "\<exists>kept. suffix kept (co_errors c) \<and> co_errors c' = kept @ [err]"
proof -
  obtain spec where spec: "co_loadTestSpec c = Some spec" using recordError_spec [OF assms] by auto
  show ?thesis
    unfolding recordError_errors [OF assms spec] Let_def
    by (rule exI, rule conjI [OF _ refl], rule suffix_order.trans [OF evict_suffix below_limit_suffix])
qed

lemma suffix_length_le: "suffix xs ys \<Longrightarrow> length xs \<le> length ys"
  by (auto simp: suffix_def)

text \<open>The log stays within its line limit, and within its byte limit unless it is the new error alone.\<close>

lemma recordError_limits:
  assumes r: "recordError err c = Return c'" and spec: "co_loadTestSpec c = Some spec"
    and len: "int (length (co_errors c)) \<le> sint (ll_MaxLines (lts_LogLimits spec))"
  shows "int (length (co_errors c')) \<le> sint (ll_MaxLines (lts_LogLimits spec))"
    and "co_errors c' = [err] \<or> errors_size (co_errors c') \<le> sint (ll_MaxBytes (lts_LogLimits spec))"
proof -
  let ?ml = "sint (ll_MaxLines (lts_LogLimits spec))" and ?mb = "sint (ll_MaxBytes (lts_LogLimits spec))"
  let ?es = "below_limit ?ml (co_errors c)" and ?n = "int (length (err_text err))"
  have c': "co_errors c' = evict ?mb ?n (errors_size ?es) ?es @ [err]"
    using recordError_errors [OF r spec] by (simp add: Let_def)
  have "0 < ?ml" using recordError_Return_iff [of err c] r spec len by (cases "co_errors c") auto
  from below_limit_length [OF this len] suffix_length_le [OF evict_suffix [of ?mb ?n ?es]]
  show "int (length (co_errors c')) \<le> ?ml" by (simp add: c')
  show "co_errors c' = [err] \<or> errors_size (co_errors c') \<le> ?mb"
    using evict_fits [of ?mb ?n ?es] by (auto simp: c')
qed

section \<open>The latency samples\<close>

lemma push_latency_last_n: "push_latency cap xs x = last_n cap (xs @ [x])"
  by (simp add: push_latency_def last_n_def Let_def)

interpretation latencies: bounded_log push_latency
  by unfold_locales (rule push_latency_last_n)

definition samples_ok :: "Collector \<Rightarrow> bool" where
  "samples_ok c \<longleftrightarrow> 0 < sint (co_maxLatencySamples c) \<and> sint (co_maxLatencySamples c) \<le> 10000
     \<and> int (length (co_latencies c)) \<le> sint (co_maxLatencySamples c)"

lemma RecordLatency_samples_ok: "samples_ok c \<Longrightarrow> samples_ok (RecordLatency l c)"
  using latencies.push_length [of "nat (sint (co_maxLatencySamples c))" "co_latencies c" l]
  by (simp add: samples_ok_def RecordLatency_def le_nat_iff)

lemma SetConfig_samples:
  "0 < sint (co_maxLatencySamples (SetConfig digest now spec c))
   \<and> sint (co_maxLatencySamples (SetConfig digest now spec c)) \<le> 10000"
proof -
  let ?m = "ll_MaxLines (lts_LogLimits spec)"
  have "sint (scast ?m * 10 :: int64) = sint ?m * 10" if "0 < sint ?m"
  proof -
    have "sint ?m * 10 < 9223372036854775808" using sint32_upper [of ?m] by linarith
    with that show ?thesis by (subst sint_mult_64) simp_all
  qed
  then show ?thesis by (simp add: SetConfig_def)
qed

end
