(* ===== verification/Latency_Summary.thy ===== *)
theory Latency_Summary
  imports Collector
begin

text \<open>
  Correctness of the latency summary (\<open>calculateLatencyStats\<close> of
  \<open>internal/stats/collector.go\<close>): the index of the 99th percentile computed in \<open>float64\<close>
  equals the integer quotient for every number of samples the collector can hold, and the
  five numbers are the minimum, maximum, truncated mean, order statistic and count of the
  samples.
\<close>

section \<open>The index of the 99th percentile\<close>

definition c99 :: rat where
  "c99 = 8917127262193582 / 9007199254740992"

lemma fl_99_percent: "fl (99 / 100) = Fin c99"
proof -
  have "fl (99 / 100) = Fin (of_int 8917127262193582 * pow2 (- 1 - 52))"
    by (rule fl_eval [where e = "- 1"], simp_all, rule round_even_near) simp
  then show ?thesis by (simp add: c99_def)
qed

definition p99_product :: "nat \<Rightarrow> rat" where
  "p99_product n = of_nat n * c99"

lemma p99_product_bounds:
  assumes "0 < n" and "n \<le> 10000"
  shows "1 / 2 < p99_product n" and "p99_product n < 10000"
    and "99 * of_nat n / 100 - p99_product n < 1 / 1000" and "p99_product n \<le> 99 * of_nat n / 100"
    and "99 * of_nat n / 100 - p99_product n < p99_product n * pow2 (- 54)"
proof -
  have n: "(1 :: rat) \<le> of_nat n" "of_nat n \<le> (10000 :: rat)" using assms by simp_all
  then show "1 / 2 < p99_product n" "p99_product n < 10000"
    "99 * of_nat n / 100 - p99_product n < 1 / 1000" "p99_product n \<le> 99 * of_nat n / 100"
    "99 * of_nat n / 100 - p99_product n < p99_product n * pow2 (- 54)"
    by (simp_all add: p99_product_def c99_def)
qed

lemma p99_product_error:
  assumes "0 < n" and "n \<le> 10000"
  shows "\<bar>round_rat (p99_product n) - p99_product n\<bar> < 1 / 1000"
proof -
  note b = p99_product_bounds [OF assms]
  have "pow2 (- 1022) \<le> pow2 (- 1)" by (rule pow2_mono) simp
  then have "pow2 (- 1022) \<le> p99_product n" using b(1) by simp
  from round_rat_relative [OF this]
  have "\<bar>round_rat (p99_product n) - p99_product n\<bar> \<le> p99_product n * pow2 (- 53)" .
  also have "\<dots> < 1 / 1000" using b(2) by simp
  finally show ?thesis .
qed

lemma p99_product_floor:
  assumes n: "0 < n" "n \<le> 10000"
  shows "\<lfloor>round_rat (p99_product n)\<rfloor> = int (99 * n div 100)"
proof (cases "100 dvd n")
  case True
  note b = p99_product_bounds [OF n]
  from True obtain k where k: "n = 100 * k" by auto
  have "p99_product n < pow2 53" using b(2) by simp
  moreover have "99 * of_nat n / 100 = (of_int (int (99 * k)) :: rat)" by (simp add: k)
  ultimately have "round_rat (p99_product n) = of_int (int (99 * k))"
    using b by (intro round_rat_near_int) simp_all
  then have "\<lfloor>round_rat (p99_product n)\<rfloor> = int (99 * k)" by (simp only: floor_of_int)
  then show ?thesis by (simp add: k)
next
  case False
  note b = p99_product_bounds [OF n] and e = p99_product_error [OF n]
  obtain m r where m: "m = 99 * n div 100" and r: "r = 99 * n mod 100" by simp
  have "coprime (100 :: nat) 99" by (simp add: coprime_iff_gcd_eq_1 gcd_nat.simps)
  then have "\<not> 100 dvd 99 * n" using False by (simp add: coprime_dvd_mult_right_iff)
  then have "r \<noteq> 0" and "r < 100" by (simp_all add: r dvd_eq_mod_eq_0)
  then have "(1 :: rat) \<le> of_nat r" "of_nat r \<le> (99 :: rat)" by simp_all
  moreover have "99 * n = 100 * m + r" by (simp only: m r mult_div_mod_eq)
  then have "(of_nat (99 * n) :: rat) = of_nat (100 * m + r)" by (rule arg_cong)
  then have "(99 * of_nat n / 100 :: rat) = of_nat m + of_nat r / 100" by simp
  ultimately have "of_nat m \<le> round_rat (p99_product n)" and "round_rat (p99_product n) < of_nat m + 1"
    using b(3,4) e by linarith+
  then have "\<lfloor>round_rat (p99_product n)\<rfloor> = int m" by (simp add: floor_eq_iff)
  then show ?thesis by (simp only: m)
qed

text \<open>The guard against an index past the end never fires.\<close>

lemma p99Index_eq:
  assumes "0 < n" and "n \<le> 10000"
  shows "p99Index im n = 99 * n div 100"
proof -
  note b = p99_product_bounds [OF assms]
  let ?r = "round_rat (p99_product n)"
  have abs: "\<bar>p99_product n\<bar> \<le> pow2 53" using b by simp
  have "float_of_int (int n) = Fin (of_int (int n))"
    by (rule float_of_int_exact) (use assms in simp)
  then have "float_of_int (int n) * fl (99 / 100) = Fin ?r"
    using fl_finite [OF abs] by (simp add: times_float64_def fl_99_percent p99_product_def)
  moreover have "0 \<le> ?r" using round_rat_mono [of 0 "p99_product n"] b(1) by simp
  then have "trunc_rat ?r = int (99 * n div 100)"
    using p99_product_floor [OF assms] by (simp add: trunc_rat_def)
  moreover have m: "99 * n div 100 < 10000" using div_le_mono [of "99 * n" "99 * 10000" 100] assms by simp
  ultimately have "to_int64 im (float_of_int (int n) * fl (99 / 100)) = word_of_int (int (99 * n div 100))"
    by simp
  moreover have "sint (word_of_int (int (99 * n div 100)) :: int64) = int (99 * n div 100)"
    by (rule sint_of_int_64) (use m in linarith)+
  ultimately have "sint (to_int64 im (float_of_int (int n) * fl (99 / 100))) = int (99 * n div 100)"
    by simp
  moreover have "\<not> int n \<le> int (99 * n div 100)" using assms by simp
  ultimately show ?thesis unfolding p99Index_def Let_def by simp
qed

lemma p99Index_less: "0 < n \<Longrightarrow> n \<le> 10000 \<Longrightarrow> p99Index im n < n"
  by (simp add: p99Index_eq)

section \<open>The summary\<close>

lemma sort_key_sint_sorted: "sorted (map sint (sort_key sint (xs :: Duration list)))"
  by simp

text \<open>Durations whose sum over the kept samples fits 64 bits: at most about six days each.\<close>

definition plausible_latency :: "Duration \<Rightarrow> bool" where
  "plausible_latency d \<longleftrightarrow> 0 \<le> sint d \<and> sint d < 562949953421312"

lemma sint_sum_list:
  assumes "\<forall>d \<in> set ds. plausible_latency d" and "length ds \<le> 10000"
  shows "sint (sum_list ds) = sum_list (map sint ds)
    \<and> 0 \<le> sum_list (map sint ds) \<and> sum_list (map sint ds) \<le> 562949953421312 * int (length ds)"
  using assms
proof (induction ds)
  case (Cons d ds)
  then have IH: "sint (sum_list ds) = sum_list (map sint ds)" "0 \<le> sum_list (map sint ds)"
    "sum_list (map sint ds) \<le> 562949953421312 * int (length ds)" by simp_all
  have d: "0 \<le> sint d" "sint d < 562949953421312" using Cons.prems by (simp_all add: plausible_latency_def)
  have "int (length ds) \<le> 9999" using Cons.prems by simp
  then have "sint d + sum_list (map sint ds) < 9223372036854775808" using d IH by linarith
  then have "sint (sum_list (d # ds)) = sint d + sum_list (map sint ds)"
    using d IH by (simp add: sint_add_64)
  with IH d show ?case by simp
qed simp

lemma sum_list_bounds:
  fixes f :: "'a \<Rightarrow> int"
  assumes "\<forall>x \<in> set xs. lo \<le> f x \<and> f x \<le> hi"
  shows "lo * int (length xs) \<le> sum_list (map f xs) \<and> sum_list (map f xs) \<le> hi * int (length xs)"
  using assms by (induction xs) (auto simp: algebra_simps)

text \<open>What the numbers other than the mean say of the samples they summarise.\<close>

definition summarises :: "LatencyStats \<Rightarrow> Duration list \<Rightarrow> bool" where
  "summarises l ds \<longleftrightarrow>
     la_Min l \<in> set ds \<and> (\<forall>d \<in> set ds. sint (la_Min l) \<le> sint d)
   \<and> la_Max l \<in> set ds \<and> (\<forall>d \<in> set ds. sint d \<le> sint (la_Max l))
   \<and> la_P99 l \<in> set ds
   \<and> 99 * length ds div 100 < length (filter (\<lambda>d. sint d \<le> sint (la_P99 l)) ds)
   \<and> length (filter (\<lambda>d. sint d < sint (la_P99 l)) ds) \<le> 99 * length ds div 100
   \<and> sint (la_Count l) = int (length ds)"

lemma length_filter_sort_key: "length (filter P (sort_key f xs)) = length (filter P xs)"
  by (metis mset_filter mset_sort size_mset)

lemma sorted_index_counts:
  assumes "sorted (map f l)" and "i < length l"
  shows "i < length (filter (\<lambda>d. f d \<le> f (l ! i)) l)"
    and "length (filter (\<lambda>d. f d < f (l ! i)) l) \<le> i"
proof -
  have le: "f (l ! j) \<le> f (l ! k)" if "j \<le> k" "k < length l" for j k
    using assms(1) that sorted_nth_mono [of "map f l" j k] by simp
  have split: "filter P l = filter P (take k l) @ filter P (drop k l)" for P k
    by (simp flip: filter_append)
  have "filter (\<lambda>d. f d \<le> f (l ! i)) (take (Suc i) l) = take (Suc i) l"
    using assms(2) le by (auto simp: filter_id_conv in_set_conv_nth)
  then show "i < length (filter (\<lambda>d. f d \<le> f (l ! i)) l)"
    using assms(2) by (simp add: split [of _ "Suc i"])
  have "filter (\<lambda>d. f d < f (l ! i)) (drop i l) = []"
    using le by (auto simp: filter_empty_conv in_set_conv_nth not_less)
  then show "length (filter (\<lambda>d. f d < f (l ! i)) l) \<le> i"
    using assms(2) length_filter_le [of "\<lambda>d. f d < f (l ! i)" "take i l"] by (simp add: split [of _ i])
qed

lemma calculateLatencyStats_summarises_lemma:
  assumes ne: "ds \<noteq> []" and len: "length ds \<le> 10000"
  shows "summarises (calculateLatencyStats im ds) ds"
proof -
  let ?l = "sort_key sint ds" and ?n = "length ds"
  have n: "0 < ?n" using ne by simp
  have sorted: "sorted (map sint ?l)" by simp
  have lel: "sint (?l ! j) \<le> sint (?l ! k)" if "j \<le> k" "k < ?n" for j k
    using sorted_nth_mono [OF sorted that(1)] that by simp
  have bounds: "sint (?l ! 0) \<le> sint d \<and> sint d \<le> sint (?l ! (?n - 1))" if d: "d \<in> set ds" for d
  proof -
    from d have "d \<in> set ?l" by simp
    then obtain j where "j < ?n" "d = ?l ! j" by (auto simp only: in_set_conv_nth length_sort)
    then show ?thesis using lel [of 0 j] lel [of j "?n - 1"] by auto
  qed
  have mem: "?l ! j \<in> set ds" if "j < ?n" for j
    using that nth_mem [of j ?l] by simp
  note i = p99Index_less [OF n len, of im] and cnt = sorted_index_counts [OF sorted, of "p99Index im ?n"]
  show ?thesis
    unfolding summarises_def
    using ne bounds mem [of 0] mem [of "?n - 1"] mem [OF i] cnt i n len p99Index_eq [OF n len, of im]
    by (simp add: calculateLatencyStats_def Let_def length_filter_sort_key sint_of_nat_64)
qed

lemma calculateLatencyStats_mean_lemma:
  assumes ne: "ds \<noteq> []" and len: "length ds \<le> 10000" and small: "\<forall>d \<in> set ds. plausible_latency d"
  shows "sint (la_Mean (calculateLatencyStats im ds)) = sum_list (map sint ds) div int (length ds)"
proof -
  let ?l = "sort_key sint ds" and ?n = "length ds"
  have n: "0 < ?n" using ne by simp
  have "sint (sum_list ?l) = sum_list (map sint ?l)" and nonneg: "0 \<le> sum_list (map sint ?l)"
    using sint_sum_list [of ?l] small len by simp_all
  moreover have "sum_list (map sint ?l) = sum_list (map sint ds)"
    by (rule sum_mset_sum_list [symmetric, THEN trans]) (simp add: sum_mset_sum_list [symmetric])
  moreover have "sint (word_of_nat ?n :: int64) = int ?n" using len by (simp add: sint_of_nat_64)
  ultimately have mean: "sint (quot64 (sum_list ?l) (word_of_nat ?n)) = sum_list (map sint ds) div int ?n"
    using n by (simp add: sint_quot64_pos)
  then show ?thesis using ne by (simp add: calculateLatencyStats_def Let_def)
qed

end
