(* ===== verification/Stats_Store.thy ===== *)
theory Stats_Store
  imports Collector
begin

text \<open>
  The part of the interface \<open>Storage\<close> (\<open>internal/stats/storage.go\<close>) the collector calls, as a
  contract: a store keeps one log of entries per configuration hash, a write appends to the
  log of its spec and drops what exceeds the capacity whether or not it reports an error, and
  a read returns the newest entries of that log.  The collector's history is proved from the
  contract alone.
\<close>

definition stats_entry :: "string \<Rightarrow> Stats \<Rightarrow> StatsEntry" where
  "stats_entry h s = \<lparr>se_ConfigHash = h, se_Timestamp = st_Timestamp s, se_Stats = s\<rparr>"

lemma se_Stats_entry [simp]: "se_Stats (stats_entry h s) = s"
  by (simp add: stats_entry_def)

text \<open>The newest \<open>limit\<close> elements; a limit that is not positive means all.\<close>

definition newest :: "int \<Rightarrow> 'a list \<Rightarrow> 'a list" where
  "newest limit xs = (if 0 < limit then last_n (nat limit) xs else xs)"

lemma map_newest: "map f (newest limit xs) = newest limit (map f xs)"
  by (simp add: newest_def map_last_n)

definition keeps_spec :: "(Collector \<Rightarrow> Collector) \<Rightarrow> bool" where
  "keeps_spec f \<longleftrightarrow> (\<forall>c. co_loadTestSpec (f c) = co_loadTestSpec c
     \<and> co_currentLoadTestSpecHash (f c) = co_currentLoadTestSpecHash c)"

locale stats_store =
  fixes hash :: "LoadTestSpec \<Rightarrow> string"
    and writeStats :: "LoadTestSpec \<Rightarrow> Stats \<Rightarrow> 'st \<Rightarrow> 'e option \<times> 'st"
    and getStats :: "LoadTestSpec \<Rightarrow> int \<Rightarrow> Time option \<Rightarrow> 'st \<Rightarrow> 'e + StatsEntry list"
    and log :: "'st \<Rightarrow> string \<Rightarrow> StatsEntry list"
    and capacity :: "'st \<Rightarrow> nat"
  assumes write_log: "log (snd (writeStats spec s st)) =
      (log st)(hash spec := last_n (capacity st) (log st (hash spec) @ [stats_entry (hash spec) s]))"
    and write_capacity: "capacity (snd (writeStats spec s st)) = capacity st"
    and get_log: "getStats spec limit None st = Inr (newest limit (log st (hash spec)))"
begin

text \<open>A collection of a configured collector is the newest entry of its history.\<close>

lemma collect_then_history:
  assumes "co_loadTestSpec c = Some spec" and "co_currentLoadTestSpecHash c \<noteq> []"
    and "CollectStats writeStats im now c (Some st) = (s, c', st')"
  shows "GetHistory getStats limit c' st' =
    newest limit (last_n (capacity st) (map se_Stats (log st (hash spec)) @ [s]))"
proof -
  have "c' = c\<lparr>co_latencies := [], co_errors := [], co_lastStatsTime := now\<rparr>"
    and "st' = Some (snd (writeStats spec s st))"
    using assms by (auto simp: CollectStats_def Let_def)
  then show ?thesis using assms(1,2)
    by (simp add: GetHistory_def get_log write_log map_newest map_last_n)
qed

text \<open>
  The whole loop: what it has collected follows what was there, however the other goroutines
  change the collector, as long as they leave it its spec.
\<close>

lemma loop_then_history:
  assumes "co_loadTestSpec c = Some spec" and "co_currentLoadTestSpecHash c \<noteq> []"
    and "\<forall>f. Meanwhile f \<in> set evs \<longrightarrow> keeps_spec f"
    and "collector_loop writeStats im evs c (Some st) = (ss, c', st')"
    and "length (log st (hash spec)) \<le> capacity st"
  shows "GetHistory getStats limit c' st' =
    newest limit (last_n (capacity st) (map se_Stats (log st (hash spec)) @ ss))"
  using assms
proof (induction evs arbitrary: c st ss)
  case Nil
  then show ?case by (auto simp: GetHistory_def get_log map_newest last_n_id)
next
  case (Cons ev evs)
  have keep: "\<forall>f. Meanwhile f \<in> set evs \<longrightarrow> keeps_spec f" using Cons.prems(3) by simp
  show ?case
  proof (cases ev)
    case (Meanwhile f)
    then have "co_loadTestSpec (f c) = Some spec" "co_currentLoadTestSpecHash (f c) \<noteq> []"
      using Cons.prems by (simp_all add: keeps_spec_def)
    with Meanwhile Cons.prems(4,5) show ?thesis by (intro Cons.IH [OF _ _ keep]) simp_all
  next
    case (Ticked now)
    obtain s c1 st1 where 1: "CollectStats writeStats im now c (Some st) = (s, c1, st1)" by (metis prod_cases3)
    obtain ss2 where 2: "collector_loop writeStats im evs c1 st1 = (ss2, c', st')" "ss = s # ss2"
      using Cons.prems(4) 1 Ticked by (auto split: prod.splits)
    have st1: "st1 = Some (snd (writeStats spec s st))" and c1: "co_loadTestSpec c1 = Some spec" "co_currentLoadTestSpecHash c1 \<noteq> []"
      using 1 Cons.prems(1,2) by (auto simp: CollectStats_def Let_def)
    have "GetHistory getStats limit c' st' = newest limit (last_n (capacity (snd (writeStats spec s st)))
        (map se_Stats (log (snd (writeStats spec s st)) (hash spec)) @ ss2))"
      by (rule Cons.IH [OF c1 keep]) (use 2(1) st1 in \<open>simp_all add: write_log write_capacity length_last_n\<close>)
    then show ?thesis by (simp add: write_log write_capacity map_last_n 2(2) last_n_append_last_n)
  next
    case (Cancelled now)
    obtain s c1 st1 where 1: "CollectStats writeStats im now c (Some st) = (s, c1, st1)" by (metis prod_cases3)
    with Cancelled Cons.prems(4) have "ss = [s]" "c' = c1" "st' = st1" by simp_all
    with collect_then_history [OF Cons.prems(1,2) 1] show ?thesis by simp
  qed
qed

text \<open>A collection for one configuration leaves the history of every other one alone.\<close>

lemma collect_other_history:
  assumes "co_loadTestSpec c = Some spec" and "co_currentLoadTestSpecHash c \<noteq> []"
    and "CollectStats writeStats im now c (Some st) = (s, c', Some st')"
    and "hash other \<noteq> hash spec"
  shows "getStats other limit None st' = getStats other limit None st"
proof -
  have "st' = snd (writeStats spec s st)" using assms(1-3) by (auto simp: CollectStats_def Let_def)
  then show ?thesis using assms(4) by (simp add: get_log write_log)
qed

end

end
