(* ===== verification/File_Storage.thy ===== *)
theory File_Storage
  imports Stats_Store
begin

text \<open>
  The file storage (\<open>internal/stats/file_storage.go\<close>): two caches of the newest entries per
  configuration hash, rewritten to the file as a whole after every write through a temporary
  file and a rename.  The outcome of every system call that can fail, and the order in which
  Go iterates over a map, are given by an environment.  A line of the file is a JSON tree or
  text that is not JSON; \<open>text_length\<close> gives the length of a printed tree.
\<close>

section \<open>State\<close>

datatype line = Line json | Junk nat

datatype handle = OpenHandle | ClosedHandle

datatype file_error =
    OpenFailed | FileNotInitialized | CreateTempFailed | MarshalFailed | WriteFailed
  | SyncFailed | CloseTempFailed | RenameFailed | CloseOldFailed | ReopenFailed
  | TruncateFailed | CloseFailed | InvalidHandle | TokenTooLong

type_synonym cache = "string \<rightharpoonup> StatsEntry list"

record FileStorage =
  fs_disk :: "line list"
  fs_file :: "handle option"
  fs_statsCache :: cache
  fs_failuresCache :: cache
  fs_maxEntries :: nat
  fs_isStdout :: bool
  fs_stdout :: "line list"

text \<open>What the operating system and the map iteration do during one call.\<close>

record os_env =
  os_createTemp :: bool
  os_writeFail :: "nat option"
  os_sync :: bool
  os_closeTemp :: bool
  os_rename :: bool
  os_closeOld :: bool
  os_reopen :: bool
  os_truncate :: bool
  os_order :: "cache \<Rightarrow> string list"

section \<open>Caches\<close>

function trim_front :: "nat \<Rightarrow> 'a list \<Rightarrow> 'a list" where
  "trim_front n xs = (if n < length xs then trim_front n (tl xs) else xs)"
  by pat_completeness auto
termination
  by (relation "measure (\<lambda>(n, xs). length xs)") auto

declare trim_front.simps [simp del]

definition push_entry :: "nat \<Rightarrow> 'a list \<Rightarrow> 'a \<Rightarrow> 'a list" where
  "push_entry maxEntries entries entry = trim_front maxEntries (entries @ [entry])"

definition cached :: "cache \<Rightarrow> string \<Rightarrow> StatsEntry list" where
  "cached m h = (case m h of None \<Rightarrow> [] | Some es \<Rightarrow> es)"

definition addToCache :: "nat \<Rightarrow> cache \<Rightarrow> string \<Rightarrow> StatsEntry \<Rightarrow> cache" where
  "addToCache maxEntries m configHash entry =
     m(configHash \<mapsto> push_entry maxEntries (cached m configHash) entry)"

section \<open>Writing the file\<close>

definition persisted :: "string \<Rightarrow> string \<Rightarrow> StatsEntry \<Rightarrow> persistedEntry" where
  "persisted ty h e = \<lparr>pe_Type = ty, pe_ConfigHash = h, pe_Timestamp = se_Timestamp e, pe_Stats = se_Stats e\<rparr>"

text \<open>The entries of a cache in iteration order, as they are marshalled.\<close>

definition cache_entries :: "string \<Rightarrow> string list \<Rightarrow> cache \<Rightarrow> persistedEntry list" where
  "cache_entries ty order m = concat (map (\<lambda>h. map (persisted ty h) (cached m h)) order)"

fun write_lines :: "nat option \<Rightarrow> persistedEntry list \<Rightarrow> file_error + line list" where
  "write_lines k [] = Inr []"
| "write_lines k (e # es) =
     (case Marshal_persistedEntry e of
        None \<Rightarrow> Inl MarshalFailed
      | Some j \<Rightarrow>
          (if k = Some 0 then Inl WriteFailed
           else (case write_lines (map_option (\<lambda>n. n - 1) k) es of
                   Inl err \<Rightarrow> Inl err
                 | Inr ls \<Rightarrow> Inr (Line j # ls))))"

definition writeAllDataToFile :: "os_env \<Rightarrow> FileStorage \<Rightarrow> file_error + line list" where
  "writeAllDataToFile env f =
     write_lines (os_writeFail env)
       (cache_entries ''stats'' (os_order env (fs_statsCache f)) (fs_statsCache f)
        @ cache_entries ''failure'' (os_order env (fs_failuresCache f)) (fs_failuresCache f))"

text \<open>
  The temporary file is not part of the state: its content reaches the path only by the
  rename.  Closing the old handle fails when it is closed already.
\<close>

definition rewriteEntireFile :: "os_env \<Rightarrow> FileStorage \<Rightarrow> file_error option \<times> FileStorage" where
  "rewriteEntireFile env f =
     (if fs_isStdout f then (None, f)
      else (case fs_file f of
        None \<Rightarrow> (Some FileNotInitialized, f)
      | Some h \<Rightarrow>
          (if \<not> os_createTemp env then (Some CreateTempFailed, f)
           else (case writeAllDataToFile env f of
             Inl e \<Rightarrow> (Some e, f)
           | Inr content \<Rightarrow>
               (if \<not> os_sync env then (Some SyncFailed, f)
                else if \<not> os_closeTemp env then (Some CloseTempFailed, f)
                else if \<not> os_rename env then (Some RenameFailed, f)
                else (let f1 = f\<lparr>fs_disk := content\<rparr>
                      in if h = ClosedHandle \<or> \<not> os_closeOld env
                         then (Some CloseOldFailed, f1\<lparr>fs_file := Some ClosedHandle\<rparr>)
                         else if \<not> os_reopen env
                              then (Some ReopenFailed, f1\<lparr>fs_file := None\<rparr>)
                              else (None, f1\<lparr>fs_file := Some OpenHandle\<rparr>)))))))"

definition writeEntryToStdout ::
  "os_env \<Rightarrow> string \<Rightarrow> string \<Rightarrow> StatsEntry \<Rightarrow> FileStorage \<Rightarrow> file_error option \<times> FileStorage" where
  "writeEntryToStdout env entryType configHash entry f =
     (case Marshal_persistedEntry (persisted entryType configHash entry) of
        None \<Rightarrow> (Some MarshalFailed, f)
      | Some j \<Rightarrow>
          (if fs_file f = None then (Some InvalidHandle, f)
           else if os_writeFail env = Some 0 then (Some WriteFailed, f)
           else (None, f\<lparr>fs_stdout := fs_stdout f @ [Line j]\<rparr>)))"

definition FileStorage_WriteStats ::
  "(json \<Rightarrow> string) \<Rightarrow> os_env \<Rightarrow> LoadTestSpec \<Rightarrow> Stats \<Rightarrow> FileStorage \<Rightarrow> file_error option \<times> FileStorage" where
  "FileStorage_WriteStats digest env spec stats f =
     (let configHash = LoadTestSpec_Hash digest spec;
          entry = stats_entry configHash stats;
          f1 = f\<lparr>fs_statsCache := addToCache (fs_maxEntries f) (fs_statsCache f) configHash entry\<rparr>
      in if fs_isStdout f then writeEntryToStdout env ''stats'' configHash entry f1
         else rewriteEntireFile env f1)"

definition FileStorage_WriteFailure ::
  "(json \<Rightarrow> string) \<Rightarrow> os_env \<Rightarrow> LoadTestSpec \<Rightarrow> Stats \<Rightarrow> FileStorage \<Rightarrow> file_error option \<times> FileStorage" where
  "FileStorage_WriteFailure digest env spec stats f =
     (let configHash = LoadTestSpec_Hash digest spec;
          entry = stats_entry configHash stats;
          f1 = f\<lparr>fs_failuresCache := addToCache (fs_maxEntries f) (fs_failuresCache f) configHash entry\<rparr>
      in if fs_isStdout f then writeEntryToStdout env ''failure'' configHash entry f1
         else rewriteEntireFile env f1)"

section \<open>Reading\<close>

definition select_entries :: "cache \<Rightarrow> string \<Rightarrow> int \<Rightarrow> Time option \<Rightarrow> StatsEntry list" where
  "select_entries m configHash limit since =
     (case m configHash of
        None \<Rightarrow> []
      | Some entries \<Rightarrow>
          (let filtered = filter (\<lambda>e. \<not> (case since of None \<Rightarrow> False | Some t \<Rightarrow> se_Timestamp e < t)) entries
           in if 0 < limit \<and> limit < int (length filtered)
              then drop (nat (int (length filtered) - limit)) filtered else filtered))"

definition FileStorage_GetStats ::
  "(json \<Rightarrow> string) \<Rightarrow> LoadTestSpec \<Rightarrow> int \<Rightarrow> Time option \<Rightarrow> FileStorage \<Rightarrow> file_error + StatsEntry list" where
  "FileStorage_GetStats digest spec limit since f =
     Inr (select_entries (fs_statsCache f) (LoadTestSpec_Hash digest spec) limit since)"

definition FileStorage_GetFailures ::
  "(json \<Rightarrow> string) \<Rightarrow> LoadTestSpec \<Rightarrow> int \<Rightarrow> Time option \<Rightarrow> FileStorage \<Rightarrow> file_error + StatsEntry list" where
  "FileStorage_GetFailures digest spec limit since f =
     Inr (select_entries (fs_failuresCache f) (LoadTestSpec_Hash digest spec) limit since)"

section \<open>Opening, closing, clearing\<close>

text \<open>The scanner's buffer holds 64 KiB; a longer line ends the scan with an error.\<close>

definition too_long :: "(json \<Rightarrow> nat) \<Rightarrow> line \<Rightarrow> bool" where
  "too_long text_length l = (65536 \<le> (case l of Line j \<Rightarrow> text_length j | Junk n \<Rightarrow> n))"

definition load_entry :: "persistedEntry \<Rightarrow> FileStorage \<Rightarrow> FileStorage" where
  "load_entry e f =
     (let entry = \<lparr>se_ConfigHash = pe_ConfigHash e, se_Timestamp = pe_Timestamp e, se_Stats = pe_Stats e\<rparr>
      in if pe_Type e = ''stats''
         then f\<lparr>fs_statsCache := addToCache (fs_maxEntries f) (fs_statsCache f) (pe_ConfigHash e) entry\<rparr>
         else if pe_Type e = ''failure''
         then f\<lparr>fs_failuresCache := addToCache (fs_maxEntries f) (fs_failuresCache f) (pe_ConfigHash e) entry\<rparr>
         else f)"

definition load_line :: "line \<Rightarrow> FileStorage \<Rightarrow> FileStorage" where
  "load_line l f =
     (case l of
        Junk n \<Rightarrow> f
      | Line j \<Rightarrow> (case Unmarshal_persistedEntry j of None \<Rightarrow> f | Some e \<Rightarrow> load_entry e f))"

fun loadFromFile :: "(json \<Rightarrow> nat) \<Rightarrow> line list \<Rightarrow> FileStorage \<Rightarrow> file_error option \<times> FileStorage" where
  "loadFromFile text_length [] f = (None, f)"
| "loadFromFile text_length (l # ls) f =
     (if too_long text_length l then (Some TokenTooLong, f)
      else loadFromFile text_length ls (load_line l f))"

text \<open>
  \<open>sameAsStdout\<close> is the outcome of the two \<open>Stat\<close> calls; \<open>content\<close> is what the file holds
  when it is opened (nothing when it is created); \<open>ok\<close> says whether opening succeeds.
\<close>

definition NewFileStorage ::
  "(json \<Rightarrow> nat) \<Rightarrow> bool \<Rightarrow> bool \<Rightarrow> line list \<Rightarrow> file_error + FileStorage" where
  "NewFileStorage text_length sameAsStdout ok content =
     (let f = \<lparr>fs_disk = content, fs_file = None, fs_statsCache = Map.empty,
               fs_failuresCache = Map.empty, fs_maxEntries = 10, fs_isStdout = sameAsStdout,
               fs_stdout = []\<rparr>
      in if sameAsStdout then Inr (f\<lparr>fs_file := Some OpenHandle\<rparr>)
         else if \<not> ok then Inl OpenFailed
         else (case loadFromFile text_length content (f\<lparr>fs_file := Some OpenHandle\<rparr>) of
                 (Some e, _) \<Rightarrow> Inl e
               | (None, f1) \<Rightarrow> Inr f1))"

definition FileStorage_Close :: "bool \<Rightarrow> FileStorage \<Rightarrow> file_error option \<times> FileStorage" where
  "FileStorage_Close closeOk f =
     (if fs_isStdout f then (None, f\<lparr>fs_file := None\<rparr>)
      else (case fs_file f of
              None \<Rightarrow> (None, f)
            | Some h \<Rightarrow> (if h = ClosedHandle \<or> \<not> closeOk then Some CloseFailed else None,
                         f\<lparr>fs_file := None\<rparr>)))"

text \<open>A handle that \<open>Clear\<close> closes stays in the struct when the file cannot be reopened.\<close>

definition FileStorage_Clear :: "os_env \<Rightarrow> FileStorage \<Rightarrow> file_error option \<times> FileStorage" where
  "FileStorage_Clear env f =
     (let f1 = f\<lparr>fs_statsCache := Map.empty, fs_failuresCache := Map.empty\<rparr>
      in if fs_isStdout f then (None, f1)
         else if \<not> os_truncate env
         then (Some TruncateFailed, f1\<lparr>fs_file := map_option (\<lambda>_. ClosedHandle) (fs_file f)\<rparr>)
         else (None, f1\<lparr>fs_disk := [], fs_file := Some OpenHandle\<rparr>))"

end
