(* ===== verification/File_Storage_Correct.thy ===== *)
theory File_Storage_Correct
  imports File_Storage
begin

text \<open>
  Correctness of the file storage: it provides the store contract of the collector, a write
  replaces the file atomically whatever system call fails, and a restart reads back exactly
  the entries whose errors survive JSON.
\<close>

section \<open>The store contract\<close>

lemma trim_front_last_n: "trim_front n xs = last_n n xs"
proof (induction n xs rule: trim_front.induct)
  case (1 n xs)
  show ?case
  proof (cases "n < length xs")
    case True
    then have "trim_front n xs = last_n n (tl xs)" using 1 by (subst trim_front.simps) simp
    also have "\<dots> = last_n n xs"
      using True by (cases xs) (simp_all add: last_n_def Suc_diff_le)
    finally show ?thesis .
  next
    case False
    then show ?thesis by (subst trim_front.simps) (simp add: last_n_id)
  qed
qed

lemma push_entry_last_n: "push_entry n xs x = last_n n (xs @ [x])"
  by (simp add: push_entry_def trim_front_last_n)

interpretation entries: bounded_log push_entry
  by unfold_locales (rule push_entry_last_n)

lemma cached_addToCache [simp]:
  "cached (addToCache n m h e) = (cached m)(h := last_n n (cached m h @ [e]))"
  by (rule ext) (simp add: addToCache_def cached_def push_entry_last_n)

lemma rewriteEntireFile_frame [simp]:
  "fs_statsCache (snd (rewriteEntireFile env f)) = fs_statsCache f"
  "fs_failuresCache (snd (rewriteEntireFile env f)) = fs_failuresCache f"
  "fs_maxEntries (snd (rewriteEntireFile env f)) = fs_maxEntries f"
  "fs_isStdout (snd (rewriteEntireFile env f)) = fs_isStdout f"
  by (simp_all add: rewriteEntireFile_def Let_def split: option.splits sum.splits)

lemma writeEntryToStdout_frame [simp]:
  "fs_statsCache (snd (writeEntryToStdout env ty h e f)) = fs_statsCache f"
  "fs_failuresCache (snd (writeEntryToStdout env ty h e f)) = fs_failuresCache f"
  "fs_maxEntries (snd (writeEntryToStdout env ty h e f)) = fs_maxEntries f"
  by (simp_all add: writeEntryToStdout_def split: option.splits)

lemma select_entries_eq:
  "select_entries m h limit since =
     newest limit (filter (\<lambda>e. \<not> (case since of None \<Rightarrow> False | Some t \<Rightarrow> se_Timestamp e < t)) (cached m h))"
  by (simp add: select_entries_def cached_def newest_def last_n_def nat_diff_distrib' Let_def
      split: option.split)

lemma select_entries_all: "select_entries m h limit None = newest limit (cached m h)"
  by (simp add: select_entries_eq)

interpretation file_store: stats_store "LoadTestSpec_Hash digest" "FileStorage_WriteStats digest env"
  "FileStorage_GetStats digest" "\<lambda>f. cached (fs_statsCache f)" fs_maxEntries
  for digest env
  by unfold_locales
    (simp_all add: FileStorage_WriteStats_def FileStorage_GetStats_def Let_def select_entries_all)

interpretation failure_store: stats_store "LoadTestSpec_Hash digest" "FileStorage_WriteFailure digest env"
  "FileStorage_GetFailures digest" "\<lambda>f. cached (fs_failuresCache f)" fs_maxEntries
  for digest env
  by unfold_locales
    (simp_all add: FileStorage_WriteFailure_def FileStorage_GetFailures_def Let_def select_entries_all)

section \<open>Atomic replacement\<close>

definition line_of :: "persistedEntry \<Rightarrow> line" where
  "line_of e = Line (the (Marshal_persistedEntry e))"

text \<open>The complete contents for the caches of a storage.\<close>

definition dump :: "os_env \<Rightarrow> FileStorage \<Rightarrow> persistedEntry list" where
  "dump env f =
     cache_entries ''stats'' (os_order env (fs_statsCache f)) (fs_statsCache f)
     @ cache_entries ''failure'' (os_order env (fs_failuresCache f)) (fs_failuresCache f)"

lemma write_lines_Inr:
  "write_lines k es = Inr ls \<Longrightarrow> ls = map line_of es \<and> (\<forall>e \<in> set es. marshalable (pe_Stats e))"
proof (induction k es arbitrary: ls rule: write_lines.induct)
  case (2 k e es)
  from "2.prems" obtain j ls' where j: "Marshal_persistedEntry e = Some j" and k: "k \<noteq> Some 0"
    and rest: "write_lines (map_option (\<lambda>n. n - 1) k) es = Inr ls'" and ls: "ls = Line j # ls'"
    by (simp split: option.splits if_splits sum.splits)
  from j have "marshalable (pe_Stats e)" by (simp add: Marshal_persistedEntry_def split: if_splits)
  with "2.IH" [OF j k rest] j ls show ?case by (simp add: line_of_def)
qed simp

lemma writeAllDataToFile_Inr:
  "writeAllDataToFile env f = Inr ls \<Longrightarrow>
   ls = map line_of (dump env f) \<and> (\<forall>e \<in> set (dump env f). marshalable (pe_Stats e))"
  unfolding writeAllDataToFile_def dump_def by (rule write_lines_Inr)

lemma rewriteEntireFile_disk:
  assumes "\<not> fs_isStdout f" and "rewriteEntireFile env f = (e, f')"
  shows "fs_disk f' = fs_disk f \<and> e \<noteq> None \<or> fs_disk f' = map line_of (dump env f)"
  using assms
  by (auto simp: rewriteEntireFile_def Let_def dest: writeAllDataToFile_Inr
      split: option.splits sum.splits if_splits)

lemma rewriteEntireFile_success:
  assumes "\<not> fs_isStdout f" and "rewriteEntireFile env f = (None, f')"
  shows "fs_disk f' = map line_of (dump env f) \<and> fs_file f' = Some OpenHandle
    \<and> (\<forall>e \<in> set (dump env f). marshalable (pe_Stats e))"
  using assms
  by (auto simp: rewriteEntireFile_def Let_def dest: writeAllDataToFile_Inr
      split: option.splits sum.splits if_splits)

lemma dump_cong:
  "fs_statsCache f = fs_statsCache g \<Longrightarrow> fs_failuresCache f = fs_failuresCache g \<Longrightarrow> dump env f = dump env g"
  by (simp add: dump_def)

section \<open>Reading the file back\<close>

text \<open>What is left of an entry: gone when one of its errors is, otherwise without its errors.\<close>

definition restored :: "string \<Rightarrow> StatsEntry \<Rightarrow> StatsEntry" where
  "restored h e = \<lparr>se_ConfigHash = h, se_Timestamp = se_Timestamp e,
     se_Stats = (se_Stats e)\<lparr>st_Errors := map (\<lambda>_. None) (st_Errors (se_Stats e))\<rparr>\<rparr>"

definition survivors :: "string \<Rightarrow> StatsEntry list \<Rightarrow> StatsEntry list" where
  "survivors h es = map (restored h) (filter (\<lambda>e. \<not> errors_lost (se_Stats e)) es)"

definition recovered :: "cache \<Rightarrow> cache" where
  "recovered m h = (if survivors h (cached m h) = [] then None else Some (survivors h (cached m h)))"

definition loadable :: "StatsEntry \<Rightarrow> bool" where
  "loadable e \<longleftrightarrow> marshalable (se_Stats e) \<and> stats_floats (se_Stats e)"

lemma load_line_of:
  assumes "loadable e"
  shows "load_line (line_of (persisted ty h e)) f =
    (if errors_lost (se_Stats e) then f
     else load_entry (persisted ty h (restored h e)) f)"
  using Unmarshal_Marshal_persistedEntry [of "persisted ty h e"] assms
  by (auto simp: load_line_def line_of_def loadable_def persisted_def restored_def
      Marshal_persistedEntry_def)

lemma load_entry_stats:
  "load_entry (persisted ''stats'' h (restored h e)) f =
   f\<lparr>fs_statsCache := addToCache (fs_maxEntries f) (fs_statsCache f) h (restored h e)\<rparr>"
  by (simp add: load_entry_def persisted_def restored_def)

lemma load_entry_failure:
  "load_entry (persisted ''failure'' h (restored h e)) f =
   f\<lparr>fs_failuresCache := addToCache (fs_maxEntries f) (fs_failuresCache f) h (restored h e)\<rparr>"
  by (simp add: load_entry_def persisted_def restored_def)

definition load_lines :: "line list \<Rightarrow> FileStorage \<Rightarrow> FileStorage" where
  "load_lines ls f = foldl (\<lambda>g l. load_line l g) f ls"

lemma load_lines_simps [simp]:
  "load_lines [] f = f"
  "load_lines (l # ls) f = load_lines ls (load_line l f)"
  "load_lines (ls @ ls') f = load_lines ls' (load_lines ls f)"
  by (simp_all add: load_lines_def)

lemma loadFromFile_ok:
  "\<forall>l \<in> set ls. \<not> too_long tlen l \<Longrightarrow> loadFromFile tlen ls f = (None, load_lines ls f)"
  by (induction ls arbitrary: f) simp_all

lemma loadFromFile_too_long:
  "\<exists>l \<in> set ls. too_long tlen l \<Longrightarrow> fst (loadFromFile tlen ls f) = Some TokenTooLong"
  by (induction ls arbitrary: f) auto

lemma NewFileStorage_too_long:
  assumes "\<exists>l \<in> set content. too_long tlen l"
  shows "NewFileStorage tlen False True content = Inl TokenTooLong"
proof -
  have "(case loadFromFile tlen content f of (Some e, _) \<Rightarrow> Inl e | (None, f1) \<Rightarrow> Inr f1) = Inl TokenTooLong" for f
    using loadFromFile_too_long [OF assms, of f] by (auto split: prod.split option.split)
  then show ?thesis by (simp add: NewFileStorage_def Let_def)
qed

text \<open>Adding the surviving entries of one key to a cache.\<close>

definition add_all :: "nat \<Rightarrow> cache \<Rightarrow> string \<Rightarrow> StatsEntry list \<Rightarrow> cache" where
  "add_all n m h es = foldl (\<lambda>m e. addToCache n m h e) m es"

lemma add_all_eq:
  "add_all n m h es = (if es = [] then m else m(h \<mapsto> foldl (push_entry n) (cached m h) es))"
proof (induction es arbitrary: m)
  case (Cons e es)
  then show ?case by (auto simp: add_all_def addToCache_def cached_def)
qed (simp add: add_all_def)

lemma load_group_stats:
  assumes "\<forall>e \<in> set es. loadable e"
  shows "load_lines (map line_of (map (persisted ''stats'' h) es)) f =
    f\<lparr>fs_statsCache := add_all (fs_maxEntries f) (fs_statsCache f) h (survivors h es)\<rparr>"
  using assms
  by (induction es arbitrary: f)
    (simp_all add: survivors_def add_all_def load_line_of load_entry_stats)

lemma load_group_failure:
  assumes "\<forall>e \<in> set es. loadable e"
  shows "load_lines (map line_of (map (persisted ''failure'' h) es)) f =
    f\<lparr>fs_failuresCache := add_all (fs_maxEntries f) (fs_failuresCache f) h (survivors h es)\<rparr>"
  using assms
  by (induction es arbitrary: f)
    (simp_all add: survivors_def add_all_def load_line_of load_entry_failure)

text \<open>All keys of a cache, in the order of iteration.\<close>

definition add_groups :: "nat \<Rightarrow> cache \<Rightarrow> string list \<Rightarrow> cache \<Rightarrow> cache" where
  "add_groups n m order base = foldl (\<lambda>b h. add_all n b h (survivors h (cached m h))) base order"

definition cache_loadable :: "cache \<Rightarrow> bool" where
  "cache_loadable m \<longleftrightarrow> (\<forall>h. \<forall>e \<in> set (cached m h). loadable e)"

lemma load_groups_stats:
  "cache_loadable m \<Longrightarrow>
   load_lines (map line_of (cache_entries ''stats'' order m)) f =
     f\<lparr>fs_statsCache := add_groups (fs_maxEntries f) m order (fs_statsCache f)\<rparr>"
  by (induction order arbitrary: f)
    (simp_all add: cache_entries_def add_groups_def load_group_stats cache_loadable_def del: map_map)

lemma load_groups_failure:
  "cache_loadable m \<Longrightarrow>
   load_lines (map line_of (cache_entries ''failure'' order m)) f =
     f\<lparr>fs_failuresCache := add_groups (fs_maxEntries f) m order (fs_failuresCache f)\<rparr>"
  by (induction order arbitrary: f)
    (simp_all add: cache_entries_def add_groups_def load_group_failure cache_loadable_def del: map_map)

lemma add_groups_lookup:
  assumes "distinct order" and "\<forall>h \<in> set order. b h = None" and "\<forall>h. length (cached m h) \<le> n"
  shows "add_groups n m order b h = (if h \<in> set order then recovered m h else b h)"
  using assms
proof (induction order arbitrary: b)
  case (Cons k order)
  let ?s = "survivors k (cached m k)"
  have "length ?s \<le> length (cached m k)" by (simp add: survivors_def)
  then have "length ?s \<le> n" using Cons.prems(3) by (meson order_trans)
  then have push: "foldl (push_entry n) [] ?s = ?s"
    using entries.push_all_fits [of "[]" ?s n] by simp
  have b': "add_all n b k ?s = (if ?s = [] then b else b(k \<mapsto> ?s))"
  proof -
    have "cached b k = []" using Cons.prems(2) by (simp add: cached_def)
    then show ?thesis by (simp add: add_all_eq push)
  qed
  have "add_groups n m (k # order) b h = add_groups n m order (add_all n b k ?s) h"
    by (simp add: add_groups_def)
  also have "\<dots> = (if h \<in> set order then recovered m h else add_all n b k ?s h)"
    using Cons.prems by (intro Cons.IH) (auto simp: b')
  finally show ?case using Cons.prems(1,2) by (auto simp: b' recovered_def)
qed (simp add: add_groups_def)

lemma recovered_None: "m h = None \<Longrightarrow> recovered m h = None"
  by (simp add: recovered_def survivors_def cached_def)

definition iterates :: "os_env \<Rightarrow> cache \<Rightarrow> bool" where
  "iterates env m \<longleftrightarrow> distinct (os_order env m) \<and> set (os_order env m) = dom m"

lemma add_groups_recovered:
  assumes "iterates env m" and "\<forall>h. length (cached m h) \<le> n"
  shows "add_groups n m (os_order env m) Map.empty = recovered m"
proof
  fix h
  have "h \<in> set (os_order env m) \<longleftrightarrow> m h \<noteq> None"
    using assms(1) by (simp add: iterates_def domIff)
  then show "add_groups n m (os_order env m) Map.empty h = recovered m h"
    using assms by (simp add: iterates_def add_groups_lookup recovered_None)
qed

text \<open>A storage whose caches are within bounds and hold numbers JSON can print.\<close>

definition storage_ok :: "FileStorage \<Rightarrow> bool" where
  "storage_ok f \<longleftrightarrow> fs_maxEntries f = 10
     \<and> cache_loadable (fs_statsCache f) \<and> cache_loadable (fs_failuresCache f)
     \<and> (\<forall>h. length (cached (fs_statsCache f) h) \<le> 10)
     \<and> (\<forall>h. length (cached (fs_failuresCache f) h) \<le> 10)"

lemma restart_reads_dump:
  assumes ok: "storage_ok f" and it: "iterates env (fs_statsCache f)" "iterates env (fs_failuresCache f)"
    and short: "\<forall>l \<in> set (map line_of (dump env f)). \<not> too_long tlen l"
  shows "\<exists>g. NewFileStorage tlen False True (map line_of (dump env f)) = Inr g
    \<and> fs_statsCache g = recovered (fs_statsCache f)
    \<and> fs_failuresCache g = recovered (fs_failuresCache f)"
  using ok it
  by (simp add: NewFileStorage_def Let_def loadFromFile_ok [OF short])
    (simp add: dump_def storage_ok_def load_groups_stats load_groups_failure add_groups_recovered)

lemma storage_ok_push:
  assumes "cache_loadable m" and "\<forall>h. length (cached m h) \<le> n" and "loadable e"
  shows "cache_loadable (addToCache n m h e)" and "\<forall>k. length (cached (addToCache n m h e) k) \<le> n"
  using assms set_last_n [of n "cached m h @ [e]"] by (auto simp: cache_loadable_def)

lemma FileStorage_writes_keep_ok:
  assumes "storage_ok f" and "marshalable s" and "stats_floats s"
  shows "storage_ok (snd (FileStorage_WriteStats digest env spec s f))"
    and "storage_ok (snd (FileStorage_WriteFailure digest env spec s f))"
proof -
  have "loadable (stats_entry h s)" for h using assms(2,3) by (simp add: loadable_def stats_entry_def)
  then show "storage_ok (snd (FileStorage_WriteStats digest env spec s f))"
    and "storage_ok (snd (FileStorage_WriteFailure digest env spec s f))"
    using assms(1) storage_ok_push
    by (simp_all add: storage_ok_def FileStorage_WriteStats_def FileStorage_WriteFailure_def Let_def
        del: cached_addToCache)
qed

section \<open>Well-formed storages\<close>

text \<open>
  A key of a cache has between one entry and \<open>maxEntries\<close>, each filed under its own hash.  The
  property holds of a storage however it was opened and whatever operations followed.
\<close>

definition cache_wf :: "nat \<Rightarrow> cache \<Rightarrow> bool" where
  "cache_wf n m \<longleftrightarrow>
     (\<forall>h es. m h = Some es \<longrightarrow> es \<noteq> [] \<and> length es \<le> n \<and> (\<forall>e \<in> set es. se_ConfigHash e = h))"

definition storage_wf :: "FileStorage \<Rightarrow> bool" where
  "storage_wf f \<longleftrightarrow> fs_maxEntries f = 10 \<and> cache_wf 10 (fs_statsCache f) \<and> cache_wf 10 (fs_failuresCache f)"

inductive file_step :: "(json \<Rightarrow> string) \<Rightarrow> FileStorage \<Rightarrow> FileStorage \<Rightarrow> bool" for digest where
  wrote_stats: "FileStorage_WriteStats digest env spec s f = (e, f') \<Longrightarrow> file_step digest f f'"
| wrote_failure: "FileStorage_WriteFailure digest env spec s f = (e, f') \<Longrightarrow> file_step digest f f'"
| cleared: "FileStorage_Clear env f = (e, f') \<Longrightarrow> file_step digest f f'"
| closed: "FileStorage_Close ok f = (e, f') \<Longrightarrow> file_step digest f f'"

lemma cache_wf_empty [simp]: "cache_wf n Map.empty"
  by (simp add: cache_wf_def)

lemma cached_wf:
  "cache_wf n m \<Longrightarrow> length (cached m h) \<le> n \<and> (\<forall>e \<in> set (cached m h). se_ConfigHash e = h)"
  by (cases "m h") (simp_all add: cache_wf_def cached_def)

lemma cache_wf_push:
  assumes "cache_wf n m" and "0 < n" and "se_ConfigHash e = h"
  shows "cache_wf n (addToCache n m h e)"
proof -
  have "\<forall>x \<in> set (cached m h). se_ConfigHash x = h" using cached_wf [OF assms(1)] by blast
  moreover have "last_n n (cached m h @ [e]) \<noteq> []"
    using assms(2) by (metis Suc_leI length_0_conv length_append_singleton length_last_n min_0L min_def not_less_eq_eq nat.distinct(1) zero_le)
  ultimately show ?thesis
    using assms set_last_n [of n "cached m h @ [e]"]
    by (auto simp: cache_wf_def addToCache_def push_entry_last_n length_last_n split: if_splits)
qed

lemma load_line_wf: "storage_wf f \<Longrightarrow> storage_wf (load_line l f)"
  by (simp add: load_line_def load_entry_def storage_wf_def cache_wf_push Let_def
      split: line.splits option.splits)

lemma loadFromFile_wf: "loadFromFile tlen ls f = (e, f') \<Longrightarrow> storage_wf f \<Longrightarrow> storage_wf f'"
  by (induction ls arbitrary: f) (auto simp: load_line_wf split: if_splits)

lemma NewFileStorage_wf: "NewFileStorage tlen same ok content = Inr f \<Longrightarrow> storage_wf f"
  by (auto simp: NewFileStorage_def Let_def split: if_splits prod.splits option.splits
      dest!: loadFromFile_wf) (simp_all add: storage_wf_def)

lemma file_step_wf: "file_step digest f f' \<Longrightarrow> storage_wf f \<Longrightarrow> storage_wf f'"
proof (induction rule: file_step.induct)
  case (wrote_stats env spec s f e f')
  then have "f' = snd (FileStorage_WriteStats digest env spec s f)" by simp
  with wrote_stats(2) show ?case
    by (simp add: FileStorage_WriteStats_def storage_wf_def cache_wf_push stats_entry_def Let_def)
next
  case (wrote_failure env spec s f e f')
  then have "f' = snd (FileStorage_WriteFailure digest env spec s f)" by simp
  with wrote_failure(2) show ?case
    by (simp add: FileStorage_WriteFailure_def storage_wf_def cache_wf_push stats_entry_def Let_def)
next
  case (cleared env f e f')
  then show ?case by (auto simp: FileStorage_Clear_def storage_wf_def Let_def split: if_splits)
next
  case (closed ok f e f')
  then show ?case by (auto simp: FileStorage_Close_def storage_wf_def split: if_splits option.splits)
qed

lemma file_steps_wf: "(file_step digest)\<^sup>*\<^sup>* f f' \<Longrightarrow> storage_wf f \<Longrightarrow> storage_wf f'"
  by (induction rule: rtranclp_induct) (simp_all add: file_step_wf)

lemma select_entries_wf:
  assumes "cache_wf 10 m"
  shows "length (select_entries m h limit since) \<le> (if 0 < limit then min 10 (nat limit) else 10)"
    and "e \<in> set (select_entries m h limit since) \<Longrightarrow>
      se_ConfigHash e = h \<and> (\<forall>t. since = Some t \<longrightarrow> t \<le> se_Timestamp e)"
proof -
  let ?P = "\<lambda>e. \<not> (case since of None \<Rightarrow> False | Some t \<Rightarrow> se_Timestamp e < t)"
  have "length (filter ?P (cached m h)) \<le> 10"
    using cached_wf [OF assms] length_filter_le by (metis order_trans)
  then show "length (select_entries m h limit since) \<le> (if 0 < limit then min 10 (nat limit) else 10)"
    by (simp add: select_entries_eq newest_def length_last_n min.coboundedI2)
  show "e \<in> set (select_entries m h limit since) \<Longrightarrow>
      se_ConfigHash e = h \<and> (\<forall>t. since = Some t \<longrightarrow> t \<le> se_Timestamp e)"
    using cached_wf [OF assms, of h] set_last_n [of "nat limit" "filter ?P (cached m h)"]
    by (auto simp: select_entries_eq newest_def split: if_splits)
qed

section \<open>Starting again after a write\<close>

lemma write_restart:
  assumes ok: "storage_ok f" and s: "marshalable s" "stats_floats s" and nout: "\<not> fs_isStdout f"
    and w: "w \<in> {FileStorage_WriteStats, FileStorage_WriteFailure}" "w digest env spec s f = (None, f')"
    and it: "iterates env (fs_statsCache f')" "iterates env (fs_failuresCache f')"
    and short: "\<forall>l \<in> set (fs_disk f'). \<not> too_long tlen l"
  shows "\<exists>g. NewFileStorage tlen False True (fs_disk f') = Inr g
    \<and> fs_statsCache g = recovered (fs_statsCache f') \<and> fs_failuresCache g = recovered (fs_failuresCache f')"
proof -
  have ok': "storage_ok f'" using FileStorage_writes_keep_ok [OF ok s] w by (metis insertE singletonD snd_conv)
  obtain g where g: "rewriteEntireFile env g = (None, f')" "\<not> fs_isStdout g"
    using w nout by (auto simp: FileStorage_WriteStats_def FileStorage_WriteFailure_def Let_def)
  have "dump env f' = dump env g"
    using rewriteEntireFile_frame(1,2) [of env g] g(1) by (intro dump_cong) simp_all
  then have disk: "fs_disk f' = map line_of (dump env f')" using rewriteEntireFile_success [OF g(2,1)] by simp
  show ?thesis unfolding disk by (rule restart_reads_dump [OF ok' it]) (use short disk in simp)
qed

lemma cached_recovered [simp]: "cached (recovered m) h = survivors h (cached m h)"
  by (simp add: cached_def recovered_def)

end
