(* ===== verification/Badger_Storage.thy ===== *)
theory Badger_Storage
  imports Stats_Store "HOL-Library.List_Lexorder" "HOL-Library.Char_ord"
begin

text \<open>
  The Badger storage (\<open>internal/stats/badger_storage.go\<close>).  Badger is a parameter: a record of
  the operations the code calls on a database.  A value is the JSON tree of its text.  The
  key of an entry carries its kind, the configuration hash and the time in milliseconds; a
  read scans the keys from a prefix on and decodes each.
\<close>

section \<open>Operations of the database\<close>

record 'db badger =
  bd_open :: "string \<Rightarrow> bool \<Rightarrow> 'db option"
  bd_setEntry :: "string \<Rightarrow> json \<Rightarrow> Duration \<Rightarrow> 'db \<Rightarrow> bool \<times> 'db"
  bd_seek :: "string \<Rightarrow> 'db \<Rightarrow> (string \<times> json) list"
  bd_dropAll :: "'db \<Rightarrow> bool \<times> 'db"
  bd_close :: "'db \<Rightarrow> bool \<times> 'db"
  bd_gc :: "rat \<Rightarrow> 'db \<Rightarrow> bool \<times> 'db"

datatype badger_error =
  BadgerOpenFailed | MarshalStatsFailed | SetEntryFailed | UnmarshalFailed | DropAllFailed | DbCloseFailed

definition statsDataTTL :: Duration where "statsDataTTL = 24 * (60 * Minute)"

definition failureDataTTL :: Duration where "failureDataTTL = 72 * (60 * Minute)"

text \<open>The state: the database and whether the channel that stops the collector of garbage is closed.\<close>

record 'db BadgerStorage =
  bs_db :: 'db
  bs_gcClosed :: bool

definition NewBadgerStorage :: "'db badger \<Rightarrow> string \<Rightarrow> badger_error + 'db BadgerStorage" where
  "NewBadgerStorage api path =
     (let inMemory = (path = [])
      in case bd_open api path inMemory of
           None \<Rightarrow> Inl BadgerOpenFailed
         | Some db \<Rightarrow> Inr \<lparr>bs_db = db, bs_gcClosed = False\<rparr>)"

section \<open>Writing\<close>

definition badger_key :: "string \<Rightarrow> string \<Rightarrow> int64 \<Rightarrow> string" where
  "badger_key ty hash ms = ty @ '':'' @ hash @ '':'' @ show_int (sint ms)"

definition badger_write ::
  "'db badger \<Rightarrow> string \<Rightarrow> Duration \<Rightarrow> string \<Rightarrow> Stats \<Rightarrow> 'db BadgerStorage
    \<Rightarrow> badger_error option \<times> 'db BadgerStorage" where
  "badger_write api ty ttl hash stats b =
     (let key = badger_key ty hash (UnixMilli (st_Timestamp stats))
      in case Marshal_Stats stats of
           None \<Rightarrow> (Some MarshalStatsFailed, b)
         | Some val \<Rightarrow>
             (case bd_setEntry api key val ttl (bs_db b) of
                (ok, db') \<Rightarrow> (if ok then None else Some SetEntryFailed, b\<lparr>bs_db := db'\<rparr>)))"

definition BadgerStorage_WriteStats ::
  "'db badger \<Rightarrow> (json \<Rightarrow> string) \<Rightarrow> LoadTestSpec \<Rightarrow> Stats \<Rightarrow> 'db BadgerStorage
    \<Rightarrow> badger_error option \<times> 'db BadgerStorage" where
  "BadgerStorage_WriteStats api digest spec stats b =
     badger_write api ''stats'' statsDataTTL (LoadTestSpec_Hash digest spec) stats b"

definition BadgerStorage_WriteFailure ::
  "'db badger \<Rightarrow> (json \<Rightarrow> string) \<Rightarrow> LoadTestSpec \<Rightarrow> Stats \<Rightarrow> 'db BadgerStorage
    \<Rightarrow> badger_error option \<times> 'db BadgerStorage" where
  "BadgerStorage_WriteFailure api digest spec stats b =
     badger_write api ''failure'' failureDataTTL (LoadTestSpec_Hash digest spec) stats b"

section \<open>Reading\<close>

definition badger_prefix :: "string \<Rightarrow> string \<Rightarrow> string" where
  "badger_prefix ty hash = (if hash \<noteq> [] then ty @ '':'' @ hash @ '':'' else ty @ '':'')"

text \<open>\<open>time.UnixMilli(ms)\<close>.\<close>

definition of_UnixMilli :: "int64 \<Rightarrow> Time" where
  "of_UnixMilli ms = sint ms * 1000000"

text \<open>
  The loop over the iterator: it ends at the first key outside the prefix and when \<open>cnt\<close>
  reaches a limit other than zero; a value that does not decode ends it with an error, the
  entries read so far being returned as well.
\<close>

fun badger_scan ::
  "string \<Rightarrow> int \<Rightarrow> Time option \<Rightarrow> int \<Rightarrow> (string \<times> json) list \<Rightarrow> StatsEntry list
    \<Rightarrow> StatsEntry list \<times> badger_error option" where
  "badger_scan pre limit since cnt [] acc = (acc, None)"
| "badger_scan pre limit since cnt ((key, val) # items) acc =
     (if \<not> (prefix pre key \<and> (limit = 0 \<or> cnt < limit)) then (acc, None)
      else (let parts = Split key (CHR '':'')
            in if length parts < 3 then badger_scan pre limit since cnt items acc
               else (case ParseInt (parts ! 2) of
                       None \<Rightarrow> badger_scan pre limit since cnt items acc
                     | Some unixMilli \<Rightarrow>
                         (let timestamp = of_UnixMilli unixMilli
                          in if (case since of None \<Rightarrow> False | Some t \<Rightarrow> timestamp < t)
                             then badger_scan pre limit since cnt items acc
                             else (case Unmarshal_Stats val of
                                     None \<Rightarrow> (acc, Some UnmarshalFailed)
                                   | Some s \<Rightarrow>
                                       badger_scan pre limit since (cnt + 1) items
                                         (acc @ [\<lparr>se_ConfigHash = parts ! 1,
                                                  se_Timestamp = timestamp, se_Stats = s\<rparr>]))))))"

definition badger_read ::
  "'db badger \<Rightarrow> string \<Rightarrow> string \<Rightarrow> int \<Rightarrow> Time option \<Rightarrow> 'db BadgerStorage
    \<Rightarrow> StatsEntry list \<times> badger_error option" where
  "badger_read api ty hash limit since b =
     (let pre = badger_prefix ty hash
      in badger_scan pre limit since 0 (bd_seek api pre (bs_db b)) [])"

definition BadgerStorage_GetStats ::
  "'db badger \<Rightarrow> (json \<Rightarrow> string) \<Rightarrow> LoadTestSpec \<Rightarrow> int \<Rightarrow> Time option \<Rightarrow> 'db BadgerStorage
    \<Rightarrow> StatsEntry list \<times> badger_error option" where
  "BadgerStorage_GetStats api digest spec limit since b =
     badger_read api ''stats'' (LoadTestSpec_Hash digest spec) limit since b"

definition BadgerStorage_GetFailures ::
  "'db badger \<Rightarrow> (json \<Rightarrow> string) \<Rightarrow> LoadTestSpec \<Rightarrow> int \<Rightarrow> Time option \<Rightarrow> 'db BadgerStorage
    \<Rightarrow> StatsEntry list \<times> badger_error option" where
  "BadgerStorage_GetFailures api digest spec limit since b =
     badger_read api ''failure'' (LoadTestSpec_Hash digest spec) limit since b"

section \<open>Clearing and closing\<close>

definition BadgerStorage_Clear :: "'db badger \<Rightarrow> 'db BadgerStorage \<Rightarrow> badger_error option \<times> 'db BadgerStorage" where
  "BadgerStorage_Clear api b =
     (case bd_dropAll api (bs_db b) of
        (ok, db') \<Rightarrow> (if ok then None else Some DropAllFailed, b\<lparr>bs_db := db'\<rparr>))"

text \<open>Closing a channel that is closed already panics.\<close>

definition BadgerStorage_Close ::
  "'db badger \<Rightarrow> 'db BadgerStorage \<Rightarrow> (unit, badger_error option \<times> 'db BadgerStorage) outcome" where
  "BadgerStorage_Close api b =
     (if bs_gcClosed b then Panic
      else (case bd_close api (bs_db b) of
              (ok, db') \<Rightarrow> Return (if ok then None else Some DbCloseFailed,
                                   b\<lparr>bs_db := db', bs_gcClosed := True\<rparr>)))"

section \<open>Garbage collection\<close>

text \<open>
  The goroutine of an open storage: every five minutes it collects the value log until there is
  nothing left to rewrite, and it ends when \<open>Close\<close> closes its channel.  A collection that always
  finds something would never end, so the loop is partial.
\<close>

partial_function (option) gc_again :: "'db badger \<Rightarrow> 'db \<Rightarrow> 'db option" where
  "gc_again api db =
     (case bd_gc api (1 / 2) db of (ok, db') \<Rightarrow> if ok then gc_again api db' else Some db')"

datatype gc_event = GcTick | GcCancelled

fun gc_loop :: "'db badger \<Rightarrow> gc_event list \<Rightarrow> 'db \<Rightarrow> 'db option" where
  "gc_loop api [] db = Some db"
| "gc_loop api (GcTick # evs) db = Option.bind (gc_again api db) (gc_loop api evs)"
| "gc_loop api (GcCancelled # evs) db = Some db"

section \<open>Keys\<close>

lemma Split_badger_key:
  assumes "CHR '':'' \<notin> set ty" and "CHR '':'' \<notin> set hash"
  shows "Split (badger_key ty hash ms) (CHR '':'') = [ty, hash, show_int (sint ms)]"
proof -
  have "CHR '':'' \<notin> set (show_int (sint ms))" by (auto dest: set_show_int)
  with assms show ?thesis by (simp add: badger_key_def go_string)
qed

lemma badger_key_inject:
  assumes "CHR '':'' \<notin> set ty" "CHR '':'' \<notin> set hash" "CHR '':'' \<notin> set ty'" "CHR '':'' \<notin> set hash'"
    and "badger_key ty hash ms = badger_key ty' hash' ms'"
  shows "ty = ty' \<and> hash = hash' \<and> ms = ms'"
  using Split_badger_key [OF assms(1,2), of ms] Split_badger_key [OF assms(3,4), of ms'] assms(5)
  by (simp add: word_eq_sint_iff)

lemma prefix_badger_key [simp]: "prefix (badger_prefix ty hash) (badger_key ty hash ms)"
  by (simp add: badger_prefix_def badger_key_def)

text \<open>Milliseconds of the same number of digits are ordered as their keys are.\<close>

lemma digit_less: "d < e \<Longrightarrow> e < 10 \<Longrightarrow> digit d < digit e"
  by (simp add: less_char_def of_char_digit)

lemma digits_less:
  "length (digits m) = length (digits n) \<Longrightarrow> m < n \<Longrightarrow> digits m < digits n"
proof (induction m arbitrary: n rule: digits.induct)
  case (1 m)
  show ?case
  proof (cases "m < 10")
    case True
    have n: "n < 10"
    proof (rule ccontr)
      assume "\<not> n < 10"
      then have "1 < length (digits n)" by (subst digits.simps) simp
      with 1(2) True show False by (simp add: digits.simps [of m])
    qed
    then show ?thesis using True 1(3)
      by (simp add: digits.simps [of m] digits.simps [of n] digit_less)
  next
    case False
    then have nf: "\<not> n < 10" using 1(3) by simp
    have len: "length (digits (m div 10)) = length (digits (n div 10))"
      using 1(2) False nf by (simp add: digits.simps [of m] digits.simps [of n])
    have "m div 10 < n div 10 \<or> m div 10 = n div 10 \<and> m mod 10 < n mod 10"
      using 1(3) by (metis div_le_mono div_mult_mod_eq le_neq_implies_less less_imp_le_nat nat_add_left_cancel_less)
    then show ?thesis
    proof
      assume lt: "m div 10 < n div 10"
      from 1(1) [OF False len lt] len
      have "digits (m div 10) @ [digit (m mod 10)] < digits (n div 10) @ [digit (n mod 10)]"
        by (simp add: list_less_def lexord_append_leftI lexord_sufI)
      then show ?thesis using False nf by (simp add: digits.simps [of m] digits.simps [of n])
    next
      assume "m div 10 = n div 10 \<and> m mod 10 < n mod 10"
      then show ?thesis using False nf
        by (simp add: digits.simps [of m] digits.simps [of n] list_less_def lexord_append_leftI
            digit_less [unfolded less_char_def] less_char_def of_char_digit)
    qed
  qed
qed


section \<open>Scanning\<close>

text \<open>An item that reads as an entry of a kind and a hash.\<close>

definition item_of :: "string \<Rightarrow> string \<Rightarrow> StatsEntry \<Rightarrow> string \<times> json \<Rightarrow> bool" where
  "item_of ty hash e kv \<longleftrightarrow> (\<exists>ms. fst kv = badger_key ty hash ms \<and> se_ConfigHash e = hash
     \<and> se_Timestamp e = of_UnixMilli ms \<and> Unmarshal_Stats (snd kv) = Some (se_Stats e))"

definition after :: "Time option \<Rightarrow> StatsEntry \<Rightarrow> bool" where
  "after since e \<longleftrightarrow> \<not> (case since of None \<Rightarrow> False | Some t \<Rightarrow> se_Timestamp e < t)"

definition oldest :: "int \<Rightarrow> 'a list \<Rightarrow> 'a list" where
  "oldest limit xs = (if limit = 0 then xs else take (nat limit) xs)"

definition outside :: "string \<Rightarrow> (string \<times> json) list \<Rightarrow> bool" where
  "outside pre items \<longleftrightarrow> items = [] \<or> \<not> prefix pre (fst (hd items))"

lemma badger_scan_outside: "outside pre items \<Longrightarrow> badger_scan pre limit since cnt items acc = (acc, None)"
  by (cases "(pre, limit, since, cnt, items, acc)" rule: badger_scan.cases) (auto simp: outside_def)

lemma badger_scan_item:
  assumes names: "CHR '':'' \<notin> set ty" "CHR '':'' \<notin> set hash" and item: "item_of ty hash e kv"
    and more: "limit = 0 \<or> cnt < limit"
  shows "badger_scan (badger_prefix ty hash) limit since cnt (kv # items) acc =
    (if after since e then badger_scan (badger_prefix ty hash) limit since (cnt + 1) items (acc @ [e])
     else badger_scan (badger_prefix ty hash) limit since cnt items acc)"
proof -
  from item obtain ms where ms: "fst kv = badger_key ty hash ms" "se_ConfigHash e = hash"
    "se_Timestamp e = of_UnixMilli ms" "Unmarshal_Stats (snd kv) = Some (se_Stats e)"
    by (auto simp: item_of_def)
  have e: "\<lparr>se_ConfigHash = hash, se_Timestamp = of_UnixMilli ms, se_Stats = se_Stats e\<rparr> = e"
    using ms by simp
  obtain k v where kv: "kv = (k, v)" by (cases kv)
  from ms kv have k: "k = badger_key ty hash ms" and v: "Unmarshal_Stats v = Some (se_Stats e)"
    and ts: "se_Timestamp e = of_UnixMilli ms" by auto
  show ?thesis
    using more
    by (simp add: kv k v ts e Split_badger_key [OF names] after_def Let_def split: option.split)
qed

lemma badger_scan_entries:
  assumes names: "CHR '':'' \<notin> set ty" "CHR '':'' \<notin> set hash"
    and items: "list_all2 (item_of ty hash) es items" and rest: "outside (badger_prefix ty hash) rest"
    and cnt: "0 \<le> cnt"
  shows "badger_scan (badger_prefix ty hash) limit since cnt (items @ rest) acc =
    (acc @ (if limit = 0 then filter (after since) es
            else take (nat (limit - cnt)) (filter (after since) es)), None)"
  using items cnt
proof (induction es items arbitrary: cnt acc)
  case (Cons e es kv items)
  show ?case
  proof (cases "limit = 0 \<or> cnt < limit")
    case True
    show ?thesis
    proof (cases "after since e")
      case True
      have "nat (limit - cnt) = Suc (nat (limit - (cnt + 1)))" if "cnt < limit" using that by simp
      with True \<open>limit = 0 \<or> cnt < limit\<close> Cons show ?thesis
        by (auto simp: badger_scan_item [OF names])
    next
      case False
      with \<open>limit = 0 \<or> cnt < limit\<close> Cons show ?thesis by (simp add: badger_scan_item [OF names])
    qed
  next
    case False
    then show ?thesis by (cases kv) simp
  qed
qed (simp add: badger_scan_outside [OF rest])

lemma badger_scan_undecodable:
  assumes names: "CHR '':'' \<notin> set ty" "CHR '':'' \<notin> set hash"
    and keys: "\<forall>kv \<in> set items. \<exists>ms. fst kv = badger_key ty hash ms"
    and bad: "\<exists>kv \<in> set items. Unmarshal_Stats (snd kv) = None"
  shows "snd (badger_scan (badger_prefix ty hash) 0 None cnt (items @ rest) acc) = Some UnmarshalFailed"
  using keys bad
proof (induction items arbitrary: cnt acc)
  case (Cons kv items)
  then obtain ms where ms: "fst kv = badger_key ty hash ms" by auto
  show ?case
  proof (cases "Unmarshal_Stats (snd kv)")
    case None
    with ms show ?thesis by (cases kv) (simp add: Split_badger_key [OF names])
  next
    case (Some s)
    with ms Cons show ?thesis by (cases kv) (simp add: Split_badger_key [OF names])
  qed
qed simp

section \<open>The contract of the database\<close>

text \<open>
  What Badger documents of the operations used: an entry set with a time to live of at least a
  second, the unit of the clock, is found under its key until it expires, and an iterator from a prefix on yields the keys that are not below it in
  bytewise order.  \<open>content\<close> gives the entries that have not expired.
\<close>

definition badger_laws :: "'db badger \<Rightarrow> ('db \<Rightarrow> string \<rightharpoonup> json) \<Rightarrow> bool" where
  "badger_laws api content \<longleftrightarrow>
     (\<forall>k v ttl db db'. 1000000000 \<le> sint ttl \<longrightarrow> bd_setEntry api k v ttl db = (True, db') \<longrightarrow>
          content db' = (content db)(k \<mapsto> v))
     \<and> (\<forall>p db. bd_seek api p db =
          map (\<lambda>k. (k, the (content db k))) (filter (\<lambda>k. p \<le> k) (sorted_list_of_set (dom (content db)))))
     \<and> (\<forall>db. finite (dom (content db)))"

lemma between_prefix: "p \<le> y \<Longrightarrow> y \<le> p @ r \<Longrightarrow> prefix p y" for p y :: string
proof (induction p arbitrary: y)
  case (Cons c p)
  then show ?case by (cases y) auto
qed simp

lemma prefix_le: "prefix p y \<Longrightarrow> p \<le> y" for p y :: string
proof (induction p arbitrary: y)
  case (Cons c p)
  then show ?case by (cases y) auto
qed simp

lemma set_takeWhile_prefix:
  fixes p :: string
  assumes "sorted xs" and "\<forall>x \<in> set xs. p \<le> x"
  shows "set (takeWhile (prefix p) xs) = {x \<in> set xs. prefix p x}"
  using assms
proof (induction xs)
  case (Cons x xs)
  have "\<not> prefix p y" if "\<not> prefix p x" "y \<in> set xs" for y
  proof
    assume "prefix p y"
    then obtain r where "y = p @ r" by (auto simp: prefix_def)
    moreover have "x \<le> y" "p \<le> x" using Cons.prems that by auto
    ultimately show False using between_prefix that(1) by blast
  qed
  with Cons show ?case by auto
qed simp

text \<open>The keys under a prefix, in order, and what follows them.\<close>

definition keys_under :: "(string \<rightharpoonup> json) \<Rightarrow> string \<Rightarrow> string list" where
  "keys_under m p = takeWhile (prefix p) (filter (\<lambda>k. p \<le> k) (sorted_list_of_set (dom m)))"

lemma keys_under:
  assumes "finite (dom m)"
  shows "sorted (keys_under m p)" and "distinct (keys_under m p)"
    and "set (keys_under m p) = {k \<in> dom m. prefix p k}"
proof -
  have s: "sorted (filter (\<lambda>k. p \<le> k) (sorted_list_of_set (dom m)))"
    by (rule sorted_wrt_filter) (rule sorted_sorted_list_of_set)
  then show "sorted (keys_under m p)" unfolding keys_under_def by (rule sorted_takeWhile)
  show "distinct (keys_under m p)" by (simp add: keys_under_def)
  have "set (keys_under m p) = {k \<in> set (filter (\<lambda>k. p \<le> k) (sorted_list_of_set (dom m))). prefix p k}"
    unfolding keys_under_def by (rule set_takeWhile_prefix [OF s]) simp
  then show "set (keys_under m p) = {k \<in> dom m. prefix p k}"
    using assms prefix_le by auto
qed

lemma bd_seek_split:
  assumes "badger_laws api content"
  shows "\<exists>rest. bd_seek api p db = map (\<lambda>k. (k, the (content db k))) (keys_under (content db) p) @ rest
    \<and> outside p rest"
proof -
  let ?f = "\<lambda>k. (k, the (content db k))" and ?xs = "filter (\<lambda>k. p \<le> k) (sorted_list_of_set (dom (content db)))"
  have "bd_seek api p db = map ?f (takeWhile (prefix p) ?xs @ dropWhile (prefix p) ?xs)"
    using assms by (simp add: badger_laws_def)
  moreover have "outside p (map ?f (dropWhile (prefix p) ?xs))"
  proof (cases "dropWhile (prefix p) ?xs")
    case (Cons y ys)
    then have "\<not> prefix p y" using hd_dropWhile [of "prefix p" ?xs] by simp
    with Cons show ?thesis by (simp add: outside_def)
  qed (simp add: outside_def)
  ultimately show ?thesis
    by (intro exI [of _ "map ?f (dropWhile (prefix p) ?xs)"])
      (simp only: keys_under_def map_append [symmetric] takeWhile_dropWhile_id simp_thms)
qed

end
