(* ===== verification/Badger_Correct.thy ===== *)
theory Badger_Correct
  imports Badger_Storage
begin

text \<open>
  What the Badger storage promises under the documented laws of the database: a read returns
  the live entries of one kind and one configuration in the order of their keys, a limit
  keeps the oldest of them, a written entry is read back, and an entry with an error makes
  every later read fail.
\<close>

text \<open>
  The keys under a prefix are keys of the storage.  This is what the two write operations
  maintain.
\<close>

definition keys_ok :: "(string \<rightharpoonup> json) \<Rightarrow> string \<Rightarrow> string \<Rightarrow> bool" where
  "keys_ok m ty hash \<longleftrightarrow>
     (\<forall>k \<in> dom m. prefix (badger_prefix ty hash) k \<longrightarrow> (\<exists>ms. k = badger_key ty hash ms))"

definition values_ok :: "(string \<rightharpoonup> json) \<Rightarrow> string \<Rightarrow> string \<Rightarrow> bool" where
  "values_ok m ty hash \<longleftrightarrow>
     (\<forall>k v. m k = Some v \<longrightarrow> prefix (badger_prefix ty hash) k \<longrightarrow> Unmarshal_Stats v \<noteq> None)"

text \<open>The names a key is made of hold no separator, and the hash is not empty.\<close>

definition key_names :: "string \<Rightarrow> string \<Rightarrow> bool" where
  "key_names ty hash \<longleftrightarrow> CHR '':'' \<notin> set ty \<and> CHR '':'' \<notin> set hash \<and> hash \<noteq> []"

text \<open>The entry a key and its value stand for.\<close>

definition entry_at :: "string \<Rightarrow> string \<Rightarrow> string \<times> json \<Rightarrow> StatsEntry" where
  "entry_at ty hash kv =
     \<lparr>se_ConfigHash = hash, se_Timestamp = of_UnixMilli (the (ParseInt (Split (fst kv) (CHR '':'') ! 2))),
      se_Stats = the (Unmarshal_Stats (snd kv))\<rparr>"

lemma entry_at_key [simp]:
  assumes "key_names ty hash"
  shows "entry_at ty hash (badger_key ty hash ms, v) =
    \<lparr>se_ConfigHash = hash, se_Timestamp = of_UnixMilli ms, se_Stats = the (Unmarshal_Stats v)\<rparr>"
  using assms by (simp add: entry_at_def key_names_def Split_badger_key)

definition entries_under :: "(string \<rightharpoonup> json) \<Rightarrow> string \<Rightarrow> string \<Rightarrow> StatsEntry list" where
  "entries_under m ty hash =
     map (\<lambda>k. entry_at ty hash (k, the (m k))) (keys_under m (badger_prefix ty hash))"

lemma items_under:
  assumes names: "key_names ty hash" and fin: "finite (dom m)"
    and ok: "keys_ok m ty hash" "values_ok m ty hash"
  shows "list_all2 (item_of ty hash) (entries_under m ty hash)
    (map (\<lambda>k. (k, the (m k))) (keys_under m (badger_prefix ty hash)))"
proof -
  have "item_of ty hash (entry_at ty hash (k, the (m k))) (k, the (m k))"
    if k: "k \<in> set (keys_under m (badger_prefix ty hash))" for k
  proof -
    from k have d: "k \<in> dom m" and p: "prefix (badger_prefix ty hash) k"
      by (simp_all add: keys_under [OF fin])
    then obtain ms where ms: "k = badger_key ty hash ms" using ok(1) by (auto simp: keys_ok_def)
    obtain v where v: "m k = Some v" using d by auto
    with ok(2) p obtain s where "Unmarshal_Stats v = Some s" by (auto simp: values_ok_def)
    with ms v names show ?thesis by (auto simp: item_of_def)
  qed
  then show ?thesis by (simp add: entries_under_def list_all2_map1 list_all2_map2 list_all2_same)
qed

lemma badger_read_entries:
  assumes laws: "badger_laws api content" and names: "key_names ty hash"
    and ok: "keys_ok (content (bs_db b)) ty hash" "values_ok (content (bs_db b)) ty hash"
  shows "badger_read api ty hash limit since b =
    (oldest limit (filter (after since) (entries_under (content (bs_db b)) ty hash)), None)"
proof -
  have fin: "finite (dom (content (bs_db b)))" using laws by (simp add: badger_laws_def)
  obtain rest where rest: "outside (badger_prefix ty hash) rest"
    "bd_seek api (badger_prefix ty hash) (bs_db b) =
      map (\<lambda>k. (k, the (content (bs_db b) k))) (keys_under (content (bs_db b)) (badger_prefix ty hash)) @ rest"
    using bd_seek_split [OF laws] by blast
  show ?thesis
    using names
    by (simp add: badger_read_def rest(2) oldest_def key_names_def
        badger_scan_entries [OF _ _ items_under [OF names fin ok] rest(1)])
qed

section \<open>The order of the entries\<close>

text \<open>Instants from 9 September 2001 to 20 November 2286 have milliseconds of 13 digits.\<close>

definition thirteen_digits :: "int64 \<Rightarrow> bool" where
  "thirteen_digits ms \<longleftrightarrow> 10 ^ 12 \<le> sint ms \<and> sint ms < 10 ^ 13"

lemma length_digits: "10 ^ k \<le> n \<Longrightarrow> n < 10 ^ Suc k \<Longrightarrow> length (digits n) = Suc k"
proof (induction k arbitrary: n)
  case 0
  then show ?case by (simp add: digits.simps)
next
  case (Suc k)
  have "10 \<le> n" using order_trans [OF _ Suc.prems(1), of 10] by simp
  moreover have "10 ^ k \<le> n div 10" and "n div 10 < 10 ^ Suc k"
    using Suc.prems by (simp_all add: less_mult_imp_div_less mult.commute less_eq_div_iff_mult_less_eq)
  ultimately show ?case using Suc.IH [of "n div 10"] by (simp add: digits.simps [of n])
qed

lemma badger_key_mono:
  assumes "thirteen_digits ms" "thirteen_digits ms'" and le: "badger_key ty hash ms \<le> badger_key ty hash ms'"
  shows "of_UnixMilli ms \<le> of_UnixMilli ms'"
proof (rule ccontr)
  assume "\<not> ?thesis"
  then have lt: "sint ms' < sint ms" by (simp add: of_UnixMilli_def)
  have len: "length (digits (nat (sint x))) = 13" if "thirteen_digits x" for x
    using that length_digits [of 12 "nat (sint x)"] by (simp add: thirteen_digits_def le_nat_iff nat_less_iff)
  have pos: "0 < sint x" if "thirteen_digits x" for x
    using that by (simp add: thirteen_digits_def)
  from lt pos [OF assms(1)] pos [OF assms(2)] have "nat (sint ms') < nat (sint ms)" by simp
  then have "digits (nat (sint ms')) < digits (nat (sint ms))"
    using len [OF assms(1)] len [OF assms(2)] by (intro digits_less) simp_all
  then have "badger_key ty hash ms' < badger_key ty hash ms"
    using pos [OF assms(1)] pos [OF assms(2)]
    by (simp add: badger_key_def show_int_nonneg list_less_def lexord_append_leftI)
  with le show False by simp
qed

definition recent_keys :: "(string \<rightharpoonup> json) \<Rightarrow> string \<Rightarrow> string \<Rightarrow> bool" where
  "recent_keys m ty hash \<longleftrightarrow>
     (\<forall>k \<in> dom m. prefix (badger_prefix ty hash) k \<longrightarrow>
        (\<exists>ms. k = badger_key ty hash ms \<and> thirteen_digits ms))"

lemma recent_keys_ok: "recent_keys m ty hash \<Longrightarrow> keys_ok m ty hash"
  by (auto simp: recent_keys_def keys_ok_def)

lemma entries_under_sorted:
  assumes names: "key_names ty hash" and fin: "finite (dom m)" and recent: "recent_keys m ty hash"
  shows "sorted (map se_Timestamp (entries_under m ty hash))"
proof -
  have key: "\<exists>ms. k = badger_key ty hash ms \<and> thirteen_digits ms"
    if "k \<in> set (keys_under m (badger_prefix ty hash))" for k
    using that recent by (auto simp: keys_under [OF fin] recent_keys_def)
  have "sorted_wrt (\<lambda>k k'. se_Timestamp (entry_at ty hash (k, the (m k)))
      \<le> se_Timestamp (entry_at ty hash (k', the (m k')))) (keys_under m (badger_prefix ty hash))"
    using keys_under(1) [OF fin, of "badger_prefix ty hash"]
  proof (rule sorted_wrt_mono_rel [rotated])
    fix k k'
    assume k: "k \<in> set (keys_under m (badger_prefix ty hash))"
      and k': "k' \<in> set (keys_under m (badger_prefix ty hash))" and le: "k \<le> k'"
    obtain ms where ms: "k = badger_key ty hash ms" "thirteen_digits ms" using key [OF k] by auto
    obtain ms' where ms': "k' = badger_key ty hash ms'" "thirteen_digits ms'" using key [OF k'] by auto
    from badger_key_mono [OF ms(2) ms'(2)] le ms(1) ms'(1) names
    show "se_Timestamp (entry_at ty hash (k, the (m k))) \<le> se_Timestamp (entry_at ty hash (k', the (m k')))"
      by simp
  qed
  then show ?thesis by (simp add: entries_under_def sorted_wrt_map o_def)
qed

lemma set_entries_under:
  "finite (dom m) \<Longrightarrow> set (entries_under m ty hash) =
    {entry_at ty hash (k, v) | k v. m k = Some v \<and> prefix (badger_prefix ty hash) k}"
  by (auto simp: entries_under_def keys_under image_iff domIff) (metis option.sel)+

section \<open>Writing\<close>

lemma ttl_lengths:
  "sint statsDataTTL = 86400000000000" "sint failureDataTTL = 259200000000000"
  by (simp_all add: statsDataTTL_def failureDataTTL_def Minute_def Second_def)

lemma badger_write_content:
  assumes "badger_laws api content" and "badger_write api ty ttl hash s b = (None, b')" and "1000000000 \<le> sint ttl"
  shows "content (bs_db b') =
    (content (bs_db b))(badger_key ty hash (UnixMilli (st_Timestamp s)) \<mapsto> json_Stats s)"
  using assms
  by (auto simp: badger_write_def badger_laws_def Marshal_Stats_def Let_def
      split: option.splits prod.splits if_splits)

lemma badger_write_marshalable:
  "badger_write api ty ttl hash s b = (None, b') \<Longrightarrow> marshalable s"
  by (auto simp: badger_write_def Marshal_Stats_def Let_def split: if_splits)

lemma badger_write_keys_ok:
  assumes "badger_laws api content" and "badger_write api ty ttl hash s b = (None, b')" and "1000000000 \<le> sint ttl"
    and "keys_ok (content (bs_db b)) ty hash"
  shows "keys_ok (content (bs_db b')) ty hash"
  using assms(4) by (auto simp: badger_write_content [OF assms(1-3)] keys_ok_def)

text \<open>Writing keeps every key of the database, so another kind or configuration is not disturbed.\<close>

lemma badger_write_other:
  assumes "badger_laws api content" and "badger_write api ty ttl hash s b = (None, b')" and "1000000000 \<le> sint ttl"
    and "key_names ty hash" "key_names ty' hash'" and "(ty, hash) \<noteq> (ty', hash')"
    and "k = badger_key ty' hash' ms"
  shows "content (bs_db b') k = content (bs_db b) k"
proof -
  have "badger_key ty' hash' ms \<noteq> badger_key ty hash ms'" for ms'
    using assms(4-6) badger_key_inject [of ty hash ty' hash' ms' ms] by (auto simp: key_names_def)
  then show ?thesis by (simp add: badger_write_content [OF assms(1-3)] assms(7))
qed

lemma badger_write_lost:
  assumes laws: "badger_laws api content" and names: "key_names ty hash"
    and w: "badger_write api ty ttl hash s b = (None, b')" and ttl: "1000000000 \<le> sint ttl"
    and ok: "keys_ok (content (bs_db b)) ty hash" and s: "stats_floats s" "errors_lost s"
  shows "snd (badger_read api ty hash 0 None b') = Some UnmarshalFailed"
proof -
  let ?k = "badger_key ty hash (UnixMilli (st_Timestamp s))" and ?m = "content (bs_db b')"
  let ?p = "badger_prefix ty hash"
  let ?items = "map (\<lambda>k. (k, the (?m k))) (keys_under ?m ?p)"
  have fin: "finite (dom ?m)" using laws by (simp add: badger_laws_def)
  have u: "Unmarshal_Stats (json_Stats s) = None"
    using Unmarshal_json_Stats [OF badger_write_marshalable [OF w] s(1)] s(2) by simp
  have c: "?m ?k = Some (json_Stats s)" by (simp add: badger_write_content [OF laws w ttl])
  then have "?k \<in> set (keys_under ?m ?p)" using fin by (auto simp: keys_under)
  then have bad: "\<exists>kv \<in> set ?items. Unmarshal_Stats (snd kv) = None" using c u by force
  have keys: "\<forall>kv \<in> set ?items. \<exists>ms. fst kv = badger_key ty hash ms"
    using badger_write_keys_ok [OF laws w ttl ok] fin by (auto simp: keys_ok_def keys_under)
  obtain rest where "bd_seek api ?p (bs_db b') = ?items @ rest" using bd_seek_split [OF laws] by blast
  then show ?thesis
    using badger_scan_undecodable [OF _ _ keys bad] names by (simp add: badger_read_def key_names_def Let_def)
qed

section \<open>A database with these laws\<close>

text \<open>Association lists, the newest binding of a key first.\<close>

definition list_badger :: "(string \<times> json) list badger" where
  "list_badger =
     \<lparr>bd_open = (\<lambda>path inMemory. Some []),
      bd_setEntry = (\<lambda>k v ttl db. (True, (k, v) # db)),
      bd_seek = (\<lambda>p db. map (\<lambda>k. (k, the (map_of db k)))
                    (filter (\<lambda>k. p \<le> k) (sorted_list_of_set (dom (map_of db))))),
      bd_dropAll = (\<lambda>db. (True, [])),
      bd_close = (\<lambda>db. (True, db)),
      bd_gc = (\<lambda>r db. (False, db))\<rparr>"

lemma list_badger_laws: "badger_laws list_badger map_of"
  by (auto simp: badger_laws_def list_badger_def finite_dom_map_of)

end
