(* ===== verification/Badger_Expiry.thy ===== *)
theory Badger_Expiry
  imports Badger_Correct
begin

text \<open>
  Time and garbage in the Badger storage: the entries are written with a time to live, and a
  goroutine collects the value log.  The laws say what Badger documents of both; how an entry
  fares in the last second before it expires is left open.
\<close>

section \<open>The contract of the database over time\<close>

text \<open>
  \<open>later d db\<close> is the database \<open>d\<close> nanoseconds later, \<open>clock\<close> its time and \<open>expiry\<close> the time a key is
  to expire.
\<close>

definition badger_time_laws ::
  "'db badger \<Rightarrow> ('db \<Rightarrow> string \<rightharpoonup> json) \<Rightarrow> ('db \<Rightarrow> Time) \<Rightarrow> ('db \<Rightarrow> string \<Rightarrow> Time) \<Rightarrow> (nat \<Rightarrow> 'db \<Rightarrow> 'db) \<Rightarrow> bool" where
  "badger_time_laws api content clock expiry later \<longleftrightarrow>
     badger_laws api content
     \<and> (\<forall>k v ttl db db'. bd_setEntry api k v ttl db = (True, db') \<longrightarrow>
          clock db' = clock db \<and> expiry db' k = clock db + sint ttl)
     \<and> (\<forall>r db. clock (snd (bd_gc api r db)) = clock db \<and> content (snd (bd_gc api r db)) = content db
          \<and> (\<forall>k \<in> dom (content db). expiry (snd (bd_gc api r db)) k = expiry db k))
     \<and> (\<forall>d db k. clock (later d db) = clock db + int d \<and> expiry (later d db) k = expiry db k
          \<and> (content (later d db) k = content db k \<or> content (later d db) k = None)
          \<and> (clock db + int d + 1000000000 \<le> expiry db k \<longrightarrow> content (later d db) k = content db k)
          \<and> (expiry db k \<le> clock db + int d \<longrightarrow> content (later d db) k = None))"

lemma badger_time_lawsD:
  assumes "badger_time_laws api content clock expiry later"
  shows "badger_laws api content"
    and "bd_setEntry api k v ttl db = (True, db') \<Longrightarrow> clock db' = clock db \<and> expiry db' k = clock db + sint ttl"
    and "clock (snd (bd_gc api r db)) = clock db"
    and "content (snd (bd_gc api r db)) = content db"
    and "content db k \<noteq> None \<Longrightarrow> expiry (snd (bd_gc api r db)) k = expiry db k"
    and "clock (later d db) = clock db + int d"
    and "expiry (later d db) k = expiry db k"
    and "content (later d db) k = content db k \<or> content (later d db) k = None"
    and "clock db + int d + 1000000000 \<le> expiry db k \<Longrightarrow> content (later d db) k = content db k"
    and "expiry db k \<le> clock db + int d \<Longrightarrow> content (later d db) k = None"
  using assms unfolding badger_time_laws_def by (simp_all add: domIff)

section \<open>Collections\<close>

text \<open>What every single collection keeps, a round of the goroutine keeps.\<close>

lemma gc_again_keeps:
  assumes "gc_again api db = Some db'" and "\<And>db. P db \<Longrightarrow> P (snd (bd_gc api (1 / 2) db))" and "P db"
  shows "P db'"
proof -
  have "(\<forall>db. P db \<longrightarrow> P (snd (bd_gc api (1 / 2) db))) \<longrightarrow> P db \<longrightarrow> P db'"
    using assms(1) by (rule gc_again.raw_induct [rotated]) (auto split: prod.splits if_splits, (metis snd_conv)+)
  with assms(2,3) show ?thesis by blast
qed

text \<open>A round ends when every collection that succeeds leaves less garbage.\<close>

lemma gc_again_returns:
  assumes "\<And>db db'. bd_gc api (1 / 2) db = (True, db') \<Longrightarrow> garbage db' < (garbage db :: nat)"
  shows "\<exists>db'. gc_again api db = Some db'"
proof (induction "garbage db" arbitrary: db rule: less_induct)
  case less
  obtain ok db' where gc: "bd_gc api (1 / 2) db = (ok, db')" by fastforce
  show ?case
  proof (cases ok)
    case True
    with gc less assms show ?thesis by (subst gc_again.simps) simp
  next
    case False
    with gc show ?thesis by (subst gc_again.simps) simp
  qed
qed

section \<open>The fate of an entry\<close>

text \<open>What happens to the database between two calls of the program: collections and time.\<close>

inductive badger_idles :: "'db badger \<Rightarrow> (nat \<Rightarrow> 'db \<Rightarrow> 'db) \<Rightarrow> 'db \<Rightarrow> 'db \<Rightarrow> bool" for api later db where
  idle_refl: "badger_idles api later db db"
| idle_gc: "badger_idles api later db db1 \<Longrightarrow> gc_again api db1 = Some db2 \<Longrightarrow> badger_idles api later db db2"
| idle_wait: "badger_idles api later db db1 \<Longrightarrow> badger_idles api later db (later d db1)"

lemma badger_idles_trans:
  "badger_idles api later db1 db2 \<Longrightarrow> badger_idles api later db db1 \<Longrightarrow> badger_idles api later db db2"
  by (induction rule: badger_idles.induct) (auto intro: badger_idles.intros)

text \<open>The goroutine does nothing else.\<close>

lemma gc_loop_idles: "gc_loop api evs db = Some db' \<Longrightarrow> badger_idles api later db db'"
proof (induction api evs db rule: gc_loop.induct)
  case (2 api evs db)
  then obtain db1 where "gc_again api db = Some db1" "badger_idles api later db1 db'"
    by (auto simp: bind_eq_Some_conv)
  then show ?case using badger_idles_trans idle_gc [OF idle_refl] by metis
qed (simp_all add: idle_refl)

text \<open>An entry that is to expire at \<open>x\<close>: there with its value, or gone at most a second too early.\<close>

definition fated ::
  "('db \<Rightarrow> string \<rightharpoonup> json) \<Rightarrow> ('db \<Rightarrow> Time) \<Rightarrow> ('db \<Rightarrow> string \<Rightarrow> Time) \<Rightarrow> string \<Rightarrow> json \<Rightarrow> Time \<Rightarrow> 'db \<Rightarrow> bool" where
  "fated content clock expiry k v x db \<longleftrightarrow>
     (content db k = Some v \<and> expiry db k = x \<or> content db k = None \<and> x < clock db + 1000000000)
     \<and> (x \<le> clock db \<longrightarrow> content db k = None)"

lemma badger_idles_fated:
  assumes laws: "badger_time_laws api content clock expiry later"
  shows "badger_idles api later db db' \<Longrightarrow> fated content clock expiry k v x db \<Longrightarrow> fated content clock expiry k v x db'"
proof (induction rule: badger_idles.induct)
  case (idle_gc db1 db2)
  show ?case
    using idle_gc(2)
  proof (rule gc_again_keeps)
    show "fated content clock expiry k v x (snd (bd_gc api (1 / 2) db))" if "fated content clock expiry k v x db" for db
      using that badger_time_lawsD(3,4) [OF laws, of "1 / 2" db] badger_time_lawsD(5) [OF laws, of db k "1 / 2"]
      by (auto simp: fated_def)
  qed (rule idle_gc.IH [OF idle_gc.prems])
next
  case (idle_wait db1 d)
  then have "fated content clock expiry k v x db1" by simp
  then show ?case
    using badger_time_lawsD(6) [OF laws, of d db1] badger_time_lawsD(7,8) [OF laws, of d db1 k]
      badger_time_lawsD(9) [OF laws, of db1 d k] badger_time_lawsD(10) [OF laws, of db1 k d] by (auto simp: fated_def)
qed

lemma badger_idles_shrinks:
  assumes laws: "badger_time_laws api content clock expiry later"
  shows "badger_idles api later db db' \<Longrightarrow> content db' \<subseteq>\<^sub>m content db"
proof (induction rule: badger_idles.induct)
  case (idle_gc db1 db2)
  have "content db2 \<subseteq>\<^sub>m content db"
    using idle_gc(2) by (rule gc_again_keeps) (use badger_time_lawsD(4) [OF laws] idle_gc.IH in simp_all)
  then show ?case .
next
  case (idle_wait db1 d)
  then show ?case
    using badger_time_lawsD(8) [OF laws, of d db1] unfolding map_le_def by (metis domIff)
qed simp

lemma keys_ok_mono: "m \<subseteq>\<^sub>m m' \<Longrightarrow> keys_ok m' ty hash \<Longrightarrow> keys_ok m ty hash"
  using map_le_implies_dom_le by (fastforce simp: keys_ok_def)

lemma values_ok_mono: "m \<subseteq>\<^sub>m m' \<Longrightarrow> values_ok m' ty hash \<Longrightarrow> values_ok m ty hash"
  by (fastforce simp: values_ok_def map_le_def dom_def)

lemma of_UnixMilli_inject: "of_UnixMilli ms = of_UnixMilli ms' \<Longrightarrow> ms = ms'"
  by (simp add: of_UnixMilli_def word_eq_sint_iff)

lemma badger_write_expires:
  assumes laws: "badger_time_laws api content clock expiry later" and names: "key_names ty hash"
    and w: "badger_write api ty ttl hash s b = (None, b')"
    and ok: "keys_ok (content (bs_db b)) ty hash" "values_ok (content (bs_db b)) ty hash"
    and s: "stats_floats s" "\<not> errors_lost s" and ttl: "1000000000 \<le> sint ttl"
    and idle: "badger_idles api later (bs_db b') db"
  shows "\<exists>es. badger_read api ty hash 0 None (b'\<lparr>bs_db := db\<rparr>) = (es, None)
    \<and> (clock db + 1000000000 \<le> clock (bs_db b) + sint ttl \<longrightarrow>
        \<lparr>se_ConfigHash = hash, se_Timestamp = of_UnixMilli (UnixMilli (st_Timestamp s)),
          se_Stats = s\<lparr>st_Errors := map (\<lambda>_. None) (st_Errors s)\<rparr>\<rparr> \<in> set es)
    \<and> (clock (bs_db b) + sint ttl \<le> clock db \<longrightarrow>
        (\<forall>e \<in> set es. se_Timestamp e \<noteq> of_UnixMilli (UnixMilli (st_Timestamp s))))"
proof -
  let ?ms = "UnixMilli (st_Timestamp s)" and ?m = "content db"
  let ?k = "badger_key ty hash ?ms"
  note bl = badger_time_lawsD(1) [OF laws]
  have u: "Unmarshal_Stats (json_Stats s) = Some (s\<lparr>st_Errors := map (\<lambda>_. None) (st_Errors s)\<rparr>)"
    using Unmarshal_json_Stats [OF badger_write_marshalable [OF w] s(1)] s(2) by simp
  have c: "content (bs_db b') = (content (bs_db b))(?k \<mapsto> json_Stats s)" by (rule badger_write_content [OF bl w ttl])
  have v': "values_ok (content (bs_db b')) ty hash" using ok(2) u by (auto simp: c values_ok_def)
  have "bd_setEntry api ?k (json_Stats s) ttl (bs_db b) = (True, bs_db b')"
    using w by (auto simp: badger_write_def Marshal_Stats_def Let_def split: option.splits prod.splits if_splits)
  from badger_time_lawsD(2) [OF laws this] have "fated content clock expiry ?k (json_Stats s) (clock (bs_db b) + sint ttl) (bs_db b')"
    using ttl by (simp add: fated_def c)
  then have f: "fated content clock expiry ?k (json_Stats s) (clock (bs_db b) + sint ttl) db"
    by (rule badger_idles_fated [OF laws idle])
  have le: "?m \<subseteq>\<^sub>m content (bs_db b')" by (rule badger_idles_shrinks [OF laws idle])
  have keys: "keys_ok ?m ty hash" by (rule keys_ok_mono [OF le badger_write_keys_ok [OF bl w ttl ok(1)]])
  have fin: "finite (dom ?m)" using bl by (simp add: badger_laws_def)
  let ?es = "entries_under ?m ty hash"
  have r: "badger_read api ty hash 0 None (b'\<lparr>bs_db := db\<rparr>) = (?es, None)"
    using badger_read_entries [OF bl names, of "b'\<lparr>bs_db := db\<rparr>" 0 None] keys values_ok_mono [OF le v']
    by (simp add: oldest_def after_def)
  have "entry_at ty hash (?k, json_Stats s) \<in> set ?es" if "clock db + 1000000000 \<le> clock (bs_db b) + sint ttl"
    using f that fin by (auto simp: fated_def set_entries_under intro!: exI [of _ ?k])
  moreover have "se_Timestamp e \<noteq> of_UnixMilli ?ms" if dead: "clock (bs_db b) + sint ttl \<le> clock db" and mem: "e \<in> set ?es" for e
  proof -
    have none: "?m ?k = None" using f dead by (simp add: fated_def)
    obtain k v where e: "e = entry_at ty hash (k, v)" "?m k = Some v" "prefix (badger_prefix ty hash) k"
      using mem fin by (auto simp: set_entries_under)
    then obtain ms where "k = badger_key ty hash ms" using keys by (auto simp: keys_ok_def)
    with e names none show ?thesis by (auto dest: of_UnixMilli_inject)
  qed
  ultimately show ?thesis using r names u by auto
qed

section \<open>A database with these laws\<close>

text \<open>Bindings with the time they expire, the newest of a key first, and the time it is.\<close>

type_synonym timed_db = "(string \<times> json \<times> Time) list \<times> Time"

definition timed_content :: "timed_db \<Rightarrow> string \<rightharpoonup> json" where
  "timed_content db k = (case map_of (fst db) k of None \<Rightarrow> None | Some (v, x) \<Rightarrow> if snd db < x then Some v else None)"

definition timed_expiry :: "timed_db \<Rightarrow> string \<Rightarrow> Time" where
  "timed_expiry db k = (case map_of (fst db) k of None \<Rightarrow> 0 | Some (v, x) \<Rightarrow> x)"

text \<open>A collection drops every binding of the keys that have expired.\<close>

definition timed_collect :: "timed_db \<Rightarrow> timed_db" where
  "timed_collect db = (filter (\<lambda>e. timed_content db (fst e) \<noteq> None) (fst db), snd db)"

definition timed_badger :: "timed_db badger" where
  "timed_badger =
     \<lparr>bd_open = (\<lambda>path inMemory. Some ([], 0)),
      bd_setEntry = (\<lambda>k v ttl db. (True, ((k, v, snd db + sint ttl) # fst db, snd db))),
      bd_seek = (\<lambda>p db. map (\<lambda>k. (k, the (timed_content db k)))
                    (filter (\<lambda>k. p \<le> k) (sorted_list_of_set (dom (timed_content db))))),
      bd_dropAll = (\<lambda>db. (True, ([], snd db))),
      bd_close = (\<lambda>db. (True, db)),
      bd_gc = (\<lambda>r db. (\<exists>e \<in> set (fst db). timed_content db (fst e) = None,
                        timed_collect db))\<rparr>"

definition timed_later :: "nat \<Rightarrow> timed_db \<Rightarrow> timed_db" where
  "timed_later d db = (fst db, snd db + int d)"

lemma dom_timed_content: "dom (timed_content db) \<subseteq> fst ` set (fst db)"
  unfolding dom_map_of_conv_image_fst [symmetric] by (auto simp: timed_content_def split: option.splits)

lemma map_of_filter_keys: "map_of (filter (\<lambda>e. P (fst e)) xs) k = (if P k then map_of xs k else None)"
  by (induction xs) auto

lemma snd_timed_collect [simp]: "snd (timed_collect db) = snd db"
  by (simp add: timed_collect_def)

lemma map_of_timed_collect:
  "map_of (fst (timed_collect db)) k = (if timed_content db k = None then None else map_of (fst db) k)"
  unfolding timed_collect_def fst_conv map_of_filter_keys [of "\<lambda>k. timed_content db k \<noteq> None"] by simp

lemma timed_content_collect: "timed_content (timed_collect db) = timed_content db"
proof
  fix k
  have "timed_content (timed_collect db) k = (if timed_content db k = None then None else timed_content db k)"
    by (simp add: timed_content_def [of "timed_collect db"] map_of_timed_collect) (simp add: timed_content_def split: option.split)
  then show "timed_content (timed_collect db) k = timed_content db k" by simp
qed

lemma timed_expiry_collect:
  "k \<in> dom (timed_content db) \<Longrightarrow> timed_expiry (timed_collect db) k = timed_expiry db k"
  by (auto simp: timed_expiry_def map_of_timed_collect)

lemma timed_badger_laws: "badger_time_laws timed_badger timed_content snd timed_expiry timed_later"
proof -
  have fin: "finite (dom (timed_content db))" for db
    by (rule finite_subset [OF dom_timed_content]) simp
  have "timed_content ((k, v, snd db + sint ttl) # fst db, snd db) = (timed_content db)(k \<mapsto> v)"
    if "1000000000 \<le> sint ttl" for k v ttl and db :: timed_db
    using that by (intro ext) (simp add: timed_content_def split: option.split)
  with fin have "badger_laws timed_badger timed_content"
    by (auto simp: badger_laws_def timed_badger_def)
  moreover have "bd_gc timed_badger r db = (\<exists>e \<in> set (fst db). timed_content db (fst e) = None, timed_collect db)" for r db
    by (simp add: timed_badger_def)
  then have "snd (snd (bd_gc timed_badger r db)) = snd db
      \<and> timed_content (snd (bd_gc timed_badger r db)) = timed_content db
      \<and> (\<forall>k \<in> dom (timed_content db). timed_expiry (snd (bd_gc timed_badger r db)) k = timed_expiry db k)" for r db
    by (simp add: timed_content_collect timed_expiry_collect)
  moreover have "timed_content (timed_later d db) k =
      (case map_of (fst db) k of None \<Rightarrow> None | Some (v, x) \<Rightarrow> if snd db + int d < x then Some v else None)" for d db k
    by (simp add: timed_content_def timed_later_def split: option.split)
  then have "(timed_content (timed_later d db) k = timed_content db k \<or> timed_content (timed_later d db) k = None)
      \<and> (snd db + int d + 1000000000 \<le> timed_expiry db k \<longrightarrow> timed_content (timed_later d db) k = timed_content db k)
      \<and> (timed_expiry db k \<le> snd db + int d \<longrightarrow> timed_content (timed_later d db) k = None)" for d db k
    by (auto simp: timed_content_def timed_expiry_def split: option.splits)
  moreover have "snd (timed_later d db) = snd db + int d" "timed_expiry (timed_later d db) k = timed_expiry db k" for d db k
    by (simp_all add: timed_later_def timed_expiry_def)
  moreover have "bd_setEntry timed_badger k v ttl db = (True, db') \<Longrightarrow>
      snd db' = snd db \<and> timed_expiry db' k = snd db + sint ttl" for k v ttl db db'
    by (auto simp: timed_badger_def timed_expiry_def)
  ultimately show ?thesis unfolding badger_time_laws_def by (intro conjI allI impI) (blast | simp)+
qed

end
