(* ===== verification/Stats_Properties.thy ===== *)
theory Stats_Properties
  imports Example_Config Latency_Summary File_Storage_Correct Badger_Expiry
begin

text \<open>
  The properties of the statistics code: the bounded error log and latency samples, the latency
  summary, the history of a collector, and what the file and the Badger storage keep.
\<close>

section \<open>Examples\<close>

definition example_collector :: Collector where
  "example_collector = SetConfig (\<lambda>_. ''h'') 0 validated_spec (NewCollector 0)"

lemma example_collector_simps [simp]:
  "co_loadTestSpec example_collector = Some validated_spec"
  "co_currentLoadTestSpecHash example_collector = ''h''"
  "co_errors example_collector = []" "co_latencies example_collector = []"
  "co_published example_collector = 0" "co_lastStatsTime example_collector = 0"
  by (simp_all add: example_collector_def SetConfig_def LoadTestSpec_Hash_def)

lemma example_log_limits [simp]:
  "sint (ll_MaxLines (lts_LogLimits validated_spec)) = 50"
  "sint (ll_MaxBytes (lts_LogLimits validated_spec)) = 16384"
  by (simp_all add: example_spec_def)

text \<open>An operating system without failures, and storages that were just opened.\<close>

definition smooth :: os_env where
  "smooth = \<lparr>os_createTemp = True, os_writeFail = None, os_sync = True, os_closeTemp = True,
     os_rename = True, os_closeOld = True, os_reopen = True, os_truncate = True,
     os_order = (\<lambda>m. if m ''h'' = None then [] else [''h''])\<rparr>"

definition fresh_file :: FileStorage where
  "fresh_file = \<lparr>fs_disk = [], fs_file = Some OpenHandle, fs_statsCache = Map.empty,
     fs_failuresCache = Map.empty, fs_maxEntries = 10, fs_isStdout = False, fs_stdout = []\<rparr>"

abbreviation h_digest :: "json \<Rightarrow> string" where "h_digest \<equiv> \<lambda>_. ''h''"

lemma h_digest_hash: "LoadTestSpec_Hash h_digest spec = ''h''"
  by (simp add: LoadTestSpec_Hash_def)

section \<open>Recording\<close>

lemma evict_maximal:
  assumes "suffix s es" and "length (evict mb n (errors_size es) es) < length s"
  shows "mb < errors_size s + n"
proof -
  obtain k where k: "k \<le> length es" "evict mb n (errors_size es) es = drop k es"
    "\<forall>j < k. mb < errors_size (drop j es) + n" using evict_drop by blast
  have "s = drop (length es - length s) es" using assms(1) by (auto simp: suffix_def)
  moreover have "length es - length s < k" using assms(2) k(1,2) suffix_length_le [OF assms(1)] by simp
  ultimately show ?thesis using k(3) by metis
qed

lemma below_limit_maximal:
  assumes "suffix s es" and "\<not> suffix s (below_limit n es)"
  shows "n \<le> int (length s)"
proof (cases es)
  case (Cons x xs)
  show ?thesis
  proof (cases "n \<le> int (length es)")
    case True
    with assms Cons have "s = es" by (auto simp: below_limit_def suffix_Cons)
    with True show ?thesis by simp
  qed (use assms in \<open>simp add: below_limit_def\<close>)
qed (use assms in \<open>simp add: below_limit_def\<close>)

text \<open>C17. Let a collector have a spec and its log be within the line limit, as the empty log it starts with is
  for every limit that is not negative.  Recording an error, unless it panics, makes the error the newest of the log
  and changes nothing else of the collector.  The log stays within the line limit; it is within
  the byte limit or holds the new error alone, which may exceed that limit by itself; and it has
  lost no more of the older errors than it must: a longer rest of the log would have reached the
  line limit or exceeded the byte limit.\<close>

theorem RecordError_bounded_log:
  assumes "RecordError err c = Return c'" and "co_loadTestSpec c = Some spec"
    and "int (length (co_errors c)) \<le> sint (ll_MaxLines (lts_LogLimits spec))"
  shows "int (length (co_errors c')) \<le> sint (ll_MaxLines (lts_LogLimits spec))
    \<and> (co_errors c' = [err] \<or> errors_size (co_errors c') \<le> sint (ll_MaxBytes (lts_LogLimits spec)))
    \<and> c' = c\<lparr>co_errors := co_errors c'\<rparr>
    \<and> (\<exists>kept. suffix kept (co_errors c) \<and> co_errors c' = kept @ [err]
        \<and> (\<forall>s. suffix s (co_errors c) \<and> length kept < length s \<longrightarrow>
             sint (ll_MaxLines (lts_LogLimits spec)) \<le> int (length s)
           \<or> sint (ll_MaxBytes (lts_LogLimits spec)) < errors_size s + int (length (err_text err))))"
proof -
  have r: "recordError err c = Return c'" using assms(1) by (simp add: RecordError_def)
  let ?es = "below_limit (sint (ll_MaxLines (lts_LogLimits spec))) (co_errors c)"
  let ?kept = "evict (sint (ll_MaxBytes (lts_LogLimits spec))) (int (length (err_text err))) (errors_size ?es) ?es"
  have "co_errors c' = ?kept @ [err]" using recordError_errors [OF r assms(2)] by (simp add: Let_def)
  moreover have "suffix ?kept (co_errors c)"
    by (rule suffix_order.trans [OF evict_suffix below_limit_suffix])
  ultimately have "\<exists>kept. suffix kept (co_errors c) \<and> co_errors c' = kept @ [err]
        \<and> (\<forall>s. suffix s (co_errors c) \<and> length kept < length s \<longrightarrow>
             sint (ll_MaxLines (lts_LogLimits spec)) \<le> int (length s)
           \<or> sint (ll_MaxBytes (lts_LogLimits spec)) < errors_size s + int (length (err_text err)))"
    using evict_maximal below_limit_maximal by metis
  then show ?thesis
    using recordError_limits [OF r assms(2,3)] recordError_frame [OF r] by blast
qed

text \<open>The second error is too long for the byte limit together with the first, and alone.\<close>

theorem RecordError_bounded_log_witness:
  "RecordError (plain_error (replicate 20000 CHR ''x'')) (example_collector\<lparr>co_errors := [plain_error ''lost'']\<rparr>) =
      Return (example_collector\<lparr>co_errors := [plain_error (replicate 20000 CHR ''x'')]\<rparr>)
    \<and> errors_size [plain_error (replicate 20000 CHR ''x'')] = 20000"
proof -
  let ?long = "plain_error (replicate 20000 CHR ''x'')" and ?c = "example_collector\<lparr>co_errors := [plain_error ''lost'']\<rparr>"
  obtain c' where c': "RecordError ?long ?c = Return c'"
    using recordError_Return_iff [of ?long ?c] by (auto simp: RecordError_def)
  have size: "errors_size [?long] = 20000" by (simp add: errors_size_def plain_error_def)
  note b = RecordError_bounded_log [OF c', of validated_spec]
  obtain kept where kept: "co_errors c' = kept @ [?long]" using b by auto
  have "errors_size (co_errors c') \<ge> 20000"
    unfolding kept using size errors_size_nonneg [of kept] by simp
  then have es: "co_errors c' = [?long]" using b by simp
  have "c' = ?c\<lparr>co_errors := co_errors c'\<rparr>" using b by fastforce
  then have "c' = ?c\<lparr>co_errors := [?long]\<rparr>" unfolding es .
  then show ?thesis using c' size by simp
qed

text \<open>C18. After any number of recorded latencies a collector holds the newest of them, in order, as many
  as its bound allows and never more than ten thousand.\<close>

theorem RecordLatency_keeps_newest:
  assumes "samples_ok c"
  shows "co_latencies (fold RecordLatency ls c) =
      last_n (nat (sint (co_maxLatencySamples c))) (co_latencies c @ ls)
    \<and> length (co_latencies (fold RecordLatency ls c)) \<le> 10000"
proof -
  let ?cap = "nat (sint (co_maxLatencySamples c))"
  have le: "length (co_latencies c) \<le> ?cap" "?cap \<le> 10000" using assms by (auto simp: samples_ok_def)
  have "co_latencies (fold RecordLatency ls c) = foldl (push_latency ?cap) (co_latencies c) ls"
    by (induction ls arbitrary: c) (simp_all add: RecordLatency_def)
  also have "\<dots> = last_n ?cap (co_latencies c @ ls)" by (rule latencies.push_all [OF le(1)])
  finally show ?thesis using le(2) by simp
qed

theorem RecordLatency_keeps_newest_witness:
  "co_latencies (fold RecordLatency [3, 1, 2] (NewCollector 0)) = [3, 1, 2]"
  using RecordLatency_keeps_newest [of "NewCollector 0" "[3, 1, 2]"]
  by (simp add: samples_ok_def NewCollector_def last_n_def)

section \<open>The summary of the latencies\<close>

text \<open>C19. For between one and ten thousand samples (a collector keeps no more) the latency statistics hold
  the minimum, the maximum, the order statistic at 99 percent and the number of the samples,
  whatever the samples are; the mean is their truncated mean when each of them lies between zero
  and about six days, so that the 64-bit sum does not overflow.\<close>

theorem calculateLatencyStats_summarises:
  assumes "ds \<noteq> []" and "length ds \<le> 10000"
  shows "summarises (calculateLatencyStats im ds) ds
    \<and> ((\<forall>d \<in> set ds. plausible_latency d) \<longrightarrow>
         sint (la_Mean (calculateLatencyStats im ds)) = sum_list (map sint ds) div int (length ds))"
  using calculateLatencyStats_summarises_lemma [OF assms] calculateLatencyStats_mean_lemma [OF assms] by blast

theorem calculateLatencyStats_summarises_witness:
  "summarises (calculateLatencyStats amd64 [5, 3, 9]) [5, 3, 9]
    \<and> sint (la_Mean (calculateLatencyStats amd64 [5, 3, 9])) = 5"
  using calculateLatencyStats_summarises [of "[5, 3, 9]" amd64] by (simp add: plausible_latency_def)

section \<open>Collections\<close>

text \<open>C31. A collection resets the samples and the errors but not the counters: a second later, with
  nothing published since, the rate reported is that of all messages published so far.\<close>

theorem CollectStats_cumulative_rate:
  assumes "CollectStats w im now c st = (s, c', st')" and "uint (co_published c) \<le> 2 ^ 53"
    and "CollectStats w im (now + 1000000000) c' st' = (s2, c2, st2)"
  shows "st_Published s2 = co_published c \<and> st_PublishRate s2 = Fin (of_int (uint (co_published c)))
    \<and> st_Errors s2 = [] \<and> st_Latency s2 = zero_LatencyStats"
proof -
  have c': "c' = c\<lparr>co_latencies := [], co_errors := [], co_lastStatsTime := now\<rparr>"
    and s2: "s2 = collect im (now + 1000000000) c'"
    using assms(1,3) by (auto simp: CollectStats_def Let_def)
  have sub: "Sub (now + 1000000000) now = Second"
    by (simp add: word_eq_sint_iff sint_Sub Second_def)
  have "Seconds Second = Fin 1"
    using fl_of_int [of 1] by (simp add: Seconds_def Second_def quot64_def rem64_def plus_float64_def float_of_int_def)
  moreover have "float_of_int (uint (co_published c)) = Fin (of_int (uint (co_published c)))"
    by (rule float_of_int_exact) (use assms(2) in simp)
  moreover have "fl (of_int (uint (co_published c))) = Fin (of_int (uint (co_published c)))"
    by (rule fl_of_int) (use assms(2) in simp)
  ultimately show ?thesis by (simp add: s2 c' collect_def sub Let_def float64_class_defs flt_def)
qed

definition no_store :: "LoadTestSpec \<Rightarrow> Stats \<Rightarrow> unit \<Rightarrow> unit option \<times> unit" where
  "no_store spec s st = (None, st)"

theorem CollectStats_cumulative_rate_witness:
  "st_PublishRate (fst (CollectStats no_store amd64 1000000000
      (fst (snd (CollectStats no_store amd64 0 (RecordPublish example_collector) None))) None)) = Fin 1"
proof -
  obtain s c' st where 1: "CollectStats no_store amd64 0 (RecordPublish example_collector) None = (s, c', st)"
    by (metis prod_cases3)
  have st: "st = None" using 1 by (simp add: CollectStats_def Let_def)
  obtain s2 c2 st2 where 2: "CollectStats no_store amd64 (0 + 1000000000) c' None = (s2, c2, st2)"
    by (metis prod_cases3)
  have "co_published (RecordPublish example_collector) = 1" by (simp add: RecordPublish_def)
  with CollectStats_cumulative_rate [OF 1 _ 2 [folded st]] 1 2 show ?thesis by simp
qed

text \<open>C20. Over the file storage, after the loop of a collector has run, for any sequence of ticks and
  any recordings of the other goroutines in between, cancelled or not, the history is the history
  before with every statistics collected at the end, in order, shortened from the front to the
  capacity and the limit, whether or not the file could be written.\<close>

theorem Collector_Start_history:
  assumes "co_loadTestSpec c = Some spec" and "co_currentLoadTestSpecHash c \<noteq> []"
    and "\<forall>g. Meanwhile g \<in> set evs \<longrightarrow> keeps_spec g"
    and "Collector_Start (FileStorage_WriteStats digest env) im interval evs c (Some f) = Return (ss, c', f')"
    and "length (cached (fs_statsCache f) (LoadTestSpec_Hash digest spec)) \<le> fs_maxEntries f"
  shows "GetHistory (FileStorage_GetStats digest) limit c' f' =
    newest limit (last_n (fs_maxEntries f)
      (map se_Stats (cached (fs_statsCache f) (LoadTestSpec_Hash digest spec)) @ ss))"
  by (rule file_store.loop_then_history [OF assms(1-3) _ assms(5)])
    (use assms(4) in \<open>simp add: Collector_Start_def split: if_splits\<close>)

definition example_loop :: "collector_event list" where
  "example_loop = [Ticked 7, Meanwhile RecordPublish, Ticked 9, Cancelled 10]"

theorem Collector_Start_history_witness:
  "\<exists>ss c' f'. Collector_Start (FileStorage_WriteStats h_digest smooth) amd64 2 example_loop example_collector
      (Some fresh_file) = Return (ss, c', f')
    \<and> length ss = 3 \<and> GetHistory (FileStorage_GetStats h_digest) 2 c' f' = tl ss"
proof -
  obtain ss c' f' where 1: "Collector_Start (FileStorage_WriteStats h_digest smooth) amd64 2 example_loop
      example_collector (Some fresh_file) = Return (ss, c', f')"
    by (simp add: Collector_Start_def) (metis prod_cases3)
  then have "length ss = 3"
    by (auto simp: Collector_Start_def example_loop_def split: prod.splits)
  moreover from this have "drop (Suc 0) ss = tl ss" by (simp add: drop_Suc)
  moreover have "\<forall>g. Meanwhile g \<in> set example_loop \<longrightarrow> keeps_spec g"
    by (simp add: example_loop_def keeps_spec_def RecordPublish_def)
  ultimately show ?thesis
    using Collector_Start_history [OF _ _ _ 1, of validated_spec 2] 1
    by (simp add: fresh_file_def cached_def newest_def last_n_def)
qed

section \<open>The file\<close>

text \<open>C10. However the file storage was opened, on whatever contents, and whatever operations followed,
  its caches are well formed, and a read answers with at most ten entries and at most the limit,
  each filed under the hash of the configuration asked for and none older than asked for.\<close>

theorem file_storage_well_formed:
  assumes "NewFileStorage tlen same ok content = Inr f0" and "(file_step digest)\<^sup>*\<^sup>* f0 f"
    and "read \<in> {FileStorage_GetStats, FileStorage_GetFailures}"
  shows "storage_wf f \<and> (\<exists>es. read digest spec limit since f = Inr es
    \<and> length es \<le> (if 0 < limit then min 10 (nat limit) else 10)
    \<and> (\<forall>e \<in> set es. se_ConfigHash e = LoadTestSpec_Hash digest spec
        \<and> (\<forall>t. since = Some t \<longrightarrow> t \<le> se_Timestamp e)))"
proof -
  have wf: "storage_wf f" by (rule file_steps_wf [OF assms(2) NewFileStorage_wf [OF assms(1)]])
  obtain m where m: "read digest spec limit since f = Inr (select_entries m (LoadTestSpec_Hash digest spec) limit since)"
    and "cache_wf 10 m"
    using assms(3) wf by (auto simp: storage_wf_def FileStorage_GetStats_def FileStorage_GetFailures_def)
  with wf select_entries_wf [OF \<open>cache_wf 10 m\<close>] show ?thesis by simp
qed

theorem file_storage_well_formed_witness:
  "storage_wf (snd (FileStorage_WriteStats h_digest (smooth\<lparr>os_rename := False\<rparr>) validated_spec zero_Stats fresh_file))"
proof -
  have "NewFileStorage (\<lambda>_. 100) False True [] = Inr fresh_file"
    by (simp add: NewFileStorage_def fresh_file_def Let_def)
  moreover have "file_step h_digest fresh_file
      (snd (FileStorage_WriteStats h_digest (smooth\<lparr>os_rename := False\<rparr>) validated_spec zero_Stats fresh_file))"
    by (rule wrote_stats [OF surjective_pairing])
  ultimately show ?thesis
    using file_storage_well_formed [of "\<lambda>_. 100" False True "[]" fresh_file h_digest _ FileStorage_GetStats]
    by blast
qed

text \<open>C11. Whatever system call fails, writing statistics or a failure leaves on disk either the previous
  contents, and then reports an error, or the complete new contents: never a part of them.\<close>

theorem file_write_atomic:
  assumes "w \<in> {FileStorage_WriteStats, FileStorage_WriteFailure}" and "\<not> fs_isStdout f"
    and "w digest env spec s f = (e, f')"
  shows "fs_disk f' = fs_disk f \<and> e \<noteq> None \<or> fs_disk f' = map line_of (dump env f')"
proof -
  obtain g where g: "rewriteEntireFile env g = (e, f')" "fs_disk g = fs_disk f" "\<not> fs_isStdout g"
    using assms by (auto simp: FileStorage_WriteStats_def FileStorage_WriteFailure_def Let_def)
  have "dump env f' = dump env g"
    using rewriteEntireFile_frame(1,2) [of env g] g(1) by (intro dump_cong) simp_all
  then show ?thesis using rewriteEntireFile_disk [OF g(3,1)] g(2) by simp
qed

definition rename_fails :: os_env where
  "rename_fails = smooth\<lparr>os_rename := False\<rparr>"

theorem file_write_atomic_witness:
  "let r = FileStorage_WriteStats h_digest rename_fails validated_spec zero_Stats fresh_file
   in fs_disk (snd r) = [] \<and> fst r \<noteq> None \<or> fs_disk (snd r) = map line_of (dump rename_fails (snd r))"
  using file_write_atomic [of FileStorage_WriteStats fresh_file h_digest rename_fails validated_spec zero_Stats
      "fst (FileStorage_WriteStats h_digest rename_fails validated_spec zero_Stats fresh_file)"
      "snd (FileStorage_WriteStats h_digest rename_fails validated_spec zero_Stats fresh_file)"]
  by (simp add: fresh_file_def Let_def)

text \<open>C9. Let the storage write to a file, not to the standard output, let its caches hold at most ten entries
  of each configuration, let them and the statistics that are written have numbers JSON can print,
  and let the iteration over a map visit each key once.  After a write that reported no error, a program that can open the file again answers
  with the statistics and failures it would have answered before, each without its errors, except
  those with an error that JSON does not hold as null, which are gone.  But when a line of the file
  has reached 64 KiB, which a long list of errors makes it do, the storage does not open at all.\<close>

theorem file_restart:
  assumes "storage_ok f" and "marshalable s" and "stats_floats s" and "\<not> fs_isStdout f"
    and "w \<in> {FileStorage_WriteStats, FileStorage_WriteFailure}" and "w digest env spec s f = (None, f')"
    and "iterates env (fs_statsCache f')" and "iterates env (fs_failuresCache f')"
  shows "if \<exists>l \<in> set (fs_disk f'). too_long tlen l
    then NewFileStorage tlen False True (fs_disk f') = Inl TokenTooLong
    else (\<exists>g. NewFileStorage tlen False True (fs_disk f') = Inr g
      \<and> (\<forall>spec2. FileStorage_GetStats digest spec2 0 None g =
            Inr (survivors (LoadTestSpec_Hash digest spec2) (cached (fs_statsCache f') (LoadTestSpec_Hash digest spec2)))
          \<and> FileStorage_GetFailures digest spec2 0 None g =
            Inr (survivors (LoadTestSpec_Hash digest spec2) (cached (fs_failuresCache f') (LoadTestSpec_Hash digest spec2)))))"
proof (cases "\<exists>l \<in> set (fs_disk f'). too_long tlen l")
  case True
  with NewFileStorage_too_long [OF True] show ?thesis by simp
next
  case False
  with write_restart [OF assms, of tlen] show ?thesis
    by (auto simp: FileStorage_GetStats_def FileStorage_GetFailures_def select_entries_all newest_def)
qed

lemma fresh_file_ok: "storage_ok fresh_file" "\<not> fs_isStdout fresh_file"
  by (simp_all add: storage_ok_def fresh_file_def cache_loadable_def cached_def)

lemma example_stats_ok:
  "marshalable zero_Stats" "stats_floats zero_Stats" "\<not> errors_lost zero_Stats"
  "marshalable (failure_stats t e)" "stats_floats (failure_stats t e)"
  by (simp_all add: marshalable_def stats_floats_def errors_lost_def failure_stats_def zero_Stats_def
      zero_RampUpStats_def is_float_def)

lemma smooth_write:
  assumes "LoadTestSpec_Hash digest spec = ''h''" and "marshalable s"
  shows "FileStorage_WriteStats digest smooth spec s fresh_file =
      (None, fresh_file\<lparr>fs_statsCache := [''h'' \<mapsto> [stats_entry ''h'' s]],
         fs_disk := [line_of (persisted ''stats'' ''h'' (stats_entry ''h'' s))]\<rparr>)"
    and "FileStorage_WriteFailure digest smooth spec s fresh_file =
      (None, fresh_file\<lparr>fs_failuresCache := [''h'' \<mapsto> [stats_entry ''h'' s]],
         fs_disk := [line_of (persisted ''failure'' ''h'' (stats_entry ''h'' s))]\<rparr>)"
  using assms
  by (simp_all add: fresh_file_def smooth_def FileStorage_WriteStats_def FileStorage_WriteFailure_def
      rewriteEntireFile_def writeAllDataToFile_def cache_entries_def cached_def addToCache_def
      push_entry_last_n last_n_def persisted_def stats_entry_def
      Marshal_persistedEntry_def line_of_def Let_def)

lemma smooth_iterates [simp]: "iterates smooth Map.empty" "iterates smooth [''h'' \<mapsto> x]"
  by (simp_all add: iterates_def smooth_def)

theorem file_restart_witness:
  "(\<exists>g. NewFileStorage (\<lambda>_. 100) False True
        (fs_disk (snd (FileStorage_WriteStats h_digest smooth validated_spec zero_Stats fresh_file))) = Inr g
      \<and> FileStorage_GetStats h_digest validated_spec 0 None g = Inr [stats_entry ''h'' zero_Stats])
    \<and> NewFileStorage (\<lambda>_. 70000) False True
        (fs_disk (snd (FileStorage_WriteStats h_digest smooth validated_spec zero_Stats fresh_file))) = Inl TokenTooLong"
proof -
  note w = smooth_write(1) [OF h_digest_hash example_stats_ok(1), of validated_spec]
  have s: "survivors ''h'' [stats_entry ''h'' zero_Stats] = [stats_entry ''h'' zero_Stats]"
    using example_stats_ok(3) by (simp add: survivors_def restored_def stats_entry_def zero_Stats_def)
  have c: "cached (fs_statsCache (fresh_file\<lparr>fs_statsCache := [''h'' \<mapsto> [e]], fs_disk := d\<rparr>)) ''h'' = [e]" for e d
    by (simp add: cached_def)
  note restart = file_restart [where w = FileStorage_WriteStats, OF fresh_file_ok(1) example_stats_ok(1,2) fresh_file_ok(2) _ w]
  show ?thesis
    unfolding w using restart [where tlen = "\<lambda>_. 100"] restart [where tlen = "\<lambda>_. 70000"] s c
    by (simp add: too_long_def line_of_def fresh_file_def LoadTestSpec_Hash_def) (metis (no_types))
qed

text \<open>The failures the program records hold one error with a text and no fields.\<close>

definition failures_plain :: "FileStorage \<Rightarrow> bool" where
  "failures_plain f \<longleftrightarrow>
     (\<forall>h. \<forall>e \<in> set (cached (fs_failuresCache f) h). \<exists>now msg. se_Stats e = failure_stats now (plain_error msg))"

lemma plain_errors_lost: "errors_lost (failure_stats now (plain_error msg))"
  by (simp add: errors_lost_def failure_stats_def json_error_def plain_error_def)

lemma survivors_plain:
  "\<forall>e \<in> set es. \<exists>now msg. se_Stats e = failure_stats now (plain_error msg) \<Longrightarrow> survivors h es = []"
  using plain_errors_lost by (fastforce simp: survivors_def filter_empty_conv)

text \<open>C38. No recorded failure survives a restart on a file all of whose lines are short
  enough to be loaded: a failure written without any error to the file is not among the failures of
  the program started again on it, nor is any earlier one.\<close>

theorem file_failures_lost:
  assumes "storage_ok f" and "\<not> fs_isStdout f" and "failures_plain f"
    and "FileStorage_WriteFailure digest env spec (failure_stats now (plain_error msg)) f = (None, f')"
    and "iterates env (fs_statsCache f')" and "iterates env (fs_failuresCache f')"
    and "\<forall>l \<in> set (fs_disk f'). \<not> too_long tlen l"
  shows "\<exists>g. NewFileStorage tlen False True (fs_disk f') = Inr g
    \<and> (\<forall>spec2. FileStorage_GetFailures digest spec2 0 None g = Inr [])"
proof -
  have "failures_plain f'"
  proof -
    have "fs_failuresCache f' = addToCache (fs_maxEntries f) (fs_failuresCache f) (LoadTestSpec_Hash digest spec)
        (stats_entry (LoadTestSpec_Hash digest spec) (failure_stats now (plain_error msg)))"
      using assms(2) arg_cong [OF assms(4), of "fs_failuresCache \<circ> snd"]
      by (simp add: FileStorage_WriteFailure_def Let_def)
    then show ?thesis
      using assms(3) set_last_n [of "fs_maxEntries f"] by (fastforce simp: failures_plain_def)
  qed
  then have "survivors h (cached (fs_failuresCache f') h) = []" for h
    unfolding failures_plain_def by (intro survivors_plain) blast
  then show ?thesis
    using write_restart [where w = FileStorage_WriteFailure, OF assms(1) example_stats_ok(4,5) assms(2) _ assms(4-7)]
    by (auto simp: FileStorage_GetFailures_def select_entries_all newest_def)
qed

theorem file_failures_lost_witness:
  "\<exists>g. NewFileStorage (\<lambda>_. 100) False True
        (fs_disk (snd (FileStorage_WriteFailure h_digest smooth validated_spec
           (failure_stats 0 (plain_error ''refused'')) fresh_file))) = Inr g
    \<and> FileStorage_GetFailures h_digest validated_spec 0 None g = Inr []"
proof -
  note w = smooth_write(2) [OF h_digest_hash example_stats_ok(4), of validated_spec 0 "plain_error ''refused''"]
  have "failures_plain fresh_file" by (simp add: failures_plain_def fresh_file_def cached_def)
  from file_failures_lost [OF fresh_file_ok this w, of "\<lambda>_. 100"] show ?thesis
    unfolding w by (auto simp: too_long_def line_of_def fresh_file_def)
qed

section \<open>The database\<close>

text \<open>C23. Let the hash of a configuration be a text without a colon, and let the database hold under its prefix
  only keys of the storage whose values can be decoded (one stored entry with an error makes every
  read of the configuration fail).  Statistics without errors that Badger has taken are then
  returned by the reads of the configuration, with their time truncated to milliseconds, for a day
  less one second, and by none once the day is over, however much garbage is collected in between
  and as long as nothing else is written.\<close>

theorem badger_write_lasts_a_day:
  assumes "badger_time_laws api content clock expiry later" and "key_names ''stats'' (LoadTestSpec_Hash digest spec)"
    and "BadgerStorage_WriteStats api digest spec s b = (None, b')"
    and "keys_ok (content (bs_db b)) ''stats'' (LoadTestSpec_Hash digest spec)"
    and "values_ok (content (bs_db b)) ''stats'' (LoadTestSpec_Hash digest spec)"
    and "stats_floats s" and "st_Errors s = []" and "badger_idles api later (bs_db b') db"
  shows "\<exists>es. BadgerStorage_GetStats api digest spec 0 None (b'\<lparr>bs_db := db\<rparr>) = (es, None)
    \<and> (clock db \<le> clock (bs_db b) + 86399000000000 \<longrightarrow>
        \<lparr>se_ConfigHash = LoadTestSpec_Hash digest spec,
          se_Timestamp = of_UnixMilli (UnixMilli (st_Timestamp s)), se_Stats = s\<rparr> \<in> set es)
    \<and> (clock (bs_db b) + 86400000000000 \<le> clock db \<longrightarrow>
        (\<forall>e \<in> set es. se_Timestamp e \<noteq> of_UnixMilli (UnixMilli (st_Timestamp s))))"
proof -
  have s: "\<not> errors_lost s" "s\<lparr>st_Errors := map (\<lambda>_. None) (st_Errors s)\<rparr> = s"
    using assms(7) by (simp_all add: errors_lost_def)
  have "1000000000 \<le> sint statsDataTTL" by (simp add: ttl_lengths)
  from badger_write_expires [OF assms(1,2) assms(3) [unfolded BadgerStorage_WriteStats_def] assms(4-6) s(1) this assms(8)]
  show ?thesis by (simp add: BadgerStorage_GetStats_def s(2) ttl_lengths add.commute)
qed

definition timed_start :: "timed_db BadgerStorage" where
  "timed_start = \<lparr>bs_db = ([], 0), bs_gcClosed = False\<rparr>"

definition timed_written :: timed_db where
  "timed_written = ([(badger_key ''stats'' ''h'' 0, json_Stats zero_Stats, 86400000000000)], 0)"

lemma timed_write:
  "BadgerStorage_WriteStats timed_badger h_digest validated_spec zero_Stats timed_start =
     (None, timed_start\<lparr>bs_db := timed_written\<rparr>)"
  using example_stats_ok(1)
  by (simp add: BadgerStorage_WriteStats_def badger_write_def timed_badger_def timed_start_def timed_written_def
      LoadTestSpec_Hash_def Marshal_Stats_def ttl_lengths Let_def zero_Stats_def UnixMilli_def)

text \<open>An hour after the write, the rest of the day later, and a collection after that.\<close>

lemma timed_idles:
  "badger_idles timed_badger timed_later timed_written (timed_later 3600000000000 timed_written)"
  "badger_idles timed_badger timed_later timed_written ([], 86400000000000)"
proof -
  show "badger_idles timed_badger timed_later timed_written (timed_later 3600000000000 timed_written)"
    by (rule idle_wait [OF idle_refl])
  let ?db = "timed_later 86400000000000 timed_written"
  have gone: "timed_content ?db k = None" for k
    by (simp add: timed_content_def timed_later_def timed_written_def split: option.split)
  have "timed_collect ?db = ([], 86400000000000)"
    by (simp add: timed_collect_def gone) (simp add: timed_later_def timed_written_def)
  moreover have "bd_gc timed_badger (1 / 2) ?db = (True, timed_collect ?db)"
    by (simp add: timed_badger_def gone) (simp add: timed_later_def timed_written_def)
  moreover have "bd_gc timed_badger (1 / 2) ([], 86400000000000) = (False, ([], 86400000000000))"
    by (simp add: timed_badger_def timed_collect_def)
  ultimately have "gc_again timed_badger ?db = Some ([], 86400000000000)"
    by (simp add: gc_again.simps [of _ ?db] gc_again.simps [of _ "([], 86400000000000)"])
  then show "badger_idles timed_badger timed_later timed_written ([], 86400000000000)"
    by (rule idle_gc [OF idle_wait [OF idle_refl]])
qed

theorem badger_write_lasts_a_day_witness:
  "\<exists>es es'. BadgerStorage_GetStats timed_badger h_digest validated_spec 0 None
        (timed_start\<lparr>bs_db := timed_later 3600000000000 timed_written\<rparr>) = (es, None)
    \<and> \<lparr>se_ConfigHash = ''h'', se_Timestamp = 0, se_Stats = zero_Stats\<rparr> \<in> set es
    \<and> BadgerStorage_GetStats timed_badger h_digest validated_spec 0 None
        (timed_start\<lparr>bs_db := ([], 86400000000000)\<rparr>) = (es', None)
    \<and> 0 \<notin> se_Timestamp ` set es'"
proof -
  have h: "LoadTestSpec_Hash h_digest validated_spec = ''h''" by (simp add: LoadTestSpec_Hash_def)
  have 0: "of_UnixMilli (UnixMilli (st_Timestamp zero_Stats)) = 0" "st_Errors zero_Stats = []"
    by (simp_all add: of_UnixMilli_def UnixMilli_def zero_Stats_def)
  have c: "timed_content (bs_db timed_start) = Map.empty" "snd (bs_db timed_start) = 0"
    by (rule ext) (simp_all add: timed_start_def timed_content_def)
  have ok: "key_names ''stats'' (LoadTestSpec_Hash h_digest validated_spec)"
    "keys_ok (timed_content (bs_db timed_start)) ''stats'' (LoadTestSpec_Hash h_digest validated_spec)"
    "values_ok (timed_content (bs_db timed_start)) ''stats'' (LoadTestSpec_Hash h_digest validated_spec)"
    by (simp_all add: h c key_names_def keys_ok_def values_ok_def)
  note day = badger_write_lasts_a_day [OF timed_badger_laws ok(1) timed_write ok(2,3) example_stats_ok(2) 0(2)]
  have t: "snd (timed_later 3600000000000 timed_written) = 3600000000000"
    by (simp add: timed_later_def timed_written_def)
  show ?thesis
    using day [of "timed_later 3600000000000 timed_written"] day [of "([], 86400000000000)"] timed_idles
    by (auto simp: 0(1) h c(2) t)
qed

text \<open>C39. Let the database hold for a configuration only entries that can be decoded (one with an error makes
  every read fail), with times between the years 2001 and 2286, whose milliseconds have thirteen
  digits.  A read of the Badger storage then returns them in the order of time, and a limit keeps
  the oldest of them; for the same call the file storage keeps the newest of its entries.\<close>

theorem badger_limit_keeps_oldest:
  assumes "badger_laws api content" and "key_names ''stats'' (LoadTestSpec_Hash digest spec)"
    and "recent_keys (content (bs_db b)) ''stats'' (LoadTestSpec_Hash digest spec)"
    and "values_ok (content (bs_db b)) ''stats'' (LoadTestSpec_Hash digest spec)" and "0 < limit"
  shows "(\<exists>es. BadgerStorage_GetStats api digest spec 0 None b = (es, None)
      \<and> sorted (map se_Timestamp es)
      \<and> BadgerStorage_GetStats api digest spec limit None b = (take (nat limit) es, None))
    \<and> (\<exists>es. FileStorage_GetStats digest spec 0 None f = Inr es
      \<and> FileStorage_GetStats digest spec limit None f = Inr (last_n (nat limit) es))"
proof -
  let ?es = "entries_under (content (bs_db b)) ''stats'' (LoadTestSpec_Hash digest spec)"
  have fin: "finite (dom (content (bs_db b)))" using assms(1) by (simp add: badger_laws_def)
  have "filter (after None) ?es = ?es" by (simp add: after_def)
  then have "BadgerStorage_GetStats api digest spec l None b = (oldest l ?es, None)" for l
    using badger_read_entries [OF assms(1,2) recent_keys_ok [OF assms(3)] assms(4), of l None]
    by (simp add: BadgerStorage_GetStats_def)
  moreover have "\<exists>es. FileStorage_GetStats digest spec 0 None f = Inr es
      \<and> FileStorage_GetStats digest spec limit None f = Inr (last_n (nat limit) es)"
    using assms(5) by (simp add: FileStorage_GetStats_def select_entries_all newest_def)
  ultimately show ?thesis
    using entries_under_sorted [OF assms(2) fin assms(3)] assms(5) by (simp add: oldest_def)
qed

text \<open>Both storages hold the same two entries; with a limit of one they answer differently.\<close>

definition entry_of :: "int64 \<Rightarrow> StatsEntry" where
  "entry_of ms = \<lparr>se_ConfigHash = ''h'', se_Timestamp = of_UnixMilli ms, se_Stats = zero_Stats\<rparr>"

definition two_stored :: "(string \<times> json) list BadgerStorage" where
  "two_stored = \<lparr>bs_db = [(badger_key ''stats'' ''h'' 1700000000000, json_Stats zero_Stats),
     (badger_key ''stats'' ''h'' 1700000005000, json_Stats zero_Stats)], bs_gcClosed = False\<rparr>"

theorem badger_limit_keeps_oldest_witness:
  "BadgerStorage_GetStats list_badger h_digest validated_spec 0 None two_stored =
      ([entry_of 1700000000000, entry_of 1700000005000], None)
    \<and> BadgerStorage_GetStats list_badger h_digest validated_spec 1 None two_stored = ([entry_of 1700000000000], None)
    \<and> FileStorage_GetStats h_digest validated_spec 1 None
        (fresh_file\<lparr>fs_statsCache := [''h'' \<mapsto> [entry_of 1700000000000, entry_of 1700000005000]]\<rparr>) =
      Inr [entry_of 1700000005000]"
proof -
  let ?f = "fresh_file\<lparr>fs_statsCache := [''h'' \<mapsto> [entry_of 1700000000000, entry_of 1700000005000]]\<rparr>"
  have h: "LoadTestSpec_Hash h_digest validated_spec = ''h''" by (simp add: LoadTestSpec_Hash_def)
  have r: "recent_keys (map_of (bs_db two_stored)) ''stats'' ''h''"
    by (auto simp: two_stored_def recent_keys_def thirteen_digits_def split: if_splits)
  have u: "Unmarshal_Stats (json_Stats zero_Stats) = Some zero_Stats"
    using Unmarshal_json_Stats [OF example_stats_ok(1,2)] example_stats_ok(3) by (simp add: zero_Stats_def)
  then have v: "values_ok (map_of (bs_db two_stored)) ''stats'' ''h''"
    by (auto simp: two_stored_def values_ok_def split: if_splits)
  have names: "key_names ''stats'' ''h''" by (simp add: key_names_def)
  let ?k1 = "badger_key ''stats'' ''h'' 1700000000000" and ?k2 = "badger_key ''stats'' ''h'' 1700000005000"
  have d: "thirteen_digits 1700000000000" "thirteen_digits 1700000005000" by (simp_all add: thirteen_digits_def)
  have "\<not> ?k2 \<le> ?k1" using badger_key_mono [OF d(2,1), of "''stats''" "''h''"] by (auto simp: of_UnixMilli_def)
  then have k: "?k1 < ?k2" "?k1 \<noteq> ?k2" by auto
  have keys: "keys_under (map_of (bs_db two_stored)) (badger_prefix ''stats'' ''h'') = [?k1, ?k2]"
    by (rule sorted_distinct_set_unique)
      (use k in \<open>auto simp: keys_under finite_dom_map_of two_stored_def split: if_splits\<close>)
  have f: "FileStorage_GetStats h_digest validated_spec 0 None ?f =
      Inr [entry_of 1700000000000, entry_of 1700000005000]"
    by (simp add: FileStorage_GetStats_def select_entries_all newest_def cached_def h)
  have read: "BadgerStorage_GetStats list_badger h_digest validated_spec 0 None two_stored =
      ([entry_of 1700000000000, entry_of 1700000005000], None)"
  proof -
    have "entries_under (map_of (bs_db two_stored)) ''stats'' ''h'' = [entry_of 1700000000000, entry_of 1700000005000]"
      unfolding entries_under_def keys using k(2) names u by (simp add: two_stored_def entry_of_def)
    moreover have "after None e" for e by (simp add: after_def)
    ultimately show ?thesis
      using badger_read_entries [OF list_badger_laws names recent_keys_ok [OF r] v, of 0 None]
      by (simp add: BadgerStorage_GetStats_def h oldest_def)
  qed
  show ?thesis
    using badger_limit_keeps_oldest [OF list_badger_laws, where b = two_stored and digest = h_digest
        and spec = validated_spec and limit = 1 and f = ?f] h r v f read
    by (auto simp: key_names_def last_n_def)
qed

end
