(* ===== verification/Nats_Api.thy ===== *)
theory Nats_Api
  imports Config_Streams
begin

text \<open>
  The NATS client as the engine calls it.  The client library is not part of the program: its
  calls are the fields of two records, functions that change a world of an arbitrary type and
  return the error they report.  Errors the code compares with have a constructor.
\<close>

datatype nats_error =
  ErrStreamNotFound | ErrConsumerNotFound | ErrTimeout | ErrConnectionClosed | NatsError string

text \<open>The fields of \<open>nats.StreamConfig\<close> and \<open>nats.ConsumerConfig\<close> the code sets.\<close>

record StreamConfig =
  stc_Name :: string
  stc_Subjects :: "string list"
  stc_Replicas :: go_int
  stc_Retention :: RetentionPolicy
  stc_MaxAge :: Duration
  stc_Storage :: StorageType
  stc_DiscardNewPerSubject :: bool
  stc_Discard :: DiscardPolicy
  stc_MaxMsgs :: int64
  stc_MaxBytes :: int64
  stc_MaxMsgsPerSubject :: int64
  stc_MaxConsumers :: go_int

datatype AckPolicy = AckNonePolicy | AckAllPolicy | AckExplicitPolicy

record JsConsumerConfig =
  jcc_Durable :: string
  jcc_AckPolicy :: AckPolicy
  jcc_AckWait :: Duration
  jcc_MaxAckPending :: go_int
  jcc_DeliverSubject :: string

text \<open>A subscription is a handle, numbered by the library.\<close>

type_synonym subscription = nat

record 'w jetstream =
  js_DeleteStream :: "string \<Rightarrow> 'w \<Rightarrow> nats_error option \<times> 'w"
  js_AddStream :: "StreamConfig \<Rightarrow> 'w \<Rightarrow> nats_error option \<times> 'w"
  js_DeleteConsumer :: "string \<Rightarrow> string \<Rightarrow> 'w \<Rightarrow> nats_error option \<times> 'w"
  js_AddConsumer :: "string \<Rightarrow> JsConsumerConfig \<Rightarrow> 'w \<Rightarrow> nats_error option \<times> 'w"
  js_Subscribe :: "string \<Rightarrow> string \<Rightarrow> Duration \<Rightarrow> go_int \<Rightarrow> 'w \<Rightarrow> (nats_error + subscription) \<times> 'w"
  js_PullSubscribe :: "string \<Rightarrow> string \<Rightarrow> Duration \<Rightarrow> go_int \<Rightarrow> 'w \<Rightarrow> (nats_error + subscription) \<times> 'w"
  js_Publish :: "string \<Rightarrow> 8 word list \<Rightarrow> 'w \<Rightarrow> nats_error option \<times> 'w"

record 'w connection =
  nc_Subscribe :: "string \<Rightarrow> 'w \<Rightarrow> (nats_error + subscription) \<times> 'w"
  nc_Publish :: "string \<Rightarrow> 8 word list \<Rightarrow> 'w \<Rightarrow> nats_error option \<times> 'w"
  nc_Drain :: "subscription \<Rightarrow> 'w \<Rightarrow> nats_error option \<times> 'w"
  nc_IsConnected :: "'w \<Rightarrow> bool"
  nc_Close :: "'w \<Rightarrow> 'w"

end
