(* ===== verification/Backoff.thy ===== *)
theory Backoff
  imports Go_Time
begin

text \<open>
  The retry loop of the engine (\<open>exponentialBackoff\<close> of \<open>internal/engine/utils.go\<close>).  The
  function to retry changes a state; the context and the timer are given by an environment
  that says whether the context is done and whether it was cancelled during a wait.
\<close>

section \<open>The loop\<close>

datatype 'e backoff_error = NoAttempts | BadDuration | BadFactor | ContextDone | LastError 'e

record 's backoff_env =
  be_done :: "'s \<Rightarrow> bool"
  be_wait :: "Duration \<Rightarrow> 's \<Rightarrow> bool \<times> 's"

definition next_duration :: "impl \<Rightarrow> float64 \<Rightarrow> Duration \<Rightarrow> Duration \<Rightarrow> Duration" where
  "next_duration im factor cap current =
     smin (to_int64 im (float_of_int (sint current) * factor)) cap"

text \<open>The first argument counts the attempts that are left.\<close>

fun backoff_loop ::
  "impl \<Rightarrow> 's backoff_env \<Rightarrow> float64 \<Rightarrow> Duration \<Rightarrow> ('s \<Rightarrow> 'e option \<times> 's) \<Rightarrow> nat \<Rightarrow> Duration \<Rightarrow> 's
    \<Rightarrow> 'e backoff_error option \<times> 's" where
  "backoff_loop im env factor cap fn 0 current s = (None, s)"
| "backoff_loop im env factor cap fn (Suc left) current s =
     (if be_done env s then (Some ContextDone, s)
      else (case fn s of
              (None, s1) \<Rightarrow> (None, s1)
            | (Some err, s1) \<Rightarrow>
                (if left = 0 then (Some (LastError err), s1)
                 else (let current' = next_duration im factor cap current
                       in case be_wait env current' s1 of
                            (cancelled, s2) \<Rightarrow>
                              (if cancelled then (Some ContextDone, s2)
                               else backoff_loop im env factor cap fn left current' s2)))))"

definition exponentialBackoff ::
  "impl \<Rightarrow> 's backoff_env \<Rightarrow> Duration \<Rightarrow> float64 \<Rightarrow> go_int \<Rightarrow> Duration \<Rightarrow> ('s \<Rightarrow> 'e option \<times> 's) \<Rightarrow> 's
    \<Rightarrow> 'e backoff_error option \<times> 's" where
  "exponentialBackoff im env duration factor steps cap fn s =
     (if sint steps \<le> 0 then (Some NoAttempts, s)
      else if sint duration \<le> 0 then (Some BadDuration, s)
      else if factor \<le> Fin 0 then (Some BadFactor, s)
      else backoff_loop im env factor cap fn (nat (sint steps)) duration s)"

section \<open>Attempts\<close>

text \<open>
  The specification: with a context that is never cancelled and waits that leave the state
  alone, the loop is the first success among a number of attempts, or the last error.
\<close>

definition steady_env :: "'s backoff_env \<Rightarrow> bool" where
  "steady_env env \<longleftrightarrow> (\<forall>s. \<not> be_done env s) \<and> (\<forall>d s. be_wait env d s = (False, s))"

fun attempts :: "('s \<Rightarrow> 'e option \<times> 's) \<Rightarrow> nat \<Rightarrow> 's \<Rightarrow> 'e option \<times> 's" where
  "attempts fn 0 s = (None, s)"
| "attempts fn (Suc n) s =
     (case fn s of
        (None, s1) \<Rightarrow> (None, s1)
      | (Some err, s1) \<Rightarrow> (if n = 0 then (Some err, s1) else attempts fn n s1))"

lemma backoff_loop_steady:
  assumes "steady_env env"
  shows "backoff_loop im env factor cap fn n current s =
    (case attempts fn n s of (r, s') \<Rightarrow> (map_option LastError r, s'))"
proof (induction n arbitrary: current s)
  case (Suc n)
  then show ?case using assms
    by (simp add: steady_env_def Let_def split: prod.split option.split)
qed simp

text \<open>A call counter beside the state.\<close>

definition counted :: "('s \<Rightarrow> 'e option \<times> 's) \<Rightarrow> 's \<times> nat \<Rightarrow> 'e option \<times> 's \<times> nat" where
  "counted fn sn = (case fn (fst sn) of (r, s') \<Rightarrow> (r, s', Suc (snd sn)))"

definition counted_env :: "'s backoff_env \<Rightarrow> ('s \<times> nat) backoff_env" where
  "counted_env env =
     \<lparr>be_done = (\<lambda>sn. be_done env (fst sn)),
      be_wait = (\<lambda>d sn. case be_wait env d (fst sn) of (c, s') \<Rightarrow> (c, s', snd sn))\<rparr>"

lemma backoff_loop_calls:
  "snd (snd (backoff_loop im (counted_env env) factor cap (counted fn) n current (s, k))) \<le> k + n"
proof (induction n arbitrary: current s k)
  case (Suc n)
  show ?case
  proof (cases "be_done env s")
    case False
    obtain r s1 where f: "fn s = (r, s1)" by (cases "fn s")
    show ?thesis
    proof (cases r)
      case None
      with f False show ?thesis by (simp add: counted_def counted_env_def)
    next
      case (Some err)
      obtain c s2 where w: "be_wait env (next_duration im factor cap current) s1 = (c, s2)"
        by (cases "be_wait env (next_duration im factor cap current) s1")
      from Suc [of "next_duration im factor cap current" s2 "Suc k"] f Some False w show ?thesis
        by (simp add: counted_def counted_env_def [of env] Let_def split: if_splits)
    qed
  qed (simp add: counted_env_def)
qed simp

text \<open>The waits, recorded beside the state.\<close>

definition recording :: "(Duration list) backoff_env" where
  "recording = \<lparr>be_done = (\<lambda>_. False), be_wait = (\<lambda>d ds. (False, ds @ [d]))\<rparr>"

lemma next_duration_le_cap: "sint (next_duration im factor cap current) \<le> sint cap"
  by (simp add: next_duration_def)

lemma next_duration_exact:
  assumes "float_of_int (sint current) * factor = Fin r" and "\<bar>r\<bar> < 9223372036854775808"
  shows "next_duration im factor cap current = smin (word_of_int (trunc_rat r)) cap"
proof -
  have "- 9223372036854775808 \<le> trunc_rat r" "trunc_rat r < 9223372036854775808"
    using assms(2) by (auto simp: trunc_rat_def floor_less_iff le_floor_iff)
  then show ?thesis using assms(1) by (simp add: next_duration_def)
qed

end
