(* ===== verification/Stream_Manager.thy ===== *)
theory Stream_Manager
  imports Nats_Api Backoff
begin

text \<open>
  The stream manager (\<open>internal/engine/stream.go\<close>): \<open>SetupStreams\<close> deletes and creates every
  stream of a spec, each call retried with backoff, and \<open>CleanupStreams\<close> deletes them.  The
  lists of names and subjects may panic, so the loops run in \<open>outcome\<close>.
\<close>

section \<open>Setting up\<close>

definition stream_config :: "StreamSpec \<Rightarrow> string \<Rightarrow> string list \<Rightarrow> StreamConfig" where
  "stream_config s name subjects =
     \<lparr>stc_Name = name, stc_Subjects = subjects, stc_Replicas = scast (ss_Replicas s),
      stc_Retention = GetRetentionPolicy s, stc_MaxAge = GetMaxAge s,
      stc_Storage = GetStorageType s, stc_DiscardNewPerSubject = GetDiscardNewPerSubject s,
      stc_Discard = GetDiscardPolicy s, stc_MaxMsgs = GetMaxMsgs s, stc_MaxBytes = GetMaxBytes s,
      stc_MaxMsgsPerSubject = GetMaxMsgsPerSubject s, stc_MaxConsumers = GetMaxConsumers s\<rparr>"

datatype setup_error = ContextNil | DeleteFailed "nats_error backoff_error" | CreateFailed "nats_error backoff_error"

text \<open>A stream that is not there counts as deleted.\<close>

definition delete_stream :: "'w jetstream \<Rightarrow> string \<Rightarrow> 'w \<Rightarrow> nats_error option \<times> 'w" where
  "delete_stream js name w =
     (case js_DeleteStream js name w of
        (err, w1) \<Rightarrow> (if err \<noteq> None \<and> err \<noteq> Some ErrStreamNotFound then err else None, w1))"

definition create_stream :: "'w jetstream \<Rightarrow> StreamConfig \<Rightarrow> 'w \<Rightarrow> nats_error option \<times> 'w" where
  "create_stream js cfg w = js_AddStream js cfg w"

text \<open>The cap of the second call is written as the plain number 5: five nanoseconds.\<close>

definition setup_stream ::
  "impl \<Rightarrow> 'w backoff_env \<Rightarrow> 'w jetstream \<Rightarrow> StreamConfig \<Rightarrow> 'w \<Rightarrow> setup_error option \<times> 'w" where
  "setup_stream im env js cfg w =
     (case exponentialBackoff im env (1 * Second) (Fin (3 / 2)) 5 (5 * Second)
             (delete_stream js (stc_Name cfg)) w of
        (Some e, w1) \<Rightarrow> (Some (DeleteFailed e), w1)
      | (None, w1) \<Rightarrow>
          (case exponentialBackoff im env (1 * Second) (Fin (3 / 2)) 5 5 (create_stream js cfg) w1 of
             (Some e, w2) \<Rightarrow> (Some (CreateFailed e), w2)
           | (None, w2) \<Rightarrow> (None, w2)))"

fun setup_names ::
  "(string \<Rightarrow> int32 \<Rightarrow> string) \<Rightarrow> impl \<Rightarrow> 'w backoff_env \<Rightarrow> 'w jetstream \<Rightarrow> StreamSpec \<Rightarrow> nat \<Rightarrow> string list
    \<Rightarrow> 'w \<Rightarrow> (unit, setup_error option \<times> 'w) outcome" where
  "setup_names other im env js s i [] w = Return (None, w)"
| "setup_names other im env js s i (name # names) w =
     obind (GetFormattedSubjects other s (word_of_nat (Suc i))) (\<lambda>subjects.
       case setup_stream im env js (stream_config s name subjects) w of
         (Some e, w1) \<Rightarrow> Return (Some e, w1)
       | (None, w1) \<Rightarrow> setup_names other im env js s (Suc i) names w1)"

fun setup_specs ::
  "(string \<Rightarrow> int32 \<Rightarrow> string) \<Rightarrow> impl \<Rightarrow> 'w backoff_env \<Rightarrow> 'w jetstream \<Rightarrow> StreamSpec list
    \<Rightarrow> 'w \<Rightarrow> (unit, setup_error option \<times> 'w) outcome" where
  "setup_specs other im env js [] w = Return (None, w)"
| "setup_specs other im env js (s # ss) w =
     obind (GetFormattedStreamNames s) (\<lambda>names.
       obind (setup_names other im env js s 0 names w) (\<lambda>(e, w1).
         if e \<noteq> None then Return (e, w1) else setup_specs other im env js ss w1))"

definition SetupStreams ::
  "(string \<Rightarrow> int32 \<Rightarrow> string) \<Rightarrow> impl \<Rightarrow> 'w backoff_env option \<Rightarrow> 'w jetstream \<Rightarrow> LoadTestSpec
    \<Rightarrow> 'w \<Rightarrow> (unit, setup_error option \<times> 'w) outcome" where
  "SetupStreams other im ctx js lts w =
     (case ctx of None \<Rightarrow> Return (Some ContextNil, w)
      | Some env \<Rightarrow> setup_specs other im env js (lts_Streams lts) w)"

section \<open>Cleaning up\<close>

text \<open>Errors are logged only.\<close>

fun cleanup_names :: "'w jetstream \<Rightarrow> string list \<Rightarrow> 'w \<Rightarrow> 'w" where
  "cleanup_names js [] w = w"
| "cleanup_names js (name # names) w = cleanup_names js names (snd (js_DeleteStream js name w))"

fun cleanup_specs :: "'w jetstream \<Rightarrow> StreamSpec list \<Rightarrow> 'w \<Rightarrow> (unit, 'w) outcome" where
  "cleanup_specs js [] w = Return w"
| "cleanup_specs js (s # ss) w =
     obind (GetFormattedStreamNames s) (\<lambda>names. cleanup_specs js ss (cleanup_names js names w))"

definition CleanupStreams :: "'w jetstream \<Rightarrow> LoadTestSpec \<Rightarrow> 'w \<Rightarrow> (unit, 'w) outcome" where
  "CleanupStreams js lts w = cleanup_specs js (lts_Streams lts) w"

section \<open>A server that answers\<close>

text \<open>
  What JetStream documents of the two calls.  Only the stream that is named may change; a
  deletion that reports success, or that the stream was not there, leaves it gone, and an
  addition that reports success leaves it there with its configuration.  Both may fail.
\<close>

definition jetstream_laws :: "'w jetstream \<Rightarrow> ('w \<Rightarrow> string \<rightharpoonup> StreamConfig) \<Rightarrow> bool" where
  "jetstream_laws js streams \<longleftrightarrow>
     (\<forall>name w e w'. js_DeleteStream js name w = (e, w') \<longrightarrow>
        (\<forall>n. n \<noteq> name \<longrightarrow> streams w' n = streams w n)
        \<and> (e \<in> {None, Some ErrStreamNotFound} \<longrightarrow> streams w' name = None))
     \<and> (\<forall>cfg w e w'. js_AddStream js cfg w = (e, w') \<longrightarrow>
          (\<forall>n. n \<noteq> stc_Name cfg \<longrightarrow> streams w' n = streams w n)
          \<and> (e = None \<longrightarrow> streams w' (stc_Name cfg) = Some cfg))"

lemma jetstream_lawsD:
  assumes "jetstream_laws js streams"
  shows "js_DeleteStream js name w = (e, w') \<Longrightarrow> n \<noteq> name \<Longrightarrow> streams w' n = streams w n"
    and "js_DeleteStream js name w = (e, w') \<Longrightarrow> e \<in> {None, Some ErrStreamNotFound} \<Longrightarrow> streams w' name = None"
    and "js_AddStream js cfg w = (e, w') \<Longrightarrow> n \<noteq> stc_Name cfg \<Longrightarrow> streams w' n = streams w n"
    and "js_AddStream js cfg w = (None, w') \<Longrightarrow> streams w' (stc_Name cfg) = Some cfg"
  using assms unfolding jetstream_laws_def by blast+

text \<open>A stream whose deletion never fails, and one the server accepts when its name is free.\<close>

definition deletable :: "'w jetstream \<Rightarrow> string \<Rightarrow> bool" where
  "deletable js name \<longleftrightarrow> (\<forall>w. fst (js_DeleteStream js name w) \<in> {None, Some ErrStreamNotFound})"

definition acceptable :: "'w jetstream \<Rightarrow> ('w \<Rightarrow> string \<rightharpoonup> StreamConfig) \<Rightarrow> StreamConfig \<Rightarrow> bool" where
  "acceptable js streams cfg \<longleftrightarrow>
     (\<forall>w. streams w (stc_Name cfg) = None \<longrightarrow> fst (js_AddStream js cfg w) = None)"

lemma backoff_first_success:
  assumes "\<not> be_done env w" and "fn w = (None, w')"
    and "0 < sint steps" "0 < sint duration" "\<not> factor \<le> Fin 0"
  shows "exponentialBackoff im env duration factor steps cap fn w = (None, w')"
proof -
  obtain n where "nat (sint steps) = Suc n" using assms(3) by (cases "nat (sint steps)") auto
  with assms show ?thesis by (simp add: exponentialBackoff_def)
qed

lemma backoff_parameters [simp]:
  "0 < sint Second" "0 < sint (5 :: go_int)" "\<not> Fin (3 / 2) \<le> Fin 0" "\<not> Fin 2 \<le> Fin 0"
  by (simp_all add: Second_def float64_class_defs)

text \<open>What the calls and the waits keep, retrying keeps, and a retry that ends well ended with a call
  that did.\<close>

lemma backoff_loop_preserves:
  assumes "\<And>s. P s \<Longrightarrow> P (snd (fn s))" and "\<And>d s. P s \<Longrightarrow> P (snd (be_wait env d s))" and "P s"
  shows "P (snd (backoff_loop im env factor cap fn n current s))"
  using assms(3)
proof (induction n arbitrary: current s)
  case (Suc n)
  obtain r s1 where f: "fn s = (r, s1)" by (cases "fn s")
  obtain b s2 where w: "be_wait env (next_duration im factor cap current) s1 = (b, s2)"
    by (cases "be_wait env (next_duration im factor cap current) s1")
  have "P s1" using assms(1) [OF Suc.prems] f by simp
  moreover from this have "P s2" using assms(2) [of s1] w by (metis snd_conv)
  ultimately show ?case using Suc f w by (simp add: Let_def split: option.split)
qed simp

lemma exponentialBackoff_preserves:
  assumes "\<And>s. P s \<Longrightarrow> P (snd (fn s))" and "\<And>d s. P s \<Longrightarrow> P (snd (be_wait env d s))" and "P s"
  shows "P (snd (exponentialBackoff im env duration factor steps cap fn s))"
  using assms by (simp add: exponentialBackoff_def backoff_loop_preserves [of P])

lemma backoff_loop_succeeded:
  "backoff_loop im env factor cap fn (Suc n) current s = (None, s') \<Longrightarrow> \<exists>s1. fn s1 = (None, s')"
proof (induction n arbitrary: current s)
  case (Suc n)
  then show ?case by (auto simp: Let_def split: if_splits prod.splits option.splits)
qed (auto split: if_splits prod.splits option.splits)

lemma exponentialBackoff_succeeded:
  assumes "exponentialBackoff im env duration factor steps cap fn s = (None, s')"
  shows "\<exists>s1. fn s1 = (None, s')"
proof -
  obtain n where "nat (sint steps) = Suc n"
    using assms by (cases "nat (sint steps)") (auto simp: exponentialBackoff_def split: if_splits)
  then show ?thesis
    using assms backoff_loop_succeeded by (fastforce simp: exponentialBackoff_def split: if_splits)
qed

text \<open>Waiting leaves the streams of the server alone.\<close>

definition quiet_waits :: "'w backoff_env \<Rightarrow> ('w \<Rightarrow> string \<rightharpoonup> StreamConfig) \<Rightarrow> bool" where
  "quiet_waits env streams \<longleftrightarrow> (\<forall>d w. streams (snd (be_wait env d w)) = streams w)"

lemma setup_stream_laws:
  assumes laws: "jetstream_laws js streams" and waits: "quiet_waits env streams"
    and "setup_stream im env js cfg w = (r, w')"
  shows "n \<noteq> stc_Name cfg \<Longrightarrow> streams w' n = streams w n"
    and "r = None \<Longrightarrow> streams w' (stc_Name cfg) = Some cfg"
proof -
  let ?keeps = "\<lambda>v. \<forall>n. n \<noteq> stc_Name cfg \<longrightarrow> streams v n = streams w n"
  have wait: "?keeps (snd (be_wait env d v))" if "?keeps v" for d v
    using that waits by (simp add: quiet_waits_def)
  obtain e1 w1 where d: "exponentialBackoff im env (1 * Second) (Fin (3 / 2)) 5 (5 * Second)
      (delete_stream js (stc_Name cfg)) w = (e1, w1)" by fastforce
  obtain e2 w2 where a: "exponentialBackoff im env (1 * Second) (Fin (3 / 2)) 5 5 (create_stream js cfg) w1 = (e2, w2)"
    by fastforce
  have "?keeps (snd (delete_stream js (stc_Name cfg) v))" if "?keeps v" for v
    using that jetstream_lawsD(1) [OF laws] by (simp add: delete_stream_def split: prod.split)
  from exponentialBackoff_preserves [of ?keeps "delete_stream js (stc_Name cfg)" env w, OF this wait, of im _ "Fin (3 / 2)" 5] d
  have k1: "?keeps w1" by (metis snd_conv)
  have "?keeps (snd (create_stream js cfg v))" if "?keeps v" for v
    using that jetstream_lawsD(3) [OF laws] by (simp add: create_stream_def) (metis prod.collapse)
  from exponentialBackoff_preserves [of ?keeps "create_stream js cfg" env w1, OF this wait k1, of im _ "Fin (3 / 2)" 5] a
  have k2: "?keeps w2" by (metis snd_conv)
  have "streams w2 (stc_Name cfg) = Some cfg" if "e2 = None"
    using exponentialBackoff_succeeded [OF a [unfolded that]] jetstream_lawsD(4) [OF laws]
    by (auto simp: create_stream_def)
  with assms(3) d a k1 k2
  show "n \<noteq> stc_Name cfg \<Longrightarrow> streams w' n = streams w n" and "r = None \<Longrightarrow> streams w' (stc_Name cfg) = Some cfg"
    by (auto simp: setup_stream_def split: option.splits)
qed

text \<open>With a server that deletes and accepts the stream the first calls do.\<close>

lemma setup_stream_accepted:
  assumes laws: "jetstream_laws js streams" and env: "\<forall>w. \<not> be_done env w"
    and "deletable js (stc_Name cfg)" and "acceptable js streams cfg"
  shows "fst (setup_stream im env js cfg w) = None"
proof -
  obtain e w1 where d: "js_DeleteStream js (stc_Name cfg) w = (e, w1)" by fastforce
  have e: "e \<in> {None, Some ErrStreamNotFound}" using assms(3) d unfolding deletable_def by (metis fst_conv)
  then have "streams w1 (stc_Name cfg) = None" by (rule jetstream_lawsD(2) [OF laws d])
  then obtain w2 where a: "js_AddStream js cfg w1 = (None, w2)"
    using assms(4) unfolding acceptable_def by (metis prod.collapse)
  have "exponentialBackoff im env (1 * Second) (Fin (3 / 2)) 5 (5 * Second)
      (delete_stream js (stc_Name cfg)) w = (None, w1)"
    by (rule backoff_first_success) (use env d e in \<open>auto simp: delete_stream_def\<close>)
  moreover have "exponentialBackoff im env (1 * Second) (Fin (3 / 2)) 5 5 (create_stream js cfg) w1 = (None, w2)"
    by (rule backoff_first_success) (use env a in \<open>auto simp: create_stream_def\<close>)
  ultimately show ?thesis by (simp add: setup_stream_def)
qed

text \<open>The streams a spec asks for, in the order they are made.\<close>

definition configs_of :: "(string \<Rightarrow> int32 \<Rightarrow> string) \<Rightarrow> StreamSpec \<Rightarrow> StreamConfig list" where
  "configs_of other s =
     map (\<lambda>i. stream_config s (stream_name (ss_NamePrefix s) i)
                (map (subject_text other (word_of_nat (Suc i))) (ss_Subjects s)))
       [0..<nat (sint (ss_Count s))]"

definition spec_configs :: "(string \<Rightarrow> int32 \<Rightarrow> string) \<Rightarrow> LoadTestSpec \<Rightarrow> StreamConfig list" where
  "spec_configs other lts = concat (map (configs_of other) (lts_Streams lts))"

definition install :: "StreamConfig list \<Rightarrow> (string \<rightharpoonup> StreamConfig) \<Rightarrow> string \<rightharpoonup> StreamConfig" where
  "install cfgs m = foldl (\<lambda>m c. m(stc_Name c \<mapsto> c)) m cfgs"

lemma install_simps [simp]:
  "install [] m = m" "install (c # cs) m = install cs (m(stc_Name c \<mapsto> c))"
  "install (xs @ ys) m = install ys (install xs m)"
  by (simp_all add: install_def)

lemma install_other: "n \<notin> stc_Name ` set cfgs \<Longrightarrow> install cfgs m n = m n"
  by (induction cfgs arbitrary: m) auto

text \<open>Subject lists are short enough for the 32-bit length the code compares with.\<close>

definition countable_subjects :: "LoadTestSpec \<Rightarrow> bool" where
  "countable_subjects lts \<longleftrightarrow> (\<forall>s \<in> set (lts_Streams lts). length (ss_Subjects s) < 2147483648)"

text \<open>The outcome of a loop over a list of configurations: all of them are there when it ends without
  an error, other names are untouched, and it ends without one on a server that accepts them all.\<close>

definition set_up ::
  "'w backoff_env \<Rightarrow> 'w jetstream \<Rightarrow> ('w \<Rightarrow> string \<rightharpoonup> StreamConfig) \<Rightarrow> StreamConfig list \<Rightarrow> 'w \<Rightarrow> setup_error option \<Rightarrow> 'w \<Rightarrow> bool"
where
  "set_up env js streams cfgs w r w' \<longleftrightarrow>
     (r = None \<longrightarrow> streams w' = install cfgs (streams w))
   \<and> (\<forall>n. n \<notin> stc_Name ` set cfgs \<longrightarrow> streams w' n = streams w n)
   \<and> ((\<forall>v. \<not> be_done env v) \<and> (\<forall>cfg \<in> set cfgs. deletable js (stc_Name cfg) \<and> acceptable js streams cfg) \<longrightarrow> r = None)"

lemma set_up_one:
  assumes "jetstream_laws js streams" and "quiet_waits env streams" and "setup_stream im env js cfg w = (r, w')"
  shows "set_up env js streams [cfg] w r w'"
proof -
  note k = setup_stream_laws [OF assms]
  have "streams w' = (streams w)(stc_Name cfg \<mapsto> cfg)" if "r = None"
    using k(1) k(2) [OF that] by (intro ext) simp
  moreover have "r = None" if "\<forall>v. \<not> be_done env v" "deletable js (stc_Name cfg)" "acceptable js streams cfg"
    using setup_stream_accepted [OF assms(1) that, of im w] assms(3) by simp
  ultimately show ?thesis using k(1) by (simp add: set_up_def)
qed

lemma set_up_append:
  assumes "set_up env js streams xs w None w1" and "set_up env js streams ys w1 r w2"
  shows "set_up env js streams (xs @ ys) w r w2"
  unfolding set_up_def
proof (intro conjI impI)
  show "streams w2 = install (xs @ ys) (streams w)" if "r = None"
    using assms that by (simp add: set_up_def)
  show "\<forall>n. n \<notin> stc_Name ` set (xs @ ys) \<longrightarrow> streams w2 n = streams w n"
    using assms by (simp add: set_up_def image_Un install_other)
  show "r = None" if "(\<forall>v. \<not> be_done env v)
      \<and> (\<forall>cfg \<in> set (xs @ ys). deletable js (stc_Name cfg) \<and> acceptable js streams cfg)"
    using assms(2) that by (simp add: set_up_def)
qed

lemma set_up_failed:
  assumes "set_up env js streams xs w (Some e) w1" shows "set_up env js streams (xs @ ys) w (Some e) w1"
  using assms by (auto simp: set_up_def)

lemma setup_names_laws:
  assumes laws: "jetstream_laws js streams" "quiet_waits env streams"
    and short: "length (ss_Subjects s) < 2147483648"
  shows "\<exists>r w'. setup_names other im env js s i names w = Return (r, w')
    \<and> set_up env js streams (map (\<lambda>(k, name). stream_config s name
          (map (subject_text other (word_of_nat (Suc (i + k)))) (ss_Subjects s)))
          (zip [0..<length names] names)) w r w'"
proof (induction names arbitrary: i w)
  case (Cons name names)
  let ?cfg = "stream_config s name (map (subject_text other (word_of_nat (Suc i))) (ss_Subjects s))"
  let ?rest = "map (\<lambda>(k, name). stream_config s name
          (map (subject_text other (word_of_nat (Suc (Suc i + k)))) (ss_Subjects s)))
          (zip [0..<length names] names)"
  have z: "zip [0..<length (name # names)] (name # names) =
      (0, name) # map (\<lambda>(k, n). (Suc k, n)) (zip [0..<length names] names)"
    by (simp add: upt_conv_Cons map_Suc_upt [symmetric] zip_map1 del: upt_Suc)
  obtain r1 w1 where s: "setup_stream im env js ?cfg w = (r1, w1)" by fastforce
  note one = set_up_one [OF laws s]
  have "\<exists>r w'. setup_names other im env js s i (name # names) w = Return (r, w')
    \<and> set_up env js streams ([?cfg] @ ?rest) w r w'"
  proof (cases r1)
    case None
    obtain r w' where "setup_names other im env js s (Suc i) names w1 = Return (r, w')"
      "set_up env js streams ?rest w1 r w'" using Cons [of "Suc i" w1] by blast
    then show ?thesis using s None set_up_append [OF one [unfolded None]]
      by (simp add: GetFormattedSubjects_eq [OF short])
  next
    case (Some e)
    then show ?thesis using s set_up_failed [OF one [unfolded Some], of ?rest]
      by (simp add: GetFormattedSubjects_eq [OF short])
  qed
  then show ?case unfolding z by (simp add: case_prod_unfold o_def)
qed (simp add: set_up_def)

lemma configs_of_zip:
  "configs_of other s = map (\<lambda>(k, name). stream_config s name
      (map (subject_text other (word_of_nat (Suc (0 + k)))) (ss_Subjects s)))
      (zip [0..<length (map (stream_name (ss_NamePrefix s)) [0..<nat (sint (ss_Count s))])]
        (map (stream_name (ss_NamePrefix s)) [0..<nat (sint (ss_Count s))]))"
  by (simp add: configs_of_def zip_map2 zip_same_conv_map)

lemma setup_specs_laws:
  assumes laws: "jetstream_laws js streams" "quiet_waits env streams"
    and ok: "\<forall>s \<in> set ss. stream_ok s \<and> length (ss_Subjects s) < 2147483648"
  shows "\<exists>r w'. setup_specs other im env js ss w = Return (r, w')
    \<and> set_up env js streams (concat (map (configs_of other) ss)) w r w'"
  using ok
proof (induction ss arbitrary: w)
  case (Cons s ss)
  let ?names = "map (stream_name (ss_NamePrefix s)) [0..<nat (sint (ss_Count s))]"
  obtain r1 w1 where s: "setup_names other im env js s 0 ?names w = Return (r1, w1)"
    "set_up env js streams (configs_of other s) w r1 w1"
    using setup_names_laws [OF laws, of s other im 0 ?names w] Cons.prems
    unfolding configs_of_zip by auto
  have n: "GetFormattedStreamNames s = Return ?names" using Cons.prems by (simp add: GetFormattedStreamNames_ok)
  show ?case
  proof (cases r1)
    case None
    obtain r w2 where "setup_specs other im env js ss w1 = Return (r, w2)"
      "set_up env js streams (concat (map (configs_of other) ss)) w1 r w2"
      using Cons.IH [of w1] Cons.prems by auto
    then show ?thesis using n s(1) set_up_append [OF s(2) [unfolded None]] None by simp
  next
    case (Some e)
    then show ?thesis
      using n s(1) set_up_failed [OF s(2) [unfolded Some], of "concat (map (configs_of other) ss)"] by simp
  qed
qed (simp add: set_up_def)

definition spec_stream_names :: "LoadTestSpec \<Rightarrow> string set" where
  "spec_stream_names lts =
     {stream_name (ss_NamePrefix s) i | s i. s \<in> set (lts_Streams lts) \<and> i < nat (sint (ss_Count s))}"

text \<open>Cleaning up deletes what can be deleted, and touches nothing else.\<close>

definition cleaned :: "'w jetstream \<Rightarrow> ('w \<Rightarrow> string \<rightharpoonup> StreamConfig) \<Rightarrow> string set \<Rightarrow> 'w \<Rightarrow> 'w \<Rightarrow> bool" where
  "cleaned js streams names w w' \<longleftrightarrow>
     (\<forall>n. n \<notin> names \<longrightarrow> streams w' n = streams w n)
   \<and> (\<forall>n \<in> names. deletable js n \<longrightarrow> streams w' n = None)"

lemma cleaned_trans:
  "cleaned js streams A w w1 \<Longrightarrow> cleaned js streams B w1 w2 \<Longrightarrow> cleaned js streams (A \<union> B) w w2"
  by (fastforce simp: cleaned_def)

lemma cleanup_names_laws:
  assumes "jetstream_laws js streams"
  shows "cleaned js streams (set names) w (cleanup_names js names w)"
proof (induction names arbitrary: w)
  case (Cons name names)
  obtain e w1 where d: "js_DeleteStream js name w = (e, w1)" by fastforce
  have "deletable js name \<Longrightarrow> e \<in> {None, Some ErrStreamNotFound}"
    using d unfolding deletable_def by (metis fst_conv)
  then have "cleaned js streams {name} w w1"
    using jetstream_lawsD(1,2) [OF assms d] by (auto simp: cleaned_def)
  from cleaned_trans [OF this Cons] d show ?case by simp
qed (simp add: cleaned_def)

lemma cleanup_specs_laws:
  assumes laws: "jetstream_laws js streams" and ok: "\<forall>s \<in> set ss. stream_ok s"
  shows "\<exists>w'. cleanup_specs js ss w = Return w' \<and> cleaned js streams
    (\<Union>s \<in> set ss. stream_name (ss_NamePrefix s) ` {..<nat (sint (ss_Count s))}) w w'"
  using ok
proof (induction ss arbitrary: w)
  case (Cons s ss)
  let ?names = "map (stream_name (ss_NamePrefix s)) [0..<nat (sint (ss_Count s))]"
  from Cons obtain w' where w': "cleanup_specs js ss (cleanup_names js ?names w) = Return w'"
    "cleaned js streams (\<Union>s \<in> set ss. stream_name (ss_NamePrefix s) ` {..<nat (sint (ss_Count s))})
       (cleanup_names js ?names w) w'"
    by fastforce
  have "set ?names = stream_name (ss_NamePrefix s) ` {..<nat (sint (ss_Count s))}" by auto
  with cleaned_trans [OF cleanup_names_laws [OF laws, of ?names w] w'(2)] w'(1) Cons.prems show ?case
    by (simp add: GetFormattedStreamNames_ok)
qed (simp add: cleaned_def)

lemma install_distinct:
  "distinct (map stc_Name cfgs) \<Longrightarrow> c \<in> set cfgs \<Longrightarrow> install cfgs m (stc_Name c) = Some c"
proof (induction cfgs arbitrary: m)
  case (Cons d cfgs)
  then show ?case by (auto simp: install_other)
qed simp

lemma stc_Name_stream_config [simp]: "stc_Name (stream_config s n t) = n"
  by (simp add: stream_config_def)

lemma names_configs_of:
  "map stc_Name (configs_of other s) = map (stream_name (ss_NamePrefix s)) [0..<nat (sint (ss_Count s))]"
  by (simp add: configs_of_def o_def)

lemma names_spec_configs: "stc_Name ` set (spec_configs other lts) = spec_stream_names lts"
  by (auto simp: spec_configs_def spec_stream_names_def configs_of_def image_iff)

lemma distinct_names_of:
  "distinct (map ss_NamePrefix ss) \<Longrightarrow> distinct (map stc_Name (concat (map (configs_of other) ss)))"
proof (induction ss)
  case (Cons s ss)
  have "distinct (map stc_Name (configs_of other s))"
    by (auto simp: names_configs_of distinct_map inj_on_def)
  moreover have "stc_Name ` set (configs_of other s) \<inter> stc_Name ` (\<Union>t \<in> set ss. set (configs_of other t)) = {}"
    using Cons.prems by (auto simp: configs_of_def)
  ultimately show ?case using Cons by (auto simp: image_UN)
qed simp

end
