(* ===== verification/Targets.thy ===== *)
theory Targets
  imports Stream_Manager
begin

text \<open>
  The nested loops that \<open>CreatePublishers\<close> and \<open>CreateConsumers\<close> share: over the streams with
  the wanted prefix, the names of each, the subjects of each name and the workers per subject.
  A target is one pass through the innermost loop.
\<close>

record target =
  tg_stream :: nat
  tg_name :: string
  tg_subjectIndex :: nat
  tg_subject :: string
  tg_worker :: nat

definition subject_targets :: "nat \<Rightarrow> nat \<Rightarrow> string \<Rightarrow> string list \<Rightarrow> target list" where
  "subject_targets n i name subjects =
     concat (map (\<lambda>(k, subject).
       map (\<lambda>j. \<lparr>tg_stream = i, tg_name = name, tg_subjectIndex = k, tg_subject = subject, tg_worker = j\<rparr>)
         [0..<n]) (List.enumerate 0 subjects))"

definition stream_targets ::
  "(string \<Rightarrow> int32 \<Rightarrow> string) \<Rightarrow> nat \<Rightarrow> StreamSpec \<Rightarrow> (unit, target list) outcome" where
  "stream_targets other n s =
     obind (GetFormattedStreamNames s) (\<lambda>names.
       obind (omap (\<lambda>(i, name).
                obind (GetFormattedSubjects other s (word_of_nat (Suc i))) (\<lambda>subjects.
                  Return (subject_targets n i name subjects)))
              (List.enumerate 0 names))
         (\<lambda>groups. Return (concat groups)))"

text \<open>The streams whose prefix is not the wanted one are skipped.\<close>

definition targets ::
  "(string \<Rightarrow> int32 \<Rightarrow> string) \<Rightarrow> string \<Rightarrow> int32 \<Rightarrow> StreamSpec list \<Rightarrow> (unit, target list) outcome" where
  "targets other pre count_per_stream streams =
     obind (omap (stream_targets other (nat (sint count_per_stream)))
              (filter (\<lambda>s. ss_NamePrefix s = pre) streams))
       (\<lambda>groups. Return (concat groups))"

text \<open>\<open>"%d-%d-%d"\<close> and \<open>"%d_%d_%d"\<close> of the 1-based stream, the subject and the 1-based worker.\<close>

definition target_suffix :: "char \<Rightarrow> target \<Rightarrow> string" where
  "target_suffix sep t = show_int (int (tg_stream t) + 1) @ sep # show_int (int (tg_subjectIndex t))
     @ sep # show_int (int (tg_worker t) + 1)"

section \<open>The targets of a well-formed spec\<close>

definition targets_of :: "(string \<Rightarrow> int32 \<Rightarrow> string) \<Rightarrow> nat \<Rightarrow> StreamSpec \<Rightarrow> target list" where
  "targets_of other n s =
     concat (map (\<lambda>i. subject_targets n i (stream_name (ss_NamePrefix s) i)
                  (map (subject_text other (word_of_nat (Suc i))) (ss_Subjects s)))
       [0..<nat (sint (ss_Count s))])"

lemma stream_targets_ok:
  assumes "stream_ok s" and short: "length (ss_Subjects s) < 2147483648"
  shows "stream_targets other n s = Return (targets_of other n s)"
proof -
  let ?names = "map (stream_name (ss_NamePrefix s)) [0..<nat (sint (ss_Count s))]"
  let ?group = "\<lambda>i. subject_targets n i (stream_name (ss_NamePrefix s) i)
      (map (subject_text other (word_of_nat (Suc i))) (ss_Subjects s))"
  have "omap (\<lambda>(i, name). obind (GetFormattedSubjects other s (word_of_nat (Suc i))) (\<lambda>subjects.
        Return (subject_targets n i name subjects))) (List.enumerate 0 ?names)
      = Return (map (\<lambda>(i, name). ?group i) (List.enumerate 0 ?names))"
    by (rule omap_Return)
      (auto simp: GetFormattedSubjects_eq [OF short] in_set_enumerate_eq)
  moreover have "map (\<lambda>(i, name). ?group i) (List.enumerate 0 ?names) = map ?group [0..<nat (sint (ss_Count s))]"
    by (rule nth_equalityI) (simp_all add: nth_enumerate_eq)
  ultimately show ?thesis
    by (simp add: stream_targets_def GetFormattedStreamNames_ok [OF assms(1)] targets_of_def)
qed

lemma targets_ok:
  assumes "\<forall>s \<in> set streams. stream_ok s \<and> length (ss_Subjects s) < 2147483648"
  shows "targets other pre n streams =
    Return (concat (map (targets_of other (nat (sint n))) (filter (\<lambda>s. ss_NamePrefix s = pre) streams)))"
proof -
  have "omap (stream_targets other (nat (sint n))) (filter (\<lambda>s. ss_NamePrefix s = pre) streams)
      = Return (map (targets_of other (nat (sint n))) (filter (\<lambda>s. ss_NamePrefix s = pre) streams))"
    by (rule omap_Return) (use assms in \<open>auto intro: stream_targets_ok\<close>)
  then show ?thesis by (simp add: targets_def)
qed

text \<open>With distinct prefixes one stream spec matches.\<close>

lemma filter_unique_prefix:
  "distinct (map ss_NamePrefix ss) \<Longrightarrow> s \<in> set ss \<Longrightarrow>
   filter (\<lambda>t. ss_NamePrefix t = ss_NamePrefix s) ss = [s]"
proof (induction ss)
  case (Cons t ss)
  then show ?case by (auto simp: filter_empty_conv) (metis image_eqI)
qed simp

lemma length_subject_targets: "length (subject_targets n i name subjects) = length subjects * n"
  by (simp add: subject_targets_def length_concat o_def case_prod_unfold sum_list_triv)

lemma length_targets_of:
  "length (targets_of other n s) = nat (sint (ss_Count s)) * (length (ss_Subjects s) * n)"
  by (simp add: targets_of_def length_concat o_def length_subject_targets sum_list_triv)

lemma set_targets_of:
  "t \<in> set (targets_of other n s) \<longleftrightarrow>
    tg_stream t < nat (sint (ss_Count s)) \<and> tg_name t = stream_name (ss_NamePrefix s) (tg_stream t)
    \<and> tg_subjectIndex t < length (ss_Subjects s)
    \<and> tg_subject t = subject_text other (word_of_nat (Suc (tg_stream t))) (ss_Subjects s ! tg_subjectIndex t)
    \<and> tg_worker t < n"
proof -
  have group: "t \<in> set (subject_targets n i name subs) \<longleftrightarrow> tg_stream t = i \<and> tg_name t = name
      \<and> tg_subjectIndex t < length subs \<and> tg_subject t = subs ! tg_subjectIndex t \<and> tg_worker t < n"
    for i name subs
    by (cases t) (auto simp: subject_targets_def in_set_enumerate_eq image_iff Bex_def)
  show ?thesis by (auto simp: targets_of_def group)
qed

lemma target_suffix_inject:
  assumes "target_suffix sep t = target_suffix sep u" and "\<not> is_digit sep"
  shows "tg_stream t = tg_stream u \<and> tg_subjectIndex t = tg_subjectIndex u \<and> tg_worker t = tg_worker u"
proof -
  have free: "sep \<notin> set (show_int (int k))" for k
    using assms(2) digits_all_digit [of k] by (auto simp: show_int_def list_all_iff)
  have split: "Split (target_suffix sep v) sep =
      [show_int (int (tg_stream v) + 1), show_int (int (tg_subjectIndex v)), show_int (int (tg_worker v) + 1)]" for v
    using free [of "Suc (tg_stream v)"] free [of "tg_subjectIndex v"] free [of "Suc (tg_worker v)"]
    by (simp add: target_suffix_def go_string add.commute)
  from split [of t] split [of u] assms(1) show ?thesis by simp
qed

text \<open>The positions of the targets run through a product of ranges, so each occurs once.\<close>

definition tg_position :: "target \<Rightarrow> nat \<times> nat \<times> nat" where
  "tg_position t = (tg_stream t, tg_subjectIndex t, tg_worker t)"

lemma positions_subject_targets:
  "map tg_position (subject_targets n i name subs) = map (Pair i) (List.product [0..<length subs] [0..<n])"
proof -
  have "map tg_position (subject_targets n i name subs) =
      concat (map (\<lambda>p. map (\<lambda>j. (i, fst p, j)) [0..<n]) (List.enumerate 0 subs))"
    by (simp add: subject_targets_def map_concat o_def case_prod_unfold tg_position_def)
  also have "\<dots> = concat (map (\<lambda>k. map (\<lambda>j. (i, k, j)) [0..<n]) (map fst (List.enumerate 0 subs)))"
    by (simp only: map_map o_def)
  finally show ?thesis by (simp add: product_concat_map map_concat o_def)
qed

lemma positions_targets_of:
  "map tg_position (targets_of other n s) =
    List.product [0..<nat (sint (ss_Count s))] (List.product [0..<length (ss_Subjects s)] [0..<n])"
  by (simp add: targets_of_def map_concat o_def positions_subject_targets product_concat_map)

lemma distinct_positions: "distinct (map tg_position (targets_of other n s))"
  by (simp add: positions_targets_of distinct_product)

lemma distinct_target_suffixes:
  assumes "\<not> is_digit sep" shows "distinct (map (target_suffix sep) (targets_of other n s))"
proof -
  have "inj_on (target_suffix sep) (set (targets_of other n s))"
  proof (rule inj_onI)
    fix t u
    assume t: "t \<in> set (targets_of other n s)" and u: "u \<in> set (targets_of other n s)"
      and eq: "target_suffix sep t = target_suffix sep u"
    have "tg_position t = tg_position u"
      using target_suffix_inject [OF eq assms] by (simp add: tg_position_def)
    with t u show "t = u"
      using distinct_positions [of other n s] by (simp add: distinct_map inj_on_def)
  qed
  moreover have "distinct (targets_of other n s)"
    using distinct_positions [of other n s] by (simp add: distinct_map)
  ultimately show ?thesis by (simp add: distinct_map)
qed

end
