(* ===== verification/Ramp_Up.thy ===== *)
theory Ramp_Up
  imports Collector
begin

text \<open>
  The ramp-up controller (\<open>internal/engine/rampup.go\<close>).  It sees a publisher through the
  interface \<open>PublisherInterface\<close> of \<open>interfaces.go\<close>, of which it calls \<open>GetTargetRate\<close>,
  \<open>GetCurrentRate\<close> and \<open>SetRate\<close>: parameters of the definitions, and the locale of the
  contract a publisher keeps.  The loop of \<open>Start\<close> is a step per event of its \<open>select\<close>.
\<close>

section \<open>Rates\<close>

definition setAllPublishersToFullRate ::
  "('p \<Rightarrow> int32) \<Rightarrow> (int32 \<Rightarrow> 'p \<Rightarrow> 'p) \<Rightarrow> 'p list \<Rightarrow> 'p list" where
  "setAllPublishersToFullRate getTarget setRate publishers =
     map (\<lambda>p. setRate (getTarget p) p) publishers"

definition ramp_rate :: "impl \<Rightarrow> float64 \<Rightarrow> int32 \<Rightarrow> int32" where
  "ramp_rate im progress targetRate =
     smax 1 (smin targetRate (to_int32 im (progress * float_of_int (sint targetRate))))"

definition updatePublisherRates ::
  "impl \<Rightarrow> ('p \<Rightarrow> int32) \<Rightarrow> (int32 \<Rightarrow> 'p \<Rightarrow> 'p) \<Rightarrow> float64 \<Rightarrow> 'p list \<Rightarrow> 'p list" where
  "updatePublisherRates im getTarget setRate progress publishers =
     map (\<lambda>p. setRate (ramp_rate im progress (getTarget p)) p) publishers"

section \<open>The loop\<close>

definition currentProgress :: "Time \<Rightarrow> Duration \<Rightarrow> Time \<Rightarrow> float64" where
  "currentProgress rampUpStart duration now =
     fmax (fl (1 / 100))
       (fmin (fdiv (float_of_int (sint (Sub now rampUpStart))) (float_of_int (sint duration))) (Fin 1))"

definition remainingDuration :: "Time \<Rightarrow> Duration \<Rightarrow> Time \<Rightarrow> Duration" where
  "remainingDuration rampUpStart duration now = smax (duration - Sub now rampUpStart) 0"

datatype ramp_status = RampRunning | RampFinished | RampCancelled

record 'p ramp =
  ra_status :: ramp_status
  ra_start :: Time
  ra_duration :: Duration
  ra_publishers :: "'p list"
  ra_collector :: "Collector option"

definition report :: "bool \<Rightarrow> float64 \<Rightarrow> Duration \<Rightarrow> 'p ramp \<Rightarrow> 'p ramp" where
  "report active progress remaining r =
     r\<lparr>ra_collector := map_option (SetRampUpStatus active progress remaining) (ra_collector r)\<rparr>"

definition ramp_begin ::
  "('p \<Rightarrow> int32) \<Rightarrow> (int32 \<Rightarrow> 'p \<Rightarrow> 'p) \<Rightarrow> Time \<Rightarrow> 'p list \<Rightarrow> Duration \<Rightarrow> Collector option \<Rightarrow> 'p ramp" where
  "ramp_begin getTarget setRate now publishers duration collector =
     (let r = \<lparr>ra_status = RampRunning, ra_start = now, ra_duration = duration,
               ra_publishers = publishers, ra_collector = collector\<rparr>
      in if duration = 0
         then report False (Fin 0) 0
                (r\<lparr>ra_status := RampFinished,
                   ra_publishers := setAllPublishersToFullRate getTarget setRate publishers\<rparr>)
         else report True (currentProgress now duration now * Fin 100) (remainingDuration now duration now) r)"

text \<open>The cases of the \<open>select\<close>; the sums of rates the ticker's case computes are not used.\<close>

datatype ramp_event = RampDone | RampTimer | RampTick Time

fun ramp_handle ::
  "impl \<Rightarrow> ('p \<Rightarrow> int32) \<Rightarrow> (int32 \<Rightarrow> 'p \<Rightarrow> 'p) \<Rightarrow> ramp_event \<Rightarrow> 'p ramp \<Rightarrow> 'p ramp" where
  "ramp_handle im getTarget setRate RampDone r = r\<lparr>ra_status := RampCancelled\<rparr>"
| "ramp_handle im getTarget setRate RampTimer r =
     report False (Fin 100) 0
       (r\<lparr>ra_status := RampFinished,
          ra_publishers := setAllPublishersToFullRate getTarget setRate (ra_publishers r)\<rparr>)"
| "ramp_handle im getTarget setRate (RampTick now) r =
     (let progress = currentProgress (ra_start r) (ra_duration r) now;
          remaining = remainingDuration (ra_start r) (ra_duration r) now
      in report True (progress * Fin 100) remaining
           (r\<lparr>ra_publishers := updatePublisherRates im getTarget setRate progress (ra_publishers r)\<rparr>))"

inductive ramp_reaches ::
  "impl \<Rightarrow> ('p \<Rightarrow> int32) \<Rightarrow> (int32 \<Rightarrow> 'p \<Rightarrow> 'p) \<Rightarrow> 'p ramp \<Rightarrow> 'p ramp \<Rightarrow> bool"
  for im getTarget setRate r0 where
  ramp_reaches_refl: "ramp_reaches im getTarget setRate r0 r0"
| ramp_reaches_step: "ramp_reaches im getTarget setRate r0 r \<Longrightarrow> ra_status r = RampRunning \<Longrightarrow>
    ramp_reaches im getTarget setRate r0 (ramp_handle im getTarget setRate e r)"

section \<open>Progress\<close>

definition c01 :: rat where
  "c01 = 5764607523034235 / 576460752303423488"

lemma fl_1_percent: "fl (1 / 100) = Fin c01"
proof -
  have "fl (1 / 100) = Fin (of_int 5764607523034235 * pow2 (- 7 - 52))"
    by (rule fl_eval [where e = "- 7"], simp_all, rule round_even_near) simp
  then show ?thesis by (simp add: c01_def)
qed

definition unit_progress :: "float64 \<Rightarrow> bool" where
  "unit_progress x \<longleftrightarrow> (\<exists>q. x = Fin q \<and> 0 < q \<and> q \<le> 1)"

lemma float_of_int64_finite:
  "\<exists>q. float_of_int (sint (x :: int64)) = Fin q \<and> \<bar>q\<bar> \<le> pow2 63 \<and> (sint x \<noteq> 0 \<longrightarrow> 1 \<le> \<bar>q\<bar>)"
proof -
  let ?i = "sint x"
  have "\<bar>?i\<bar> \<le> 9223372036854775808"
    using sint64_lower [of x] sint64_upper [of x] by linarith
  then have "of_int \<bar>?i\<bar> \<le> (of_int 9223372036854775808 :: rat)" by (simp only: of_int_le_iff)
  then have b: "\<bar>of_int ?i\<bar> \<le> pow2 63" by simp
  have f: "float_of_int ?i = Fin (round_rat (of_int ?i))"
    unfolding float_of_int_def by (rule fl_finite [OF b]) simp_all
  moreover have "\<bar>round_rat (of_int ?i)\<bar> \<le> pow2 63" by (rule round_rat_abs_le [OF b]) simp
  moreover have "1 \<le> \<bar>round_rat (of_int ?i)\<bar>" if "?i \<noteq> 0"
  proof (cases "0 < ?i")
    case True
    then have "(1 :: rat) \<le> of_int ?i" by simp
    from round_rat_mono [OF this] have "1 \<le> round_rat (of_int ?i)"
      using round_rat_of_int [of 1] by simp
    then show ?thesis by simp
  next
    case False
    with that have "of_int ?i \<le> (- 1 :: rat)" by simp
    from round_rat_mono [OF this] have "round_rat (of_int ?i) \<le> - 1"
      using round_rat_of_int [of "- 1"] by simp
    then show ?thesis by simp
  qed
  ultimately show ?thesis by auto
qed

lemma currentProgress_unit:
  assumes "duration \<noteq> 0" shows "unit_progress (currentProgress start duration now)"
proof -
  obtain a where a: "float_of_int (sint (Sub now start)) = Fin a" "\<bar>a\<bar> \<le> pow2 63"
    using float_of_int64_finite by blast
  have "sint duration \<noteq> 0" using assms by (simp add: word_eq_sint_iff)
  then obtain d where d: "float_of_int (sint duration) = Fin d" "1 \<le> \<bar>d\<bar>"
    using float_of_int64_finite [of duration] by blast
  have "\<bar>a\<bar> * 1 \<le> \<bar>a\<bar> * \<bar>d\<bar>" using d(2) by (intro mult_left_mono) simp_all
  moreover have "0 < \<bar>d\<bar>" using d(2) by linarith
  ultimately have "\<bar>a / d\<bar> \<le> \<bar>a\<bar>" by (simp add: pos_divide_le_eq)
  with a(2) have "\<bar>a / d\<bar> \<le> pow2 63" by linarith
  then have "fl (a / d) = Fin (round_rat (a / d))" by (rule fl_finite) simp_all
  moreover have "d \<noteq> 0" using d(2) by auto
  ultimately have "currentProgress start duration now =
      fmax (Fin c01) (fmin (Fin (round_rat (a / d))) (Fin 1))"
    by (simp add: currentProgress_def a d fl_1_percent)
  moreover have "0 < c01" "c01 \<le> 1" by (simp_all add: c01_def)
  ultimately show ?thesis by (auto simp: unit_progress_def fmax_def fmin_def)
qed

lemma ramp_rate_bounds:
  assumes "0 < sint target" and "unit_progress progress"
  shows "1 \<le> sint (ramp_rate im progress target)" and "sint (ramp_rate im progress target) \<le> sint target"
  using assms by (simp_all add: ramp_rate_def)

text \<open>The product with the target does not leave the 32-bit range, so the conversion is exact.\<close>

lemma ramp_rate_eq:
  assumes "0 < sint target" and q: "0 < q" "q \<le> 1"
  shows "sint (ramp_rate im (Fin q) target) = max 1 (trunc_rat (round_rat (q * of_int (sint target))))"
    and "trunc_rat (round_rat (q * of_int (sint target))) \<le> sint target"
proof -
  let ?t = "sint target" and ?x = "q * of_int (sint target)"
  have x: "0 \<le> ?x" "?x \<le> of_int ?t" using assms by (simp_all add: mult_left_le_one_le)
  have "\<bar>?t\<bar> \<le> 2 ^ 53" by simp
  then have t: "round_rat (of_int ?t) = of_int ?t" by (rule round_rat_of_int)
  have r: "0 \<le> round_rat ?x" "round_rat ?x \<le> of_int ?t"
    using round_rat_mono [OF x(1)] round_rat_mono [OF x(2)] t by simp_all
  have "(of_int ?t :: rat) \<le> of_int 2147483648" unfolding of_int_le_iff by (rule less_imp_le) simp
  then have "\<bar>?x\<bar> \<le> pow2 31" using x by simp
  then have f: "fl ?x = Fin (round_rat ?x)" by (rule fl_finite) simp_all
  have tr: "0 \<le> trunc_rat (round_rat ?x)" and tt: "trunc_rat (round_rat ?x) \<le> ?t"
    using trunc_rat_mono [OF r(1)] trunc_rat_mono [OF r(2)] trunc_rat_of_int [of 0] by simp_all
  have "trunc_rat (round_rat ?x) < 2147483648" using tt sint32_upper [of target] by linarith
  then have "sint (to_int32 im (Fin q * Fin (of_int ?t))) = trunc_rat (round_rat ?x)"
    using tr by (simp add: times_float64_def f sint_of_int_32)
  then show "sint (ramp_rate im (Fin q) target) = max 1 (trunc_rat (round_rat ?x))"
    using tt by (simp add: ramp_rate_def)
  show "trunc_rat (round_rat ?x) \<le> ?t" by (rule tt)
qed

lemma ramp_rate_mono:
  assumes "0 < sint target" and "0 < p" "p \<le> q" "q \<le> 1"
  shows "sint (ramp_rate im (Fin p) target) \<le> sint (ramp_rate im (Fin q) target)"
proof -
  have "p * of_int (sint target) \<le> q * of_int (sint target)"
    using assms by (intro mult_right_mono) simp_all
  then have "trunc_rat (round_rat (p * of_int (sint target))) \<le> trunc_rat (round_rat (q * of_int (sint target)))"
    by (intro trunc_rat_mono round_rat_mono)
  then show ?thesis using assms by (simp add: ramp_rate_eq)
qed

lemma ramp_rate_full:
  assumes "0 < sint target" shows "ramp_rate im (Fin 1) target = target"
proof -
  have "round_rat (of_int (sint target)) = of_int (sint target)" by (rule round_rat_of_int) simp
  then have "sint (ramp_rate im (Fin 1) target) = sint target"
    using ramp_rate_eq(1) [of target 1] assms by simp
  then show ?thesis by (simp add: word_eq_sint_iff)
qed

section \<open>What a publisher promises\<close>

definition rates_ok :: "('p \<Rightarrow> int32) \<Rightarrow> ('p \<Rightarrow> int32) \<Rightarrow> 'p list \<Rightarrow> bool" where
  "rates_ok getTarget getCurrent ps \<longleftrightarrow>
     (\<forall>p \<in> set ps. 1 \<le> sint (getCurrent p) \<and> sint (getCurrent p) \<le> sint (getTarget p))"

locale rated_publisher =
  fixes getTarget :: "'p \<Rightarrow> int32" and getCurrent :: "'p \<Rightarrow> int32" and setRate :: "int32 \<Rightarrow> 'p \<Rightarrow> 'p"
  assumes set_current: "getCurrent (setRate r p) = smin (smax r 1) (getTarget p)"
    and set_target: "getTarget (setRate r p) = getTarget p"
begin

lemma full_rate:
  assumes "\<forall>p \<in> set ps. 0 < sint (getTarget p)"
  shows "\<forall>p \<in> set (setAllPublishersToFullRate getTarget setRate ps). getCurrent p = getTarget p"
  using assms by (auto simp: setAllPublishersToFullRate_def set_current set_target word_eq_sint_iff)

lemma full_rate_targets:
  "map getTarget (setAllPublishersToFullRate getTarget setRate ps) = map getTarget ps"
  by (simp add: setAllPublishersToFullRate_def set_target)

lemma update_targets:
  "map getTarget (updatePublisherRates im getTarget setRate progress ps) = map getTarget ps"
  by (simp add: updatePublisherRates_def set_target)

lemma update_rate:
  assumes "unit_progress progress" and "\<forall>p \<in> set ps. 0 < sint (getTarget p)"
  shows "map getCurrent (updatePublisherRates im getTarget setRate progress ps) =
    map (\<lambda>p. ramp_rate im progress (getTarget p)) ps"
  using ramp_rate_bounds [OF _ assms(1)] assms(2)
  by (auto simp: updatePublisherRates_def set_current word_eq_sint_iff)

lemma map_targets_positive:
  "map getTarget ps = map getTarget qs \<Longrightarrow> \<forall>p \<in> set qs. 0 < sint (getTarget p) \<Longrightarrow>
   \<forall>p \<in> set ps. 0 < sint (getTarget p)"
  by (metis (no_types, lifting) image_iff list.set_map)

lemma update_rates_ok:
  assumes "unit_progress progress" and "\<forall>p \<in> set ps. 0 < sint (getTarget p)"
  shows "rates_ok getTarget getCurrent (updatePublisherRates im getTarget setRate progress ps)"
  using assms(2) ramp_rate_bounds [OF _ assms(1)]
  by (auto simp: rates_ok_def updatePublisherRates_def set_current set_target)

text \<open>
  The invariant along every run, and what has been reached when the loop returns normally.  The
  publishers come with whatever rate they have; the first tick gives each a rate in its range.
\<close>

lemma ramp_invariant:
  assumes "ramp_reaches im getTarget setRate (ramp_begin getTarget setRate now ps duration c) r"
    and pos: "\<forall>p \<in> set ps. 0 < sint (getTarget p)"
  shows "map getTarget (ra_publishers r) = map getTarget ps
    \<and> (ra_publishers r = ps \<or> rates_ok getTarget getCurrent (ra_publishers r))
    \<and> ra_duration r = duration \<and> (ra_status r = RampRunning \<longrightarrow> duration \<noteq> 0)
    \<and> (ra_status r = RampFinished \<longrightarrow> (\<forall>p \<in> set (ra_publishers r). getCurrent p = getTarget p))"
proof -
  have full: "rates_ok getTarget getCurrent (setAllPublishersToFullRate getTarget setRate qs)
      \<and> (\<forall>p \<in> set (setAllPublishersToFullRate getTarget setRate qs). getCurrent p = getTarget p)"
    if "map getTarget qs = map getTarget ps" for qs
    using full_rate [of qs] map_targets_positive [OF that pos]
      map_targets_positive [OF full_rate_targets [THEN trans, OF that] pos]
    by (fastforce simp: rates_ok_def)
  show ?thesis
    using assms(1)
  proof induction
    case ramp_reaches_refl
    then show ?case
      using full [OF refl] by (auto simp: ramp_begin_def report_def Let_def full_rate_targets)
  next
    case (ramp_reaches_step r e)
    note t = ramp_reaches_step.IH [THEN conjunct1]
    show ?case
    proof (cases e)
      case (RampTick now)
      have "unit_progress (currentProgress (ra_start r) (ra_duration r) now)"
        using ramp_reaches_step by (intro currentProgress_unit) simp
      then have "rates_ok getTarget getCurrent (updatePublisherRates im getTarget setRate
          (currentProgress (ra_start r) (ra_duration r) now) (ra_publishers r))"
        by (rule update_rates_ok) (rule map_targets_positive [OF t pos])
      with ramp_reaches_step RampTick show ?thesis
        by (simp add: report_def Let_def update_targets)
    qed (use ramp_reaches_step full [OF t] in \<open>simp_all add: report_def full_rate_targets\<close>)
  qed
qed

end

end
