(* ===== verification/Publisher.thy ===== *)
theory Publisher
  imports Targets Ramp_Up
begin

text \<open>
  Publishers (\<open>internal/engine/publisher.go\<close>): the message with its embedded timestamp, the
  interval between two bursts, and the loop of \<open>Start\<close> as a step per tick.  The world holds
  the connection; the collector is the recorder of statistics.  Random numbers and the clock
  are arguments.
\<close>

section \<open>State\<close>

record PublisherConfig =
  pc_ID :: string
  pc_StreamName :: string
  pc_Subject :: string
  pc_MessageSize :: int32
  pc_PublishRate :: int32
  pc_TrackLatency :: bool
  pc_PublishPattern :: string
  pc_PublishBurstSize :: int32
  pc_UseJetStream :: bool

record Publisher =
  pb_config :: PublisherConfig
  pb_messageData :: "8 word list"
  pb_currentRate :: int32
  pb_targetRate :: int32

text \<open>The connection, the JetStream context (which may be nil) and the error values of the client.\<close>

record 'w nats_env =
  ne_js :: "'w jetstream option"
  ne_nc :: "'w connection"
  ne_error :: "nats_error \<Rightarrow> go_error"

text \<open>The first eight bytes stay zero; the others are random.\<close>

definition NewPublisher :: "(nat \<Rightarrow> 8 word) \<Rightarrow> PublisherConfig \<Rightarrow> (unit, Publisher) outcome" where
  "NewPublisher rnd cfg =
     (if sint (pc_MessageSize cfg) < 0 then Panic
      else Return
        \<lparr>pb_config = cfg,
         pb_messageData = map (\<lambda>i. if i < 8 then 0 else rnd i) [0..<nat (sint (pc_MessageSize cfg))],
         pb_currentRate = 0,
         pb_targetRate = pc_PublishRate cfg\<rparr>)"

definition SetRate :: "int32 \<Rightarrow> Publisher \<Rightarrow> Publisher" where
  "SetRate rate p = p\<lparr>pb_currentRate := smin (smax rate 1) (pb_targetRate p)\<rparr>"

definition GetCurrentRate :: "Publisher \<Rightarrow> int32" where
  "GetCurrentRate p = pb_currentRate p"

definition GetTargetRate :: "Publisher \<Rightarrow> int32" where
  "GetTargetRate p = pb_targetRate p"

interpretation publishers: rated_publisher GetTargetRate GetCurrentRate SetRate
  by unfold_locales (simp_all add: GetTargetRate_def GetCurrentRate_def SetRate_def)

section \<open>The interval between bursts\<close>

datatype publisher_failure = RateNotSet int32 | UnknownPublishPattern string

text \<open>\<open>rnd\<close> is the value of \<open>rand.Intn(1000)\<close>, so below 1000.\<close>

definition calculatePublishInterval ::
  "nat \<Rightarrow> int32 \<Rightarrow> Publisher \<Rightarrow> publisher_failure + Duration" where
  "calculatePublishInterval rnd currentRate p =
     (if sint currentRate \<le> 0 then Inl (RateNotSet currentRate)
      else if pc_PublishPattern (pb_config p) = PublishPatternSteady
      then Inr (quot64 Second (scast currentRate))
      else if pc_PublishPattern (pb_config p) = PublishPatternRandom
      then Inr (quot64 (word_of_nat (rnd + 500) * Millisecond) (scast currentRate))
      else Inl (UnknownPublishPattern (pc_PublishPattern (pb_config p))))"

section \<open>Publishing\<close>

text \<open>\<open>binary.LittleEndian\<close>.\<close>

definition PutUint64 :: "uint64 \<Rightarrow> 8 word list" where
  "PutUint64 v = map (\<lambda>k. ucast (drop_bit (8 * k) v)) [0..<8]"

definition Uint64 :: "8 word list \<Rightarrow> uint64" where
  "Uint64 bs = sum_list (map (\<lambda>k. push_bit (8 * k) (ucast (bs ! k))) [0..<8])"

definition message :: "Time \<Rightarrow> Publisher \<Rightarrow> 8 word list" where
  "message now p =
     (if pc_TrackLatency (pb_config p) \<and> 8 \<le> length (pb_messageData p)
      then PutUint64 (word_of_int now) @ drop 8 (pb_messageData p)
      else pb_messageData p)"

text \<open>The error is the one of the client; the code wraps it in a text.\<close>

definition publishMessage ::
  "'w nats_env \<Rightarrow> Time \<Rightarrow> Publisher \<Rightarrow> Collector \<times> 'w \<Rightarrow> nats_error option \<times> Collector \<times> 'w" where
  "publishMessage env now p cw =
     (let subject = pc_Subject (pb_config p);
          (err, w) = (case ne_js env of
              Some js \<Rightarrow> if pc_UseJetStream (pb_config p) then js_Publish js subject (message now p) (snd cw)
                         else nc_Publish (ne_nc env) subject (message now p) (snd cw)
            | None \<Rightarrow> nc_Publish (ne_nc env) subject (message now p) (snd cw))
      in (case err of
            Some e \<Rightarrow> (Some e, fst cw, w)
          | None \<Rightarrow> (None, RecordPublish (fst cw), w)))"

definition publish_error :: "'w nats_env \<Rightarrow> nats_error \<Rightarrow> go_error" where
  "publish_error env e = plain_error (''publish failed: '' @ err_text (ne_error env e))"

text \<open>A timeout and a closed connection are not recorded.\<close>

definition publish_one ::
  "'w nats_env \<Rightarrow> Time \<Rightarrow> Publisher \<Rightarrow> Collector \<times> 'w \<Rightarrow> (unit, Collector \<times> 'w) outcome" where
  "publish_one env now p cw =
     (case publishMessage env now p cw of
        (None, c, w) \<Rightarrow> Return (c, w)
      | (Some e, c, w) \<Rightarrow>
          (if e \<noteq> ErrTimeout \<and> e \<noteq> ErrConnectionClosed
           then obind (RecordPublishError (publish_error env e) c) (\<lambda>c'. Return (c', w))
           else Return (c, w)))"

text \<open>The burst; \<open>clock k\<close> is the time of the message with \<open>k\<close> more to send.\<close>

fun publish_burst ::
  "'w nats_env \<Rightarrow> (nat \<Rightarrow> Time) \<Rightarrow> Publisher \<Rightarrow> nat \<Rightarrow> Collector \<times> 'w \<Rightarrow> (unit, Collector \<times> 'w) outcome" where
  "publish_burst env clock p 0 cw = Return cw"
| "publish_burst env clock p (Suc n) cw =
     obind (publish_one env (clock n) p cw) (publish_burst env clock p n)"

section \<open>The loop of a publisher\<close>

record publisher_loop =
  pl_publisher :: Publisher
  pl_lastRate :: int32
  pl_interval :: Duration

text \<open>\<open>time.NewTicker\<close> and \<open>Reset\<close> panic when the interval is not positive.\<close>

definition publisher_begin :: "nat \<Rightarrow> Publisher \<Rightarrow> (publisher_failure, publisher_loop) outcome" where
  "publisher_begin rnd p0 =
     (let p = p0\<lparr>pb_currentRate := 1\<rparr>
      in case calculatePublishInterval rnd (GetCurrentRate p) p of
           Inl e \<Rightarrow> Error e
         | Inr interval \<Rightarrow>
             (if sint interval \<le> 0 then Panic
              else Return \<lparr>pl_publisher = p, pl_lastRate = GetCurrentRate p, pl_interval = interval\<rparr>))"

definition updateTicker :: "nat \<Rightarrow> int32 \<Rightarrow> publisher_loop \<Rightarrow> (unit, publisher_loop) outcome" where
  "updateTicker rnd currentRate l =
     (case calculatePublishInterval rnd currentRate (pl_publisher l) of
        Inl e \<Rightarrow> Return l
      | Inr interval \<Rightarrow> if sint interval \<le> 0 then Panic else Return (l\<lparr>pl_interval := interval\<rparr>))"

definition publisher_tick ::
  "'w nats_env \<Rightarrow> (nat \<Rightarrow> Time) \<Rightarrow> nat \<Rightarrow> publisher_loop \<times> Collector \<times> 'w
    \<Rightarrow> (publisher_failure, publisher_loop \<times> Collector \<times> 'w) outcome" where
  "publisher_tick env clock rnd s =
     (let l = fst s; p = pl_publisher l; pattern = pc_PublishPattern (pb_config p)
      in if pattern = PublishPatternSteady \<or> pattern = PublishPatternRandom
         then (case publish_burst env clock p (nat (sint (pc_PublishBurstSize (pb_config p)))) (snd s) of
                 Return cw \<Rightarrow>
                   (if GetCurrentRate p \<noteq> pl_lastRate l
                    then (case updateTicker rnd (GetCurrentRate p) (l\<lparr>pl_lastRate := GetCurrentRate p\<rparr>) of
                            Return l' \<Rightarrow> Return (l', cw)
                          | _ \<Rightarrow> Panic)
                    else Return (l, cw))
               | _ \<Rightarrow> Panic)
         else Error (UnknownPublishPattern pattern))"

text \<open>The controller changes the rate between ticks.\<close>

definition set_loop_rate :: "int32 \<Rightarrow> publisher_loop \<Rightarrow> publisher_loop" where
  "set_loop_rate r l = l\<lparr>pl_publisher := SetRate r (pl_publisher l)\<rparr>"

section \<open>Creating publishers\<close>

definition publisher_config :: "LoadTestSpec \<Rightarrow> target \<Rightarrow> PublisherConfig" where
  "publisher_config lts t =
     \<lparr>pc_ID = lts_ClientIDPrefix lts @ ''-pub-'' @ target_suffix (CHR ''-'') t,
      pc_StreamName = tg_name t, pc_Subject = tg_subject t,
      pc_MessageSize = ps_MessageSizeBytes (lts_Publishers lts),
      pc_PublishRate = ps_PublishRatePerSecond (lts_Publishers lts),
      pc_TrackLatency = ps_TrackLatency (lts_Publishers lts),
      pc_PublishPattern = ps_PublishPattern (lts_Publishers lts),
      pc_PublishBurstSize = ps_PublishBurstSize (lts_Publishers lts),
      pc_UseJetStream = lts_UseJetStream lts\<rparr>"

definition CreatePublishers ::
  "(string \<Rightarrow> int32 \<Rightarrow> string) \<Rightarrow> (nat \<Rightarrow> 8 word) \<Rightarrow> LoadTestSpec \<Rightarrow> (unit, Publisher list) outcome" where
  "CreatePublishers other rnd lts =
     obind (targets other (ps_StreamNamePrefix (lts_Publishers lts))
              (ps_CountPerStream (lts_Publishers lts)) (lts_Streams lts))
       (\<lambda>ts. omap (\<lambda>t. NewPublisher rnd (publisher_config lts t)) ts)"

section \<open>Intervals\<close>

lemma sint_Second [simp]: "sint Second = 1000000000"
  by (simp add: Second_def)

lemma steady_interval:
  assumes "0 < sint rate"
  shows "sint (quot64 Second (scast (rate :: int32))) = 1000000000 div sint rate"
  using assms by (simp add: sint_quot64_pos)

text \<open>The pause that is divided by the rate: a second, or between half a second and one and a half.\<close>

definition random_pause :: "nat \<Rightarrow> Duration" where
  "random_pause rnd = word_of_nat (rnd + 500) * Millisecond"

lemma sint_random_pause:
  assumes "rnd < 1000" shows "sint (random_pause rnd) = (int rnd + 500) * 1000000"
proof -
  have w: "sint (word_of_nat (rnd + 500) :: int64) = int rnd + 500"
    using sint_of_nat_64 [of "rnd + 500"] assms by simp
  have m: "sint Millisecond = 1000000" by (simp add: Millisecond_def)
  have "sint (word_of_nat (rnd + 500) * Millisecond) = sint (word_of_nat (rnd + 500) :: int64) * sint Millisecond"
    by (rule sint_mult_64) (use assms in \<open>simp_all add: w m del: of_nat_add\<close>)
  then show ?thesis by (simp only: random_pause_def w m)
qed

lemma random_interval:
  assumes "0 < sint rate" and "rnd < 1000"
  shows "sint (quot64 (random_pause rnd) (scast (rate :: int32))) = (int rnd + 500) * 1000000 div sint rate"
  using assms by (simp add: sint_quot64_pos sint_random_pause)

text \<open>Rates up to half a billion leave every interval positive.\<close>

definition tickable :: "PublisherConfig \<Rightarrow> int32 \<Rightarrow> bool" where
  "tickable cfg rate \<longleftrightarrow> 0 < sint rate
     \<and> (pc_PublishPattern cfg = PublishPatternSteady \<and> sint rate \<le> 1000000000
        \<or> pc_PublishPattern cfg = PublishPatternRandom \<and> sint rate \<le> 500000000)"

lemma tickable_interval:
  assumes "tickable (pb_config p) rate" and "rnd < 1000"
  shows "\<exists>d. calculatePublishInterval rnd rate p = Inr d \<and> 0 < sint d"
proof -
  have "0 < 1000000000 div sint rate" if "sint rate \<le> 1000000000"
    using assms(1) that by (simp add: tickable_def pos_imp_zdiv_pos_iff)
  moreover have "0 < (int rnd + 500) * 1000000 div sint rate" if "sint rate \<le> 500000000"
    using assms(1) that by (simp add: tickable_def pos_imp_zdiv_pos_iff)
  ultimately show ?thesis
    using assms steady_interval [of rate] random_interval [of rate rnd]
    by (auto simp: calculatePublishInterval_def tickable_def config_constants random_pause_def)
qed

lemma tickable_mono: "tickable cfg r \<Longrightarrow> 1 \<le> sint q \<Longrightarrow> sint q \<le> sint r \<Longrightarrow> tickable cfg q"
  by (auto simp: tickable_def)

section \<open>Running publishers\<close>

text \<open>A collector that can record an error.\<close>

definition recording_ok :: "Collector \<Rightarrow> bool" where
  "recording_ok c \<longleftrightarrow>
     (case co_loadTestSpec c of None \<Rightarrow> False | Some spec \<Rightarrow> 0 < sint (ll_MaxLines (lts_LogLimits spec)))"

lemma recordError_recording:
  assumes "recording_ok c"
  shows "\<exists>c'. recordError e c = Return c' \<and> recording_ok c'"
proof -
  obtain spec where spec: "co_loadTestSpec c = Some spec" "0 < sint (ll_MaxLines (lts_LogLimits spec))"
    using assms by (auto simp: recording_ok_def split: option.splits)
  then obtain c' where c': "recordError e c = Return c'" using recordError_Return_iff [of e c] by blast
  with recordError_spec [OF c'] spec show ?thesis by (auto simp: recording_ok_def)
qed

lemma publish_one_recording:
  assumes "recording_ok (fst cw)"
  shows "\<exists>cw'. publish_one env now p cw = Return cw' \<and> recording_ok (fst cw')"
proof -
  obtain err c w where m: "publishMessage env now p cw = (err, c, w)"
    by (metis prod_cases3)
  then have "c = fst cw \<or> c = RecordPublish (fst cw)"
    by (auto simp: publishMessage_def Let_def split: option.splits prod.splits)
  then have c: "recording_ok c" using assms by (auto simp: RecordPublish_def recording_ok_def)
  have "recording_ok (c\<lparr>co_publishErrors := co_publishErrors c + 1\<rparr>)" using c by (simp add: recording_ok_def)
  then have "\<exists>c'. RecordPublishError e c = Return c' \<and> recording_ok c'" for e
    unfolding RecordPublishError_def by (rule recordError_recording)
  with m c show ?thesis by (fastforce simp: publish_one_def split: option.split)
qed

lemma publish_burst_recording:
  "recording_ok (fst cw) \<Longrightarrow>
   \<exists>cw'. publish_burst env clock p n cw = Return cw' \<and> recording_ok (fst cw')"
proof (induction n arbitrary: cw)
  case (Suc n)
  obtain cw1 where "publish_one env (clock n) p cw = Return cw1" "recording_ok (fst cw1)"
    using publish_one_recording [OF Suc.prems] by blast
  with Suc.IH [of cw1] show ?case by simp
qed simp

definition loop_ok :: "publisher_loop \<Rightarrow> bool" where
  "loop_ok l \<longleftrightarrow> tickable (pb_config (pl_publisher l)) (pb_targetRate (pl_publisher l))
     \<and> 1 \<le> sint (pb_currentRate (pl_publisher l))
     \<and> sint (pb_currentRate (pl_publisher l)) \<le> sint (pb_targetRate (pl_publisher l))
     \<and> 0 < sint (pl_interval l)"

lemma publisher_tick_ok:
  assumes l: "loop_ok (fst s)" and c: "recording_ok (fst (snd s))" and rnd: "rnd < 1000"
  shows "\<exists>s'. publisher_tick env clock rnd s = Return s' \<and> loop_ok (fst s') \<and> recording_ok (fst (snd s'))
    \<and> pl_publisher (fst s') = pl_publisher (fst s)
    \<and> pl_lastRate (fst s') = pb_currentRate (pl_publisher (fst s))"
proof -
  let ?p = "pl_publisher (fst s)"
  have t: "tickable (pb_config ?p) (pb_currentRate ?p)"
    using l tickable_mono by (auto simp: loop_ok_def)
  obtain d where d: "calculatePublishInterval rnd (pb_currentRate ?p) ?p = Inr d" "0 < sint d"
    using tickable_interval [OF t rnd] by blast
  obtain a b where cw: "publish_burst env clock ?p (nat (sint (pc_PublishBurstSize (pb_config ?p)))) (snd s)
      = Return (a, b)" "recording_ok a"
    using publish_burst_recording [OF c] by (metis prod.collapse)
  have pat: "pc_PublishPattern (pb_config ?p) = PublishPatternSteady \<or> pc_PublishPattern (pb_config ?p) = PublishPatternRandom"
    using t by (auto simp: tickable_def)
  show ?thesis
    using l d cw pat
    by (auto simp: publisher_tick_def updateTicker_def GetCurrentRate_def Let_def loop_ok_def)
qed

lemma loop_ok_set_rate: "loop_ok l \<Longrightarrow> loop_ok (set_loop_rate r l)"
  by (simp add: loop_ok_def set_loop_rate_def SetRate_def)

lemma publisher_begin_ok:
  assumes "tickable (pb_config p) (pb_targetRate p)" and "rnd < 1000"
  shows "\<exists>l. publisher_begin rnd p = Return l \<and> loop_ok l"
proof -
  let ?p = "p\<lparr>pb_currentRate := 1\<rparr>"
  have one: "1 \<le> sint (pb_targetRate p)" using assms(1) by (simp add: tickable_def)
  have "tickable (pb_config ?p) 1" using tickable_mono [OF assms(1), of 1] one by simp
  then obtain d where "calculatePublishInterval rnd 1 ?p = Inr d" "0 < sint d"
    using tickable_interval assms(2) by blast
  then show ?thesis using assms(1) one by (simp add: publisher_begin_def GetCurrentRate_def loop_ok_def)
qed

text \<open>A steady rate of more than a billion leaves no time between two bursts.\<close>

lemma fast_rate_panics:
  assumes "pc_PublishPattern (pb_config (pl_publisher l)) = PublishPatternSteady"
    and "1000000000 < sint (GetCurrentRate (pl_publisher l))"
    and "GetCurrentRate (pl_publisher l) \<noteq> pl_lastRate l" and "recording_ok (fst cw)"
  shows "publisher_tick env clock rnd (l, cw) = Panic"
proof -
  let ?r = "GetCurrentRate (pl_publisher l)"
  obtain cw' where "publish_burst env clock (pl_publisher l)
      (nat (sint (pc_PublishBurstSize (pb_config (pl_publisher l))))) cw = Return cw'"
    using publish_burst_recording [OF assms(4)] by blast
  moreover have "1000000000 div sint ?r = 0" using assms(2) by (intro div_pos_pos_trivial) simp_all
  then have "calculatePublishInterval rnd ?r (pl_publisher l) = Inr 0"
    using assms(1,2) steady_interval [of ?r] by (simp add: calculatePublishInterval_def word_eq_sint_iff)
  ultimately show ?thesis using assms(1,3) by (simp add: publisher_tick_def Let_def updateTicker_def)
qed

section \<open>Timestamps\<close>

lemma length_PutUint64 [simp]: "length (PutUint64 v) = 8"
  by (simp add: PutUint64_def)

lemma nth_PutUint64: "k < 8 \<Longrightarrow> PutUint64 v ! k = ucast (drop_bit (8 * k) v)"
  by (simp add: PutUint64_def)

lemma byte_of: "ucast (ucast (drop_bit (8 * k) v) :: 8 word) = (word_of_nat (unat v div 256 ^ k mod 256) :: 64 word)" for v :: "64 word"
proof (rule word_unat_eq_iff [THEN iffD2])
  have "unat (ucast (ucast (drop_bit (8 * k) v) :: 8 word) :: 64 word) = take_bit 8 (unat (drop_bit (8 * k) v))"
    by (simp add: unsigned_ucast_eq unsigned_take_bit_eq)
  also have "\<dots> = unat v div 256 ^ k mod 256"
    by (simp only: unat_drop_bit_eq) (simp add: take_bit_eq_mod drop_bit_eq_div power_mult)
  also have "\<dots> = unat (word_of_nat (unat v div 256 ^ k mod 256) :: 64 word)"
  proof -
    have "unat v div 256 ^ k mod 256 < 2 ^ 64" by (rule order.strict_trans [OF mod_less_divisor]) simp_all
    then show ?thesis by (simp add: unsigned_of_nat take_bit_nat_eq_self)
  qed
  finally show "unat (ucast (ucast (drop_bit (8 * k) v) :: 8 word) :: 64 word) = \<dots>" .
qed

lemma sum_of_digits: "sum_list (map (\<lambda>k. n div b ^ k mod b * b ^ k) [0..<m]) = n mod b ^ m" for n b :: nat
proof (induction m)
  case (Suc m)
  have "n mod b ^ Suc m = n mod (b ^ m * b)" by (simp add: mult.commute)
  also have "\<dots> = b ^ m * (n div b ^ m mod b) + n mod b ^ m" by (rule mod_mult2_eq)
  finally show ?case using Suc by (simp add: mult.commute)
qed simp

lemma Uint64_PutUint64: "Uint64 (PutUint64 v) = v"
proof -
  have byte: "(push_bit (8 * k) (ucast (ucast (drop_bit (8 * k) v) :: 8 word)) :: uint64)
      = word_of_nat (unat v div 256 ^ k mod 256 * 256 ^ k)" for k
    unfolding byte_of by (simp add: push_bit_eq_mult power_mult)
  have "Uint64 (PutUint64 v) = sum_list (map (\<lambda>k. word_of_nat (unat v div 256 ^ k mod 256 * 256 ^ k)) [0..<8])"
    unfolding Uint64_def
    by (rule arg_cong [of _ _ sum_list], rule map_cong) (simp_all only: refl set_upt nth_PutUint64 byte atLeastLessThan_iff)
  also have "\<dots> = word_of_nat (sum_list (map (\<lambda>k. unat v div 256 ^ k mod 256 * 256 ^ k) [0..<8]))"
    by (simp add: upt_rec)
  also have "sum_list (map (\<lambda>k. unat v div 256 ^ k mod 256 * 256 ^ k) [0..<8]) = unat v mod 256 ^ 8"
    by (rule sum_of_digits)
  also have "unat v mod 256 ^ 8 = unat v"
  proof -
    have "unat v < 2 ^ LENGTH(64)" by (rule unsigned_less)
    then show ?thesis by simp
  qed
  finally show ?thesis by simp
qed

end
