(* ===== verification/Consumer.thy ===== *)
theory Consumer
  imports Publisher
begin

text \<open>
  Consumers (\<open>internal/engine/consumer.go\<close>): starting one on JetStream or core NATS, the
  handling of a message, the loop of a pull consumer as a step per fetch, the cleanup, and
  the creation of all consumers of a spec with their retried starts.
\<close>

section \<open>State\<close>

record ConsumerConfig =
  cc_ID :: string
  cc_StreamName :: string
  cc_DurableName :: string
  cc_Type :: string
  cc_AckWaitSeconds :: int64
  cc_MaxAckPending :: go_int
  cc_ConsumeDelayMs :: int64
  cc_AckPolicy :: string
  cc_UseJetStream :: bool
  cc_Subject :: string
  cc_TrackLatency :: bool

record Consumer =
  cn_config :: ConsumerConfig
  cn_subscription :: "subscription option"

definition NewConsumer :: "ConsumerConfig \<Rightarrow> Consumer" where
  "NewConsumer cfg = \<lparr>cn_config = cfg, cn_subscription = None\<rparr>"

datatype consumer_failure =
    DeleteConsumerFailed nats_error | CreateConsumerFailed nats_error
  | SubscribeFailed nats_error | PullSubscribeFailed nats_error

section \<open>Starting\<close>

definition ack_policy :: "string \<Rightarrow> AckPolicy" where
  "ack_policy s = (if s = ''none'' then AckNonePolicy else if s = ''all'' then AckAllPolicy else AckExplicitPolicy)"

definition js_consumer_config :: "ConsumerConfig \<Rightarrow> JsConsumerConfig" where
  "js_consumer_config cfg =
     \<lparr>jcc_Durable = cc_DurableName cfg, jcc_AckPolicy = ack_policy (cc_AckPolicy cfg),
      jcc_AckWait = cc_AckWaitSeconds cfg * Second, jcc_MaxAckPending = cc_MaxAckPending cfg,
      jcc_DeliverSubject = (if cc_Type cfg = ''push'' then ''_INBOX.'' @ cc_DurableName cfg else [])\<rparr>"

definition subscribe_result ::
  "(nats_error \<Rightarrow> consumer_failure) \<Rightarrow> (nats_error + subscription) \<times> 'w \<Rightarrow> Consumer
    \<Rightarrow> consumer_failure option \<times> Consumer \<times> 'w" where
  "subscribe_result fail r c =
     (case r of
        (Inl e, w) \<Rightarrow> (Some (fail e), c, w)
      | (Inr sub, w) \<Rightarrow> (None, c\<lparr>cn_subscription := Some sub\<rparr>, w))"

definition startPushConsumer ::
  "'w jetstream \<Rightarrow> Consumer \<Rightarrow> 'w \<Rightarrow> consumer_failure option \<times> Consumer \<times> 'w" where
  "startPushConsumer js c w =
     (let cfg = cn_config c
      in subscribe_result SubscribeFailed
           (js_Subscribe js (cc_Subject cfg) (cc_DurableName cfg) (cc_AckWaitSeconds cfg * Second)
              (cc_MaxAckPending cfg) w) c)"

definition startPullConsumer ::
  "'w jetstream \<Rightarrow> Consumer \<Rightarrow> 'w \<Rightarrow> consumer_failure option \<times> Consumer \<times> 'w" where
  "startPullConsumer js c w =
     (let cfg = cn_config c
      in subscribe_result PullSubscribeFailed
           (js_PullSubscribe js (cc_Subject cfg) (cc_DurableName cfg) (cc_AckWaitSeconds cfg * Second)
              (cc_MaxAckPending cfg) w) c)"

definition startJetStreamConsumer ::
  "'w jetstream \<Rightarrow> Consumer \<Rightarrow> 'w \<Rightarrow> consumer_failure option \<times> Consumer \<times> 'w" where
  "startJetStreamConsumer js c w =
     (let cfg = cn_config c
      in case js_DeleteConsumer js (cc_StreamName cfg) (cc_DurableName cfg) w of
           (err, w1) \<Rightarrow>
             (if err \<noteq> None \<and> err \<noteq> Some ErrConsumerNotFound
              then (Some (DeleteConsumerFailed (the err)), c, w1)
              else (case js_AddConsumer js (cc_StreamName cfg) (js_consumer_config cfg) w1 of
                      (Some e, w2) \<Rightarrow> (Some (CreateConsumerFailed e), c, w2)
                    | (None, w2) \<Rightarrow>
                        (if cc_Type cfg = ''pull'' then startPullConsumer js c w2
                         else startPushConsumer js c w2))))"

definition startCoreConsumer ::
  "'w connection \<Rightarrow> Consumer \<Rightarrow> 'w \<Rightarrow> consumer_failure option \<times> Consumer \<times> 'w" where
  "startCoreConsumer nc c w =
     subscribe_result SubscribeFailed (nc_Subscribe nc (cc_Subject (cn_config c)) w) c"

definition Consumer_Start ::
  "'w nats_env \<Rightarrow> Consumer \<times> 'w \<Rightarrow> consumer_failure option \<times> Consumer \<times> 'w" where
  "Consumer_Start env cw =
     (case ne_js env of
        Some js \<Rightarrow> if cc_UseJetStream (cn_config (fst cw))
                   then startJetStreamConsumer js (fst cw) (snd cw)
                   else startCoreConsumer (ne_nc env) (fst cw) (snd cw)
      | None \<Rightarrow> startCoreConsumer (ne_nc env) (fst cw) (snd cw))"

section \<open>Messages\<close>

text \<open>\<open>now\<close> is the time after the configured delay; \<open>ack\<close> is what \<open>msg.Ack()\<close> returns.\<close>

definition message_latency :: "Time \<Rightarrow> 8 word list \<Rightarrow> Duration" where
  "message_latency now payload = Sub now (sint (Uint64 (take 8 payload)))"

definition handleMessage ::
  "(nats_error \<Rightarrow> go_error) \<Rightarrow> ConsumerConfig \<Rightarrow> Time \<Rightarrow> nats_error option \<Rightarrow> 8 word list \<Rightarrow> Collector
    \<Rightarrow> (unit, Collector) outcome" where
  "handleMessage fail cfg now ack payload c =
     (let c1 = (if cc_TrackLatency cfg \<and> 8 \<le> length payload
                then RecordLatency (message_latency now payload) c else c)
      in if cc_UseJetStream cfg \<and> cc_AckPolicy cfg \<noteq> ''none''
         then (case ack of
                 Some e \<Rightarrow> RecordConsumeError (fail e) c1
               | None \<Rightarrow> Return (RecordConsume c1))
         else Return (RecordConsume c1))"

record delivery =
  dl_payload :: "8 word list"
  dl_time :: Time
  dl_ack :: "nats_error option"

fun handle_all ::
  "(nats_error \<Rightarrow> go_error) \<Rightarrow> ConsumerConfig \<Rightarrow> delivery list \<Rightarrow> Collector \<Rightarrow> (unit, Collector) outcome" where
  "handle_all fail cfg [] c = Return c"
| "handle_all fail cfg (d # ds) c =
     obind (handleMessage fail cfg (dl_time d) (dl_ack d) (dl_payload d) c) (handle_all fail cfg ds)"

text \<open>One pass of the pull loop; a timeout with the messages that came is no error.\<close>

definition pull_step ::
  "(nats_error \<Rightarrow> go_error) \<Rightarrow> ConsumerConfig \<Rightarrow> nats_error option \<Rightarrow> delivery list \<Rightarrow> Collector
    \<Rightarrow> (unit, Collector) outcome" where
  "pull_step fail cfg err msgs c =
     (case err of
        Some e \<Rightarrow> if e \<noteq> ErrTimeout then RecordConsumeError (fail e) c
                  else handle_all fail cfg msgs c
      | None \<Rightarrow> handle_all fail cfg msgs c)"

section \<open>Cleanup\<close>

definition Consumer_Cleanup :: "'w connection \<Rightarrow> Consumer \<Rightarrow> 'w \<Rightarrow> nats_error option \<times> Consumer \<times> 'w" where
  "Consumer_Cleanup nc c w =
     (case cn_subscription c of
        None \<Rightarrow> (None, c, w)
      | Some sub \<Rightarrow>
          (case nc_Drain nc sub w of
             (Some e, w1) \<Rightarrow> (Some e, c, w1)
           | (None, w1) \<Rightarrow> (None, c\<lparr>cn_subscription := None\<rparr>, w1)))"

section \<open>Creating consumers\<close>

definition consumer_config :: "LoadTestSpec \<Rightarrow> target \<Rightarrow> ConsumerConfig" where
  "consumer_config lts t =
     \<lparr>cc_ID = lts_ClientIDPrefix lts @ ''-con-'' @ target_suffix (CHR ''-'') t,
      cc_StreamName = tg_name t,
      cc_DurableName = cs_DurableNamePrefix (lts_Consumers lts) @ CHR ''_'' # target_suffix (CHR ''_'') t,
      cc_Type = cs_Type (lts_Consumers lts),
      cc_AckWaitSeconds = cs_AckWaitSeconds (lts_Consumers lts),
      cc_MaxAckPending = scast (cs_MaxAckPending (lts_Consumers lts)),
      cc_ConsumeDelayMs = cs_ConsumeDelayMs (lts_Consumers lts),
      cc_AckPolicy = cs_AckPolicy (lts_Consumers lts),
      cc_UseJetStream = lts_UseJetStream lts,
      cc_Subject = tg_subject t,
      cc_TrackLatency = ps_TrackLatency (lts_Publishers lts)\<rparr>"

definition consumer_error_text :: "(nats_error \<Rightarrow> string) \<Rightarrow> consumer_failure \<Rightarrow> string" where
  "consumer_error_text text e =
     (case e of
        DeleteConsumerFailed n \<Rightarrow> ''failed to delete existing consumer: '' @ text n
      | CreateConsumerFailed n \<Rightarrow> ''failed to create consumer: '' @ text n
      | SubscribeFailed n \<Rightarrow> ''failed to subscribe: '' @ text n
      | PullSubscribeFailed n \<Rightarrow> ''failed to create pull subscription: '' @ text n)"

definition backoff_error_text :: "('e \<Rightarrow> string) \<Rightarrow> 'e backoff_error \<Rightarrow> string" where
  "backoff_error_text text e =
     (case e of
        NoAttempts \<Rightarrow> ''attempts cannot be negative''
      | BadDuration \<Rightarrow> ''duration must be greater than zero''
      | BadFactor \<Rightarrow> ''factor must be greater than zero''
      | ContextDone \<Rightarrow> ''context canceled''
      | LastError x \<Rightarrow> text x)"

definition lift_env :: "'w backoff_env \<Rightarrow> (Consumer \<times> 'w) backoff_env" where
  "lift_env env =
     \<lparr>be_done = (\<lambda>cw. be_done env (snd cw)),
      be_wait = (\<lambda>d cw. case be_wait env d (snd cw) of (b, w) \<Rightarrow> (b, fst cw, w))\<rparr>"

definition start_consumer ::
  "impl \<Rightarrow> 'w backoff_env \<Rightarrow> 'w nats_env \<Rightarrow> Consumer \<Rightarrow> 'w
    \<Rightarrow> consumer_failure backoff_error option \<times> Consumer \<times> 'w" where
  "start_consumer im bo env c w =
     exponentialBackoff im (lift_env bo) (1 * Second) (Fin 2) 5 (5 * Second) (Consumer_Start env) (c, w)"

text \<open>
  The group starts every consumer, in the order of the list here, waits for all of them and
  returns the first error; each error is recorded.
\<close>

fun start_consumers ::
  "impl \<Rightarrow> 'w backoff_env \<Rightarrow> 'w nats_env \<Rightarrow> Consumer list \<Rightarrow> Collector \<times> 'w
    \<Rightarrow> (unit, consumer_failure backoff_error option \<times> Consumer list \<times> Collector \<times> 'w) outcome" where
  "start_consumers im bo env [] cw = Return (None, [], cw)"
| "start_consumers im bo env (k # ks) (c, w) =
     (case start_consumer im bo env k w of
        (err, k', w') \<Rightarrow>
          obind (case err of
                   None \<Rightarrow> Return c
                 | Some e \<Rightarrow> RecordError
                     (plain_error (backoff_error_text (consumer_error_text (\<lambda>n. err_text (ne_error env n))) e)) c)
            (\<lambda>c'. obind (start_consumers im bo env ks (c', w')) (\<lambda>(err', ks', cw').
              Return (if err \<noteq> None then err else err', k' # ks', cw'))))"

definition CreateConsumers ::
  "(string \<Rightarrow> int32 \<Rightarrow> string) \<Rightarrow> impl \<Rightarrow> 'w backoff_env \<Rightarrow> 'w nats_env \<Rightarrow> LoadTestSpec \<Rightarrow> Collector \<times> 'w
    \<Rightarrow> (unit, consumer_failure backoff_error option \<times> Consumer list \<times> Collector \<times> 'w) outcome" where
  "CreateConsumers other im bo env lts cw =
     obind (targets other (cs_StreamNamePrefix (lts_Consumers lts))
              (cs_CountPerStream (lts_Consumers lts)) (lts_Streams lts))
       (\<lambda>ts. start_consumers im bo env (map (\<lambda>t. NewConsumer (consumer_config lts t)) ts) cw)"

section \<open>Latencies of timestamped messages\<close>

lemma message_latency_message:
  assumes "pc_TrackLatency (pb_config p)" and "8 \<le> length (pb_messageData p)"
    and "- 9223372036854775808 \<le> sent" "sent < 9223372036854775808"
  shows "message_latency now (message sent p) = Sub now sent"
  using assms by (simp add: message_latency_def message_def Uint64_PutUint64 sint_of_int_64)

lemma length_message [simp]: "length (message now p) = length (pb_messageData p)"
  by (simp add: message_def)

lemma handleMessage_acked:
  assumes "ack = None \<or> \<not> cc_UseJetStream cfg \<or> cc_AckPolicy cfg = ''none''"
  shows "handleMessage fail cfg now ack payload c =
    Return (RecordConsume (if cc_TrackLatency cfg \<and> 8 \<le> length payload
      then RecordLatency (message_latency now payload) c else c))"
  using assms by (auto simp: handleMessage_def Let_def)

lemma Consumer_Cleanup_twice:
  assumes "Consumer_Cleanup nc c w = (None, c', w')"
  shows "cn_subscription c' = None \<and> Consumer_Cleanup nc c' w' = (None, c', w')"
  using assms by (auto simp: Consumer_Cleanup_def split: option.splits prod.splits)

lemma CreateConsumers_ok:
  assumes "\<forall>s \<in> set (lts_Streams lts). stream_ok s \<and> length (ss_Subjects s) < 2147483648"
  shows "CreateConsumers other im bo env lts cw =
    start_consumers im bo env
      (map (\<lambda>t. NewConsumer (consumer_config lts t))
        (concat (map (targets_of other (nat (sint (cs_CountPerStream (lts_Consumers lts)))))
          (filter (\<lambda>s. ss_NamePrefix s = cs_StreamNamePrefix (lts_Consumers lts)) (lts_Streams lts))))) cw"
  by (simp add: CreateConsumers_def targets_ok [OF assms])

end
