(* ===== verification/Engine.thy ===== *)
theory Engine
  imports Consumer
begin

text \<open>
  The engine (\<open>internal/engine/engine.go\<close>): it connects, configures the collector, sets the
  streams up, creates publishers and consumers, and takes all of it down again.  Every method
  holds the engine's mutex for its whole body.  A field that is a pointer or an interface in
  Go is a flag or an option here; the client library and the storage are given by an
  environment.  The goroutines of the error group that matter after a cancellation (the last
  collection and the cleanup of the consumers) run in \<open>Stop\<close>, where the group is waited for.
\<close>

section \<open>State\<close>

datatype group_state = NoGroup | GroupRunning | GroupDone "string option"

record ('w, 'st) Engine =
  eg_enablePublishers :: bool
  eg_enableConsumers :: bool
  eg_collector :: Collector
  eg_storage :: "'st option"
  eg_natsConn :: bool
  eg_natsJetStreamContext :: bool
  eg_loadTestSpec :: "LoadTestSpec option"
  eg_publishers :: "Publisher list"
  eg_consumers :: "Consumer list"
  eg_cancelled :: "bool option"
  eg_errGroup :: group_state
  eg_streamManager :: bool
  eg_world :: 'w

record ('w, 'st, 'e) engine_env =
  ee_connect :: "string \<Rightarrow> string \<Rightarrow> string \<Rightarrow> 'w \<Rightarrow> nats_error option \<times> 'w"
  ee_jetstream :: "'w \<Rightarrow> nats_error option \<times> 'w"
  ee_js :: "'w jetstream"
  ee_nc :: "'w connection"
  ee_error :: "nats_error \<Rightarrow> go_error"
  ee_writeStats :: "LoadTestSpec \<Rightarrow> Stats \<Rightarrow> 'st \<Rightarrow> 'e option \<times> 'st"
  ee_writeFailure :: "LoadTestSpec \<Rightarrow> Stats \<Rightarrow> 'st \<Rightarrow> 'e option \<times> 'st"
  ee_backoff :: "'w backoff_env"
  ee_digest :: "json \<Rightarrow> string"
  ee_other :: "string \<Rightarrow> int32 \<Rightarrow> string"
  ee_impl :: impl
  ee_rnd :: "nat \<Rightarrow> 8 word"
  ee_early :: "nats_error \<Rightarrow> 'w \<Rightarrow> bool"

datatype engine_error =
    ConnectFailed nats_error | StreamsFailed setup_error | ConsumersFailed "consumer_failure backoff_error"

definition NewEngine :: "Collector \<Rightarrow> 'st option \<Rightarrow> bool \<Rightarrow> bool \<Rightarrow> 'w \<Rightarrow> ('w, 'st) Engine" where
  "NewEngine collector storage enablePublishers enableConsumers w =
     \<lparr>eg_enablePublishers = enablePublishers, eg_enableConsumers = enableConsumers,
      eg_collector = collector, eg_storage = storage, eg_natsConn = False,
      eg_natsJetStreamContext = False, eg_loadTestSpec = None, eg_publishers = [],
      eg_consumers = [], eg_cancelled = None, eg_errGroup = NoGroup, eg_streamManager = False,
      eg_world = w\<rparr>"

section \<open>Cleanup\<close>

fun cleanup_consumers :: "'w connection \<Rightarrow> Consumer list \<Rightarrow> 'w \<Rightarrow> 'w" where
  "cleanup_consumers nc [] w = w"
| "cleanup_consumers nc (c # cs) w = cleanup_consumers nc cs (snd (snd (Consumer_Cleanup nc c w)))"

definition cleanup_streams ::
  "('w, 'st, 'e) engine_env \<Rightarrow> ('w, 'st) Engine \<Rightarrow> 'w \<Rightarrow> (unit, 'w) outcome" where
  "cleanup_streams env e w =
     (case eg_loadTestSpec e of
        None \<Rightarrow> Return w
      | Some lts \<Rightarrow>
          (if lts_UseJetStream lts \<and> eg_streamManager e then CleanupStreams (ee_js env) lts w
           else Return w))"

definition cleanup :: "('w, 'st, 'e) engine_env \<Rightarrow> ('w, 'st) Engine \<Rightarrow> (unit, ('w, 'st) Engine) outcome" where
  "cleanup env e =
     obind (cleanup_streams env e (cleanup_consumers (ee_nc env) (eg_consumers e) (eg_world e)))
       (\<lambda>w. Return (e
          \<lparr>eg_cancelled := map_option (\<lambda>_. True) (eg_cancelled e),
           eg_world := (if eg_natsConn e \<and> nc_IsConnected (ee_nc env) w then nc_Close (ee_nc env) w else w),
           eg_natsJetStreamContext := False, eg_natsConn := False, eg_loadTestSpec := None,
           eg_streamManager := False, eg_publishers := [], eg_consumers := []\<rparr>))"

section \<open>Connecting\<close>

text \<open>When the JetStream context fails, the closed connection stays in the struct.\<close>

definition engine_connect ::
  "('w, 'st, 'e) engine_env \<Rightarrow> LoadTestSpec \<Rightarrow> ('w, 'st) Engine \<Rightarrow> nats_error option \<times> ('w, 'st) Engine" where
  "engine_connect env lts e =
     (case ee_connect env (lts_NATSURL lts) (lts_ClientIDPrefix lts @ ''-engine'') (lts_NATSCredsFile lts)
             (eg_world e) of
        (Some err, w) \<Rightarrow> (Some err, e\<lparr>eg_world := w\<rparr>)
      | (None, w) \<Rightarrow>
          (if lts_UseJetStream lts
           then (case ee_jetstream env w of
                   (Some err, w1) \<Rightarrow> (Some err, e\<lparr>eg_natsConn := True, eg_world := nc_Close (ee_nc env) w1\<rparr>)
                 | (None, w1) \<Rightarrow>
                     (None, e\<lparr>eg_natsConn := True, eg_natsJetStreamContext := True, eg_world := w1\<rparr>))
           else (None, e\<lparr>eg_natsConn := True, eg_world := w\<rparr>)))"

section \<open>Starting\<close>

definition consumer_env :: "('w, 'st, 'e) engine_env \<Rightarrow> ('w, 'st) Engine \<Rightarrow> 'w nats_env" where
  "consumer_env env e =
     \<lparr>ne_js = (if eg_natsJetStreamContext e then Some (ee_js env) else None), ne_nc = ee_nc env,
      ne_error = ee_error env\<rparr>"

text \<open>
  The handler of client errors is registered with the connection, before the collector knows the
  spec: \<open>ee_early\<close> says which errors the client may report to it in between.
\<close>

definition early_error ::
  "('w, 'st, 'e) engine_env \<Rightarrow> LoadTestSpec \<Rightarrow> nats_error \<Rightarrow> ('w, 'st) Engine \<Rightarrow> bool" where
  "early_error env lts err e =
     (case ee_connect env (lts_NATSURL lts) (lts_ClientIDPrefix lts @ ''-engine'') (lts_NATSCredsFile lts)
             (eg_world e) of
        (Some _, w) \<Rightarrow> False
      | (None, w) \<Rightarrow> ee_early env err w)"

text \<open>The steps of \<open>Start\<close> after the connection, each with the engine it leaves.\<close>

definition configure ::
  "('w, 'st, 'e) engine_env \<Rightarrow> Time \<Rightarrow> LoadTestSpec \<Rightarrow> ('w, 'st) Engine \<Rightarrow> ('w, 'st) Engine" where
  "configure env now lts e = e
     \<lparr>eg_loadTestSpec := Some lts,
      eg_collector := SetConfig (ee_digest env) now lts (eg_collector e),
      eg_cancelled := Some False, eg_errGroup := GroupRunning,
      eg_streamManager := (eg_streamManager e \<or> lts_UseJetStream lts)\<rparr>"

definition setup_streams_of ::
  "('w, 'st, 'e) engine_env \<Rightarrow> LoadTestSpec \<Rightarrow> ('w, 'st) Engine
    \<Rightarrow> (unit, setup_error option \<times> ('w, 'st) Engine) outcome" where
  "setup_streams_of env lts e =
     (if lts_UseJetStream lts
      then obind (SetupStreams (ee_other env) (ee_impl env) (Some (ee_backoff env)) (ee_js env) lts (eg_world e))
             (\<lambda>(err, w). Return (err, e\<lparr>eg_world := w\<rparr>))
      else Return (None, e))"

definition create_publishers_of ::
  "('w, 'st, 'e) engine_env \<Rightarrow> LoadTestSpec \<Rightarrow> ('w, 'st) Engine \<Rightarrow> (unit, ('w, 'st) Engine) outcome" where
  "create_publishers_of env lts e =
     (if eg_enablePublishers e
      then obind (CreatePublishers (ee_other env) (ee_rnd env) lts) (\<lambda>ps. Return (e\<lparr>eg_publishers := ps\<rparr>))
      else Return e)"

definition create_consumers_of ::
  "('w, 'st, 'e) engine_env \<Rightarrow> LoadTestSpec \<Rightarrow> ('w, 'st) Engine
    \<Rightarrow> (unit, consumer_failure backoff_error option \<times> ('w, 'st) Engine) outcome" where
  "create_consumers_of env lts e =
     (if eg_enableConsumers e
      then obind (CreateConsumers (ee_other env) (ee_impl env) (ee_backoff env) (consumer_env env e) lts
                    (eg_collector e, eg_world e))
             (\<lambda>(err, cs, c, w). Return (err, e\<lparr>eg_consumers := cs, eg_collector := c, eg_world := w\<rparr>))
      else Return (None, e))"

text \<open>
  The collector's goroutine makes a ticker of the interval, which panics when the interval is
  not positive.
\<close>

definition Engine_Start ::
  "('w, 'st, 'e) engine_env \<Rightarrow> Time \<Rightarrow> LoadTestSpec \<Rightarrow> Duration \<Rightarrow> ('w, 'st) Engine
    \<Rightarrow> (unit, engine_error option \<times> ('w, 'st) Engine) outcome" where
  "Engine_Start env now lts statsInterval e0 =
     (case engine_connect env lts e0 of
        (Some err, e1) \<Rightarrow>
          Return (Some (ConnectFailed err),
            e1\<lparr>eg_storage := WriteFailure (ee_writeFailure env) now (ee_error env err)
                   (eg_collector e1) (eg_storage e1)\<rparr>)
      | (None, e1) \<Rightarrow>
          (if sint statsInterval \<le> 0 then Panic
           else obind (setup_streams_of env lts (configure env now lts e1)) (\<lambda>(serr, e2).
             case serr of
               Some err \<Rightarrow> obind (cleanup env e2) (\<lambda>e3. Return (Some (StreamsFailed err), e3))
             | None \<Rightarrow>
                 obind (create_publishers_of env lts e2) (\<lambda>e3.
                   obind (create_consumers_of env lts e3) (\<lambda>(cerr, e4).
                     case cerr of
                       Some err \<Rightarrow> obind (cleanup env e4) (\<lambda>e5. Return (Some (ConsumersFailed err), e5))
                     | None \<Rightarrow> Return (None, e4))))))"

section \<open>Stopping\<close>

fun drain_all :: "'w connection \<Rightarrow> Consumer list \<Rightarrow> 'w \<Rightarrow> Consumer list \<times> 'w" where
  "drain_all nc [] w = ([], w)"
| "drain_all nc (c # cs) w =
     (case Consumer_Cleanup nc c w of (_, c', w1) \<Rightarrow>
        (case drain_all nc cs w1 of (cs', w2) \<Rightarrow> (c' # cs', w2)))"

text \<open>The goroutines of the group end; \<open>groupErr\<close> is the first error one of them returned.\<close>

definition wait_group ::
  "('w, 'st, 'e) engine_env \<Rightarrow> Time \<Rightarrow> string option \<Rightarrow> ('w, 'st) Engine \<Rightarrow> string option \<times> ('w, 'st) Engine" where
  "wait_group env now groupErr e =
     (case eg_errGroup e of
        NoGroup \<Rightarrow> (None, e)
      | GroupDone err \<Rightarrow> (err, e)
      | GroupRunning \<Rightarrow>
          (case CollectStats (ee_writeStats env) (ee_impl env) now (eg_collector e) (eg_storage e) of
             (_, c, st) \<Rightarrow>
               (case drain_all (ee_nc env) (eg_consumers e) (eg_world e) of
                  (cs, w) \<Rightarrow>
                    (groupErr, e\<lparr>eg_collector := c, eg_storage := st, eg_consumers := cs, eg_world := w,
                                 eg_errGroup := GroupDone groupErr\<rparr>))))"

definition Engine_Stop ::
  "('w, 'st, 'e) engine_env \<Rightarrow> Time \<Rightarrow> string option \<Rightarrow> ('w, 'st) Engine
    \<Rightarrow> (unit, string option \<times> ('w, 'st) Engine) outcome" where
  "Engine_Stop env now groupErr e =
     (let e1 = e\<lparr>eg_cancelled := map_option (\<lambda>_. True) (eg_cancelled e)\<rparr>;
          (err, e2) = wait_group env now groupErr e1
      in obind (cleanup env e2) (\<lambda>e3. Return (err, e3)))"

section \<open>The idle engine\<close>

text \<open>An engine that holds no resource and can be started.\<close>

definition idle :: "('w, 'st) Engine \<Rightarrow> bool" where
  "idle e \<longleftrightarrow> \<not> eg_natsConn e \<and> \<not> eg_natsJetStreamContext e \<and> eg_loadTestSpec e = None
     \<and> eg_publishers e = [] \<and> eg_consumers e = [] \<and> \<not> eg_streamManager e
     \<and> eg_cancelled e \<noteq> Some False"

lemma cleanup_idle: "cleanup env e = Return e' \<Longrightarrow> idle e'"
  by (auto simp: cleanup_def idle_def)

lemma Engine_Stop_idle: "Engine_Stop env now g e = Return (err, e') \<Longrightarrow> idle e'"
  by (auto simp: Engine_Stop_def Let_def split: prod.splits dest: cleanup_idle)

lemma idle_cleanup:
  assumes "idle e" shows "cleanup env e = Return e"
proof -
  have "map_option (\<lambda>_. True) (eg_cancelled e) = eg_cancelled e"
    using assms by (cases "eg_cancelled e") (auto simp: idle_def)
  then show ?thesis using assms by (simp add: cleanup_def cleanup_streams_def idle_def)
qed

text \<open>Stopping twice is stopping once.\<close>

lemma cleanup_errGroup: "cleanup env e = Return e' \<Longrightarrow> eg_errGroup e' = eg_errGroup e"
  by (auto simp: cleanup_def)

lemma Engine_Stop_group:
  "Engine_Stop env now g e = Return (err, e') \<Longrightarrow> eg_errGroup e' = NoGroup \<and> err = None \<or> eg_errGroup e' = GroupDone err"
  by (auto simp: Engine_Stop_def wait_group_def Let_def split: prod.splits group_state.splits
      dest!: cleanup_errGroup)

lemma Engine_Stop_twice_lemma:
  assumes "Engine_Stop env now g e = Return (err, e')"
  shows "Engine_Stop env now' g' e' = Return (err, e')"
proof -
  have i: "idle e'" using assms by (rule Engine_Stop_idle)
  then have c: "e'\<lparr>eg_cancelled := map_option (\<lambda>_. True) (eg_cancelled e')\<rparr> = e'"
    by (cases "eg_cancelled e'") (auto simp: idle_def)
  show ?thesis
    using Engine_Stop_group [OF assms]
    by (auto simp: Engine_Stop_def c wait_group_def idle_cleanup [OF i] Let_def)
qed

section \<open>What an engine does with a spec\<close>

text \<open>Client calls other than the stream calls leave the streams of the server alone.\<close>

definition client_laws :: "('w, 'st, 'e) engine_env \<Rightarrow> ('w \<Rightarrow> string \<rightharpoonup> StreamConfig) \<Rightarrow> bool" where
  "client_laws env streams \<longleftrightarrow>
     jetstream_laws (ee_js env) streams
   \<and> (\<forall>url name creds w. streams (snd (ee_connect env url name creds w)) = streams w)
   \<and> (\<forall>w. streams (snd (ee_jetstream env w)) = streams w)
   \<and> (\<forall>w. streams (nc_Close (ee_nc env) w) = streams w)
   \<and> (\<forall>s w. streams (snd (nc_Drain (ee_nc env) s w)) = streams w)
   \<and> (\<forall>t w. streams (snd (nc_Subscribe (ee_nc env) t w)) = streams w)
   \<and> (\<forall>s d w. streams (snd (js_DeleteConsumer (ee_js env) s d w)) = streams w)
   \<and> (\<forall>s c w. streams (snd (js_AddConsumer (ee_js env) s c w)) = streams w)
   \<and> (\<forall>t d a m w. streams (snd (js_Subscribe (ee_js env) t d a m w)) = streams w)
   \<and> (\<forall>t d a m w. streams (snd (js_PullSubscribe (ee_js env) t d a m w)) = streams w)
   \<and> (\<forall>t m w. streams (snd (js_Publish (ee_js env) t m w)) = streams w)
   \<and> (\<forall>t m w. streams (snd (nc_Publish (ee_nc env) t m w)) = streams w)
   \<and> quiet_waits (ee_backoff env) streams"

lemma client_lawsD:
  assumes "client_laws env streams"
  shows "jetstream_laws (ee_js env) streams"
    and "ee_connect env url name creds w = (r1, w') \<Longrightarrow> streams w' = streams w"
    and "ee_jetstream env w = (r2, w') \<Longrightarrow> streams w' = streams w"
    and "streams (nc_Close (ee_nc env) w) = streams w"
    and "nc_Drain (ee_nc env) s w = (r3, w') \<Longrightarrow> streams w' = streams w"
    and "nc_Subscribe (ee_nc env) t w = (r4, w') \<Longrightarrow> streams w' = streams w"
    and "js_DeleteConsumer (ee_js env) s' d w = (r5, w') \<Longrightarrow> streams w' = streams w"
    and "js_AddConsumer (ee_js env) s' c w = (r6, w') \<Longrightarrow> streams w' = streams w"
    and "js_Subscribe (ee_js env) t d a m w = (r7, w') \<Longrightarrow> streams w' = streams w"
    and "js_PullSubscribe (ee_js env) t d a m w = (r8, w') \<Longrightarrow> streams w' = streams w"
    and "quiet_waits (ee_backoff env) streams"
    and "be_wait (ee_backoff env) dd w = (r9, w') \<Longrightarrow> streams w' = streams w"
    and "js_Publish (ee_js env) t msg w = (r10, w') \<Longrightarrow> streams w' = streams w"
    and "nc_Publish (ee_nc env) t msg w = (r11, w') \<Longrightarrow> streams w' = streams w"
  using assms unfolding client_laws_def quiet_waits_def by (metis snd_conv)+

end
