(* ===== verification/Engine_Correct.thy ===== *)
theory Engine_Correct
  imports Engine
begin

text \<open>
  What an engine does with a well-formed spec: \<open>Start\<close> returns and does not panic, creates the
  publishers the spec asks for, and the streams of the server after \<open>Stop\<close> (or a failed
  \<open>Start\<close>) are those of before without the names of the spec.
\<close>

section \<open>The streams of the server\<close>

lemma subscribe_result_world [simp]: "snd (snd (subscribe_result fail r c)) = snd r"
  by (simp add: subscribe_result_def split: prod.split sum.split)

lemma Consumer_Start_streams:
  assumes "client_laws env streams" and "ne = consumer_env env e"
  shows "streams (snd (snd (Consumer_Start ne cw))) = streams (snd cw)"
proof -
  note laws = assms(1) [unfolded client_laws_def]
  have js: "streams (snd (snd (startJetStreamConsumer (ee_js env) c w))) = streams w" for c w
  proof -
    let ?cfg = "cn_config c"
    obtain err w1 where d: "js_DeleteConsumer (ee_js env) (cc_StreamName ?cfg) (cc_DurableName ?cfg) w = (err, w1)"
      by fastforce
    obtain err2 w2 where a: "js_AddConsumer (ee_js env) (cc_StreamName ?cfg) (js_consumer_config ?cfg) w1 = (err2, w2)"
      by fastforce
    have "streams w1 = streams w" "streams w2 = streams w1"
      using client_lawsD(7,8) [OF assms(1)] d a by blast+
    with laws show ?thesis
      by (simp add: startJetStreamConsumer_def d a startPullConsumer_def startPushConsumer_def Let_def
          split: option.split)
  qed
  have core: "streams (snd (snd (startCoreConsumer (ee_nc env) c w))) = streams w" for c w
    using laws by (simp add: startCoreConsumer_def)
  show ?thesis
    using js core by (simp add: Consumer_Start_def assms(2) consumer_env_def)
qed

lemma start_consumer_streams:
  assumes laws: "client_laws env streams"
  shows "streams (snd (snd (start_consumer im (ee_backoff env) (consumer_env env e) k w))) = streams w"
proof -
  have "(\<lambda>cw. streams (snd cw) = streams w) (snd (exponentialBackoff im (lift_env (ee_backoff env)) (1 * Second)
      (Fin 2) 5 (5 * Second) (Consumer_Start (consumer_env env e)) (k, w)))"
  proof (rule exponentialBackoff_preserves)
    show "streams (snd (snd (be_wait (lift_env (ee_backoff env)) d cw))) = streams w"
      if "streams (snd cw) = streams w" for d cw
      using that client_lawsD(12) [OF laws] by (simp add: lift_env_def split: prod.split)
  qed (simp_all add: Consumer_Start_streams [OF laws refl])
  then show ?thesis by (simp add: start_consumer_def)
qed

lemma start_consumers_streams:
  assumes laws: "client_laws env streams"
  shows "start_consumers im (ee_backoff env) (consumer_env env e) ks (c, w) = Return (err, ks', c', w')
    \<Longrightarrow> streams w' = streams w"
proof (induction ks arbitrary: c w err ks')
  case (Cons k ks)
  obtain r k' w1 where k: "start_consumer im (ee_backoff env) (consumer_env env e) k w = (r, k', w1)"
    by (metis prod_cases3)
  have "streams w1 = streams w" using start_consumer_streams [OF laws, of im e k w] k by simp
  moreover obtain c1 err1 ks1 where
    "start_consumers im (ee_backoff env) (consumer_env env e) ks (c1, w1) = Return (err1, ks1, c', w')"
    using Cons.prems k by (auto split: option.splits)
  ultimately show ?case using Cons.IH by simp
qed simp

lemma Consumer_Cleanup_streams:
  "client_laws env streams \<Longrightarrow> streams (snd (snd (Consumer_Cleanup (ee_nc env) c w))) = streams w"
  by (auto simp: Consumer_Cleanup_def split: option.splits prod.splits dest: client_lawsD(5))

lemma cleanup_consumers_streams:
  "client_laws env streams \<Longrightarrow> streams (cleanup_consumers (ee_nc env) cs w) = streams w"
  by (induction cs arbitrary: w) (simp_all add: Consumer_Cleanup_streams)

lemma drain_all_streams:
  "client_laws env streams \<Longrightarrow> streams (snd (drain_all (ee_nc env) cs w)) = streams w"
proof (induction cs arbitrary: w)
  case (Cons c cs)
  obtain r c' w1 where c: "Consumer_Cleanup (ee_nc env) c w = (r, c', w1)" by (metis prod_cases3)
  have "streams w1 = streams w" using Consumer_Cleanup_streams [OF Cons.prems, of c w] c by simp
  moreover obtain cs' w2 where "drain_all (ee_nc env) cs w1 = (cs', w2)" by fastforce
  ultimately show ?case using Cons.IH [OF Cons.prems, of w1] c by simp
qed simp

lemma CleanupStreams_laws:
  assumes "jetstream_laws js streams" and "\<forall>s \<in> set (lts_Streams lts). stream_ok s"
  shows "\<exists>w'. CleanupStreams js lts w = Return w' \<and> cleaned js streams (spec_stream_names lts) w w'"
proof -
  have "spec_stream_names lts =
      (\<Union>s \<in> set (lts_Streams lts). stream_name (ss_NamePrefix s) ` {..<nat (sint (ss_Count s))})"
    by (auto simp: spec_stream_names_def)
  with cleanup_specs_laws [OF assms] show ?thesis by (simp add: CleanupStreams_def)
qed

lemma SetupStreams_laws:
  assumes "jetstream_laws js streams" and "quiet_waits bo streams" and "\<forall>s \<in> set (lts_Streams lts). stream_ok s"
    and "countable_subjects lts"
  shows "\<exists>r w'. SetupStreams other im (Some bo) js lts w = Return (r, w')
    \<and> set_up bo js streams (spec_configs other lts) w r w'"
  using setup_specs_laws [OF assms(1,2), of "lts_Streams lts" other im w] assms(3,4)
  by (auto simp: SetupStreams_def spec_configs_def countable_subjects_def)

text \<open>Cleanup of an engine that holds a JetStream spec.\<close>

lemma cleaned_world:
  assumes "cleaned js streams names w w'" and "streams v = streams w" and "streams v' = streams w'"
  shows "cleaned js streams names v v'"
  using assms by (simp add: cleaned_def)

lemma cleanup_streams_laws:
  assumes laws: "client_laws env streams" and spec: "eg_loadTestSpec e = Some lts" "lts_UseJetStream lts"
    and sm: "eg_streamManager e" and ok: "\<forall>s \<in> set (lts_Streams lts). stream_ok s"
  shows "\<exists>e'. cleanup env e = Return e'
    \<and> cleaned (ee_js env) streams (spec_stream_names lts) (eg_world e) (eg_world e')"
proof -
  let ?w = "cleanup_consumers (ee_nc env) (eg_consumers e) (eg_world e)"
  obtain w' where w': "CleanupStreams (ee_js env) lts ?w = Return w'"
    "cleaned (ee_js env) streams (spec_stream_names lts) ?w w'"
    using CleanupStreams_laws [OF client_lawsD(1) [OF laws] ok] by blast
  have "streams (eg_world e) = streams ?w" by (simp add: cleanup_consumers_streams [OF laws])
  then show ?thesis
    using spec sm w' cleaned_world [OF w'(2)]
    by (simp add: cleanup_def cleanup_streams_def client_lawsD(4) [OF laws])
qed

lemma engine_connect_streams:
  assumes "client_laws env streams" and "engine_connect env lts e = (r, e')"
  shows "streams (eg_world e') = streams (eg_world e)"
proof -
  obtain r1 w1 where c: "ee_connect env (lts_NATSURL lts) (lts_ClientIDPrefix lts @ ''-engine'')
      (lts_NATSCredsFile lts) (eg_world e) = (r1, w1)" by fastforce
  obtain r2 w2 where j: "ee_jetstream env w1 = (r2, w2)" by fastforce
  have "streams w1 = streams (eg_world e)" "streams w2 = streams w1"
    using client_lawsD(2,3) [OF assms(1)] c j by blast+
  with assms(2) show ?thesis
    by (auto simp: engine_connect_def c j client_lawsD(4) [OF assms(1)] split: option.splits if_splits)
qed

lemma engine_connect_frame:
  "engine_connect env lts e = (r, e') \<Longrightarrow>
     eg_streamManager e' = eg_streamManager e \<and> eg_enablePublishers e' = eg_enablePublishers e
   \<and> eg_enableConsumers e' = eg_enableConsumers e \<and> eg_collector e' = eg_collector e
   \<and> eg_storage e' = eg_storage e \<and> eg_publishers e' = eg_publishers e"
  by (auto simp: engine_connect_def split: prod.splits option.splits if_splits)

lemma wait_group_streams:
  assumes "client_laws env streams" and "wait_group env now g e = (r, e')"
  shows "streams (eg_world e') = streams (eg_world e) \<and> eg_loadTestSpec e' = eg_loadTestSpec e
    \<and> eg_streamManager e' = eg_streamManager e"
  using assms(2) drain_all_streams [OF assms(1), of "eg_consumers e" "eg_world e"]
  by (auto simp: wait_group_def split: group_state.splits prod.splits)

section \<open>Starting returns\<close>

text \<open>
  A spec the engine can be started with: validated, with log limits that allow an error, and
  with lists of subjects the code can count.
\<close>

definition startable :: "LoadTestSpec \<Rightarrow> bool" where
  "startable lts \<longleftrightarrow> spec_wf lts \<and> countable_subjects lts \<and> 0 < sint (ll_MaxLines (lts_LogLimits lts))"

lemma startable_streams:
  "startable lts \<Longrightarrow> \<forall>s \<in> set (lts_Streams lts). stream_ok s \<and> length (ss_Subjects s) < 2147483648"
  by (auto simp: startable_def spec_wf_def spec_ok_def countable_subjects_def)

lemma setup_names_returns:
  assumes "length (ss_Subjects s) < 2147483648"
  shows "\<exists>r w'. setup_names other im bo js s i names w = Return (r, w')"
proof (induction names arbitrary: i w)
  case (Cons n ns)
  then show ?case by (auto simp: GetFormattedSubjects_eq [OF assms] split: prod.split option.split)
qed simp

lemma setup_specs_returns:
  assumes "\<forall>s \<in> set ss. stream_ok s \<and> length (ss_Subjects s) < 2147483648"
  shows "\<exists>r w'. setup_specs other im bo js ss w = Return (r, w')"
  using assms
proof (induction ss arbitrary: w)
  case (Cons s ss)
  then obtain r w1 where "setup_names other im bo js s 0
      (map (stream_name (ss_NamePrefix s)) [0..<nat (sint (ss_Count s))]) w = Return (r, w1)"
    using setup_names_returns by (metis list.set_intros(1))
  with Cons show ?case by (auto simp: GetFormattedStreamNames_ok)
qed simp

lemma start_consumers_returns:
  assumes "recording_ok c"
  shows "\<exists>r ks' c' w'. start_consumers im bo ne ks (c, w) = Return (r, ks', c', w') \<and> length ks' = length ks"
  using assms
proof (induction ks arbitrary: c w)
  case (Cons k ks)
  obtain r k' w1 where k: "start_consumer im bo ne k w = (r, k', w1)" by (metis prod_cases3)
  let ?err = "\<lambda>e. plain_error (backoff_error_text (consumer_error_text (\<lambda>n. err_text (ne_error ne n))) e)"
  obtain c1 where c1: "(case r of None \<Rightarrow> Return c | Some e \<Rightarrow> RecordError (?err e) c) = Return c1" "recording_ok c1"
  proof (cases r)
    case None
    with Cons.prems that show ?thesis by simp
  next
    case (Some e)
    with recordError_recording [OF Cons.prems, of "?err e"] that show ?thesis by (auto simp: RecordError_def)
  qed
  obtain r2 ks2 c2 w2 where "start_consumers im bo ne ks (c1, w1) = Return (r2, ks2, c2, w2)" "length ks2 = length ks"
    using Cons.IH [OF c1(2)] by metis
  with k c1(1) have "start_consumers im bo ne (k # ks) (c, w) =
      Return (if r \<noteq> None then r else r2, k' # ks2, c2, w2) \<and> length (k' # ks2) = length (k # ks)"
    by simp
  then show ?case by blast
qed simp

lemma SetConfig_recording:
  "0 < sint (ll_MaxLines (lts_LogLimits lts)) \<Longrightarrow> recording_ok (SetConfig digest now lts c)"
  by (simp add: recording_ok_def SetConfig_def)

definition made_publisher :: "(nat \<Rightarrow> 8 word) \<Rightarrow> PublisherConfig \<Rightarrow> Publisher" where
  "made_publisher rnd cfg =
     \<lparr>pb_config = cfg, pb_messageData = map (\<lambda>i. if i < 8 then 0 else rnd i) [0..<nat (sint (pc_MessageSize cfg))],
      pb_currentRate = 0, pb_targetRate = pc_PublishRate cfg\<rparr>"

definition publisher_targets :: "(string \<Rightarrow> int32 \<Rightarrow> string) \<Rightarrow> LoadTestSpec \<Rightarrow> target list" where
  "publisher_targets other lts =
     concat (map (targets_of other (nat (sint (ps_CountPerStream (lts_Publishers lts)))))
       (filter (\<lambda>s. ss_NamePrefix s = ps_StreamNamePrefix (lts_Publishers lts)) (lts_Streams lts)))"

lemma CreatePublishers_startable:
  assumes "startable lts"
  shows "CreatePublishers other rnd lts =
    Return (map (\<lambda>t. made_publisher rnd (publisher_config lts t)) (publisher_targets other lts))"
proof -
  have "0 < sint (ps_MessageSizeBytes (lts_Publishers lts))"
    using assms by (simp add: startable_def spec_wf_def spec_ok_def publisher_ok_def)
  then have "omap (\<lambda>t. NewPublisher rnd (publisher_config lts t)) ts =
      Return (map (\<lambda>t. made_publisher rnd (publisher_config lts t)) ts)" for ts
    by (intro omap_Return) (simp add: NewPublisher_def publisher_config_def made_publisher_def)
  then show ?thesis
    by (simp add: CreatePublishers_def targets_ok [OF startable_streams [OF assms]] publisher_targets_def)
qed

lemma cleanup_returns:
  assumes "\<forall>lts. eg_loadTestSpec e = Some lts \<longrightarrow> (\<forall>s \<in> set (lts_Streams lts). stream_ok s)"
  shows "\<exists>e'. cleanup env e = Return e'"
proof -
  have specs: "\<exists>w'. cleanup_specs js ss w = Return w'" if "\<forall>s \<in> set ss. stream_ok s" for js ss w
    using that by (induction ss arbitrary: w) (simp_all add: GetFormattedStreamNames_ok)
  have "\<exists>w'. cleanup_streams env e w = Return w'" for w
    using assms specs by (auto simp: cleanup_streams_def CleanupStreams_def split: option.split)
  then obtain w' where "cleanup_streams env e (cleanup_consumers (ee_nc env) (eg_consumers e) (eg_world e)) = Return w'"
    by blast
  then show ?thesis by (simp add: cleanup_def)
qed

lemma configure_simps [simp]:
  "eg_world (configure env now lts e) = eg_world e"
  "eg_loadTestSpec (configure env now lts e) = Some lts"
  "eg_streamManager (configure env now lts e) = (eg_streamManager e \<or> lts_UseJetStream lts)"
  "eg_enablePublishers (configure env now lts e) = eg_enablePublishers e"
  "eg_enableConsumers (configure env now lts e) = eg_enableConsumers e"
  "eg_collector (configure env now lts e) = SetConfig (ee_digest env) now lts (eg_collector e)"
  "eg_publishers (configure env now lts e) = eg_publishers e"
  "eg_consumers (configure env now lts e) = eg_consumers e"
  by (simp_all add: configure_def)

text \<open>The three steps of a start as relations between engines.\<close>

lemma setup_streams_of_returns:
  assumes "startable lts"
  shows "\<exists>r w. setup_streams_of env lts e = Return (r, e\<lparr>eg_world := w\<rparr>)"
proof (cases "lts_UseJetStream lts")
  case True
  obtain r w where "setup_specs (ee_other env) (ee_impl env) (ee_backoff env) (ee_js env) (lts_Streams lts) (eg_world e)
      = Return (r, w)"
    using setup_specs_returns [OF startable_streams [OF assms]] by metis
  with True show ?thesis by (auto simp: setup_streams_of_def SetupStreams_def)
next
  case False
  then have "setup_streams_of env lts e = Return (None, e\<lparr>eg_world := eg_world e\<rparr>)"
    by (simp add: setup_streams_of_def)
  then show ?thesis by (intro exI)
qed

lemma create_publishers_of_startable:
  assumes "startable lts"
  shows "create_publishers_of env lts e = Return (if eg_enablePublishers e
    then e\<lparr>eg_publishers := map (\<lambda>t. made_publisher (ee_rnd env) (publisher_config lts t))
             (publisher_targets (ee_other env) lts)\<rparr> else e)"
  by (simp add: create_publishers_of_def CreatePublishers_startable [OF assms])

lemma create_consumers_of_returns:
  assumes "startable lts" and "recording_ok (eg_collector e)"
  shows "\<exists>r cs c w. create_consumers_of env lts e =
    Return (r, e\<lparr>eg_consumers := cs, eg_collector := c, eg_world := w\<rparr>)"
proof (cases "eg_enableConsumers e")
  case True
  obtain r ks c w where "CreateConsumers (ee_other env) (ee_impl env) (ee_backoff env) (consumer_env env e) lts
      (eg_collector e, eg_world e) = Return (r, ks, c, w)"
    unfolding CreateConsumers_ok [OF startable_streams [OF assms(1)]]
    using start_consumers_returns [OF assms(2)] by metis
  with True show ?thesis by (auto simp: create_consumers_of_def)
next
  case False
  then have "create_consumers_of env lts e =
      Return (None, e\<lparr>eg_consumers := eg_consumers e, eg_collector := eg_collector e, eg_world := eg_world e\<rparr>)"
    by (simp add: create_consumers_of_def)
  then show ?thesis by (intro exI)
qed

lemma Engine_Start_returns:
  assumes ok: "startable lts" and interval: "0 < sint statsInterval"
  shows "\<exists>r e'. Engine_Start env now lts statsInterval e = Return (r, e')"
proof -
  obtain cr e1 where c: "engine_connect env lts e = (cr, e1)" by (cases "engine_connect env lts e")
  show ?thesis
  proof (cases cr)
    case (Some err)
    with c show ?thesis by (simp add: Engine_Start_def)
  next
    case None
    let ?e = "configure env now lts e1"
    have rec: "recording_ok (eg_collector ?e)" using ok by (simp add: startable_def SetConfig_recording)
    have streams: "\<forall>s \<in> set (lts_Streams lts). stream_ok s" using startable_streams [OF ok] by simp
    obtain r w where s: "setup_streams_of env lts ?e = Return (r, ?e\<lparr>eg_world := w\<rparr>)"
      using setup_streams_of_returns [OF ok, of env ?e] by auto
    have clean: "\<exists>e'. cleanup env x = Return e'" if "eg_loadTestSpec x = Some lts" for x
      using that streams by (intro cleanup_returns) simp
    show ?thesis
    proof (cases r)
      case (Some err)
      have "\<exists>e'. cleanup env (?e\<lparr>eg_world := w\<rparr>) = Return e'" by (rule clean) simp
      with Some None c s interval show ?thesis by (auto simp: Engine_Start_def)
    next
      case None': None
      obtain e3 where e3: "create_publishers_of env lts (?e\<lparr>eg_world := w\<rparr>) = Return e3"
        "eg_collector e3 = eg_collector ?e" "eg_loadTestSpec e3 = Some lts"
        by (simp add: create_publishers_of_startable [OF ok])
      obtain r4 cs4 c4 w4 where e4: "create_consumers_of env lts e3 =
          Return (r4, e3\<lparr>eg_consumers := cs4, eg_collector := c4, eg_world := w4\<rparr>)"
        using create_consumers_of_returns [OF ok] rec e3(2) by metis
      have "\<exists>e'. cleanup env (e3\<lparr>eg_consumers := cs4, eg_collector := c4, eg_world := w4\<rparr>) = Return e'"
        by (rule clean) (simp add: e3(3))
      with None None' c s interval e3 e4 show ?thesis
        by (cases r4) (auto simp: Engine_Start_def)
    qed
  qed
qed


section \<open>What a started engine runs\<close>

lemma Engine_Start_NoneD:
  assumes "startable lts" and "Engine_Start env now lts statsInterval e = Return (None, e')"
  shows "\<exists>e1 w. engine_connect env lts e = (None, e1)
    \<and> setup_streams_of env lts (configure env now lts e1) = Return (None, (configure env now lts e1)\<lparr>eg_world := w\<rparr>)
    \<and> create_consumers_of env lts
        (if eg_enablePublishers e
         then (configure env now lts e1)\<lparr>eg_world := w,
                eg_publishers := map (\<lambda>t. made_publisher (ee_rnd env) (publisher_config lts t))
                  (publisher_targets (ee_other env) lts)\<rparr>
         else (configure env now lts e1)\<lparr>eg_world := w\<rparr>) = Return (None, e')"
proof -
  obtain r e1 where c: "engine_connect env lts e = (r, e1)" by fastforce
  with assms(2) have r: "r = None" by (cases r) (auto simp: Engine_Start_def)
  let ?e = "configure env now lts e1"
  obtain r2 w where s: "setup_streams_of env lts ?e = Return (r2, ?e\<lparr>eg_world := w\<rparr>)"
    using setup_streams_of_returns [OF assms(1), of env ?e] by auto
  have r2: "r2 = None" using assms(2) c r s by (auto simp: Engine_Start_def split: if_splits option.splits)
  have p: "create_publishers_of env lts (?e\<lparr>eg_world := w\<rparr>) = Return (if eg_enablePublishers e
         then ?e\<lparr>eg_world := w,
                eg_publishers := map (\<lambda>t. made_publisher (ee_rnd env) (publisher_config lts t))
                  (publisher_targets (ee_other env) lts)\<rparr>
         else ?e\<lparr>eg_world := w\<rparr>)" (is "_ = Return ?e3")
    using engine_connect_frame [OF c] by (simp add: create_publishers_of_startable [OF assms(1)])
  have "\<exists>r4. create_consumers_of env lts ?e3 = Return (r4, e') \<and> r4 = None"
    using assms(2) c r s r2 unfolding Engine_Start_def
    by (auto simp: p split: if_splits option.splits)
  then show ?thesis using c r s r2 by blast
qed

lemma create_consumers_of_frame:
  "create_consumers_of env lts e = Return (r, e') \<Longrightarrow>
     eg_publishers e' = eg_publishers e \<and> eg_loadTestSpec e' = eg_loadTestSpec e
   \<and> eg_streamManager e' = eg_streamManager e \<and> eg_natsConn e' = eg_natsConn e"
  by (auto simp: create_consumers_of_def split: if_splits)

lemma create_consumers_of_streams:
  assumes "client_laws env streams" and "create_consumers_of env lts e = Return (r, e')"
  shows "streams (eg_world e') = streams (eg_world e)"
  using assms(2) start_consumers_streams [OF assms(1), of "ee_impl env" e _ "eg_collector e" "eg_world e"]
  by (auto simp: create_consumers_of_def CreateConsumers_def split: if_splits)

lemma Engine_Start_publishers:
  assumes "startable lts" and "Engine_Start env now lts statsInterval e = Return (None, e')"
    and "eg_enablePublishers e"
  shows "eg_publishers e' = map (\<lambda>t. made_publisher (ee_rnd env) (publisher_config lts t))
    (publisher_targets (ee_other env) lts)"
  using Engine_Start_NoneD [OF assms(1,2)] assms(3) create_consumers_of_frame by fastforce

lemma publisher_targets_unique:
  assumes "spec_ok lts" and "distinct (map ss_NamePrefix (lts_Streams lts))"
  shows "\<exists>s \<in> set (lts_Streams lts). ss_NamePrefix s = ps_StreamNamePrefix (lts_Publishers lts)
    \<and> publisher_targets other lts = targets_of other (nat (sint (ps_CountPerStream (lts_Publishers lts)))) s"
proof -
  obtain s where "s \<in> set (lts_Streams lts)" "ss_NamePrefix s = ps_StreamNamePrefix (lts_Publishers lts)"
    using assms(1) by (auto simp: spec_ok_def)
  moreover from this have "filter (\<lambda>t. ss_NamePrefix t = ps_StreamNamePrefix (lts_Publishers lts)) (lts_Streams lts) = [s]"
    using filter_unique_prefix [OF assms(2), of s] by simp
  ultimately show ?thesis by (intro bexI [of _ s]) (auto simp: publisher_targets_def)
qed

lemma Engine_Start_streams:
  assumes laws: "client_laws env streams" and ok: "startable lts" and js: "lts_UseJetStream lts"
    and start: "Engine_Start env now lts statsInterval e = Return (None, e')"
  shows "streams (eg_world e') = install (spec_configs (ee_other env) lts) (streams (eg_world e))
    \<and> eg_loadTestSpec e' = Some lts \<and> eg_streamManager e'"
proof -
  obtain e1 w where c: "engine_connect env lts e = (None, e1)"
    and s: "setup_streams_of env lts (configure env now lts e1) = Return (None, (configure env now lts e1)\<lparr>eg_world := w\<rparr>)"
    and k: "create_consumers_of env lts
        (if eg_enablePublishers e
         then (configure env now lts e1)\<lparr>eg_world := w,
                eg_publishers := map (\<lambda>t. made_publisher (ee_rnd env) (publisher_config lts t))
                  (publisher_targets (ee_other env) lts)\<rparr>
         else (configure env now lts e1)\<lparr>eg_world := w\<rparr>) = Return (None, e')"
    using Engine_Start_NoneD [OF ok start] by (elim exE conjE) (rule that)
  obtain r w2 where w2: "SetupStreams (ee_other env) (ee_impl env) (Some (ee_backoff env)) (ee_js env) lts
      (eg_world e1) = Return (r, w2)"
    "set_up (ee_backoff env) (ee_js env) streams (spec_configs (ee_other env) lts) (eg_world e1) r w2"
    using SetupStreams_laws [OF client_lawsD(1) [OF laws] client_lawsD(11) [OF laws], of lts]
      startable_streams [OF ok] ok by (fastforce simp: startable_def)
  have "r = None \<and> (configure env now lts e1)\<lparr>eg_world := w2\<rparr> = (configure env now lts e1)\<lparr>eg_world := w\<rparr>"
    using s js by (simp add: setup_streams_of_def w2(1))
  then have "r = None" "w = w2" by (auto dest: arg_cong [of _ _ eg_world])
  moreover have "streams (eg_world e1) = streams (eg_world e)" by (rule engine_connect_streams [OF laws c])
  moreover have "streams (eg_world e') = streams w"
    using create_consumers_of_streams [OF laws k] by (simp split: if_splits)
  ultimately show ?thesis
    using create_consumers_of_frame [OF k] w2(2) js by (simp add: set_up_def split: if_splits)
qed

lemma Engine_Stop_streams:
  assumes laws: "client_laws env streams" and spec: "eg_loadTestSpec e = Some lts" "lts_UseJetStream lts"
    and sm: "eg_streamManager e" and ok: "startable lts"
  shows "\<exists>err e'. Engine_Stop env now g e = Return (err, e')
    \<and> cleaned (ee_js env) streams (spec_stream_names lts) (eg_world e) (eg_world e')"
proof -
  let ?e = "e\<lparr>eg_cancelled := map_option (\<lambda>_. True) (eg_cancelled e)\<rparr>"
  obtain err e2 where w: "wait_group env now g ?e = (err, e2)" by fastforce
  have e2: "streams (eg_world e2) = streams (eg_world e)" "eg_loadTestSpec e2 = Some lts" "eg_streamManager e2"
    using wait_group_streams [OF laws w] spec sm by simp_all
  have "\<forall>s \<in> set (lts_Streams lts). stream_ok s" using startable_streams [OF ok] by simp
  from cleanup_streams_laws [OF laws e2(2) spec(2) e2(3) this] obtain e' where e': "cleanup env e2 = Return e'"
    "cleaned (ee_js env) streams (spec_stream_names lts) (eg_world e2) (eg_world e')" by blast
  with w cleaned_world [OF e'(2)] e2(1) show ?thesis by (simp add: Engine_Stop_def)
qed

end
