(* ===== verification/Running.thy ===== *)
theory Running
  imports Engine_Correct
begin

text \<open>
  The goroutines of a started engine (the error group of \<open>internal/engine/engine.go\<close>) as a step
  relation: each publisher, the ramp-up, the collector, the consumers and the handler of client
  errors take their steps in any order on the engine they share.
\<close>

section \<open>The goroutine of a publisher\<close>

text \<open>A publisher is created long before its goroutine reaches the loop of \<open>Start\<close>.\<close>

datatype publisher_routine = Waiting Publisher | Looping publisher_loop

fun routine_publisher :: "publisher_routine \<Rightarrow> Publisher" where
  "routine_publisher (Waiting p) = p"
| "routine_publisher (Looping l) = pl_publisher l"

definition routine_target :: "publisher_routine \<Rightarrow> int32" where
  "routine_target r = GetTargetRate (routine_publisher r)"

definition routine_current :: "publisher_routine \<Rightarrow> int32" where
  "routine_current r = GetCurrentRate (routine_publisher r)"

fun routine_set :: "int32 \<Rightarrow> publisher_routine \<Rightarrow> publisher_routine" where
  "routine_set rate (Waiting p) = Waiting (SetRate rate p)"
| "routine_set rate (Looping l) = Looping (set_loop_rate rate l)"

lemma routine_publisher_set [simp]: "routine_publisher (routine_set rate r) = SetRate rate (routine_publisher r)"
  by (cases r) (simp_all add: set_loop_rate_def)

interpretation routines: rated_publisher routine_target routine_current routine_set
  by unfold_locales (simp_all add: routine_target_def routine_current_def publishers.set_current publishers.set_target)

text \<open>What the goroutine does next: enter the loop, or handle a tick.\<close>

fun routine_run ::
  "'w nats_env \<Rightarrow> (nat \<Rightarrow> Time) \<Rightarrow> nat \<Rightarrow> publisher_routine \<Rightarrow> Collector \<times> 'w
    \<Rightarrow> (publisher_failure, publisher_routine \<times> Collector \<times> 'w) outcome" where
  "routine_run env clock rnd (Waiting p) cw = obind (publisher_begin rnd p) (\<lambda>l. Return (Looping l, cw))"
| "routine_run env clock rnd (Looping l) cw =
     obind (publisher_tick env clock rnd (l, cw)) (\<lambda>(l', cw'). Return (Looping l', cw'))"

definition publisher_failure_text :: "publisher_failure \<Rightarrow> string" where
  "publisher_failure_text f =
     (case f of
        RateNotSet r \<Rightarrow> ''current rate is '' @ show_int (sint r) @ '', cannot calculate interval''
      | UnknownPublishPattern s \<Rightarrow> ''unknown publish pattern: '' @ s)"

definition Publisher_GetID :: "Publisher \<Rightarrow> string" where
  "Publisher_GetID p = pc_ID (pb_config p)"

text \<open>The error the goroutine of a publisher returns to the group.\<close>

definition publisher_group_error :: "publisher_routine \<Rightarrow> publisher_failure \<Rightarrow> string" where
  "publisher_group_error r f =
     ''publisher '' @ Publisher_GetID (routine_publisher r) @ '' failed: '' @ publisher_failure_text f"

section \<open>The group\<close>

record group =
  gr_publishers :: "publisher_routine list"
  gr_ramp :: "publisher_routine ramp option"

definition new_group :: "('w, 'st) Engine \<Rightarrow> group" where
  "new_group e = \<lparr>gr_publishers = map Waiting (eg_publishers e), gr_ramp = None\<rparr>"

text \<open>The ramp-up works on the publishers and the collector as they are now.\<close>

definition ramp_view :: "('w, 'st) Engine \<Rightarrow> group \<Rightarrow> publisher_routine ramp \<Rightarrow> publisher_routine ramp" where
  "ramp_view e g r = r\<lparr>ra_publishers := gr_publishers g, ra_collector := Some (eg_collector e)\<rparr>"

definition ramp_share ::
  "publisher_routine ramp \<Rightarrow> ('w, 'st) Engine \<times> group \<Rightarrow> ('w, 'st) Engine \<times> group" where
  "ramp_share r s =
     ((fst s)\<lparr>eg_collector := (case ra_collector r of Some c \<Rightarrow> c | None \<Rightarrow> eg_collector (fst s))\<rparr>,
      (snd s)\<lparr>gr_publishers := ra_publishers r, gr_ramp := Some r\<rparr>)"

text \<open>
  The steps.  The first goroutine that returns an error cancels the others and becomes the
  error of the group, so the group is then done: the last collection is made and the consumers
  are drained.
\<close>

inductive group_step ::
  "('w, 'st, 'e) engine_env \<Rightarrow> ('w, 'st) Engine \<times> group \<Rightarrow> ('w, 'st) Engine \<times> group \<Rightarrow> bool" for env where
  publisher_ran:
    "eg_errGroup e = GroupRunning \<Longrightarrow> i < length (gr_publishers g) \<Longrightarrow> rnd < 1000 \<Longrightarrow>
     routine_run (consumer_env env e) clock rnd (gr_publishers g ! i) (eg_collector e, eg_world e) = Return (p, c, w) \<Longrightarrow>
     group_step env (e, g) (e\<lparr>eg_collector := c, eg_world := w\<rparr>, g\<lparr>gr_publishers := (gr_publishers g)[i := p]\<rparr>)"
| publisher_failed:
    "eg_errGroup e = GroupRunning \<Longrightarrow> i < length (gr_publishers g) \<Longrightarrow> rnd < 1000 \<Longrightarrow>
     routine_run (consumer_env env e) clock rnd (gr_publishers g ! i) (eg_collector e, eg_world e) = Error f \<Longrightarrow>
     RecordError (plain_error (publisher_failure_text f)) (eg_collector e) = Return c \<Longrightarrow>
     wait_group env now (Some (publisher_group_error (gr_publishers g ! i) f)) (e\<lparr>eg_collector := c\<rparr>) = (err, e') \<Longrightarrow>
     group_step env (e, g) (e', g)"
| ramp_began:
    "eg_errGroup e = GroupRunning \<Longrightarrow> gr_ramp g = None \<Longrightarrow> eg_loadTestSpec e = Some lts \<Longrightarrow>
     r = ramp_begin routine_target routine_set now (gr_publishers g) (RampUpDuration lts) (Some (eg_collector e)) \<Longrightarrow>
     group_step env (e, g) (ramp_share r (e, g))"
| ramp_went:
    "eg_errGroup e = GroupRunning \<Longrightarrow> gr_ramp g = Some r \<Longrightarrow> ra_status r = RampRunning \<Longrightarrow> ev \<noteq> RampDone \<Longrightarrow>
     group_step env (e, g)
       (ramp_share (ramp_handle (ee_impl env) routine_target routine_set ev (ramp_view e g r)) (e, g))"
| collected:
    "eg_errGroup e = GroupRunning \<Longrightarrow>
     CollectStats (ee_writeStats env) (ee_impl env) now (eg_collector e) (eg_storage e) = (s, c, st) \<Longrightarrow>
     group_step env (e, g) (e\<lparr>eg_collector := c, eg_storage := st\<rparr>, g)"
| message_handled:
    "eg_errGroup e = GroupRunning \<Longrightarrow> k \<in> set (eg_consumers e) \<Longrightarrow> cn_subscription k \<noteq> None \<Longrightarrow>
     handleMessage (ee_error env) (cn_config k) now ack payload (eg_collector e) = Return c \<Longrightarrow>
     group_step env (e, g) (e\<lparr>eg_collector := c\<rparr>, g)"
| fetch_failed:
    "eg_errGroup e = GroupRunning \<Longrightarrow> k \<in> set (eg_consumers e) \<Longrightarrow> cn_subscription k \<noteq> None \<Longrightarrow>
     cc_Type (cn_config k) = ''pull'' \<Longrightarrow> err \<noteq> ErrTimeout \<Longrightarrow>
     pull_step (ee_error env) (cn_config k) (Some err) [] (eg_collector e) = Return c \<Longrightarrow>
     group_step env (e, g) (e\<lparr>eg_collector := c\<rparr>, g)"
| client_error:
    "eg_errGroup e = GroupRunning \<Longrightarrow> RecordError (ee_error env err) (eg_collector e) = Return c \<Longrightarrow>
     group_step env (e, g) (e\<lparr>eg_collector := c\<rparr>, g)"

inductive group_reaches ::
  "('w, 'st, 'e) engine_env \<Rightarrow> ('w, 'st) Engine \<times> group \<Rightarrow> ('w, 'st) Engine \<times> group \<Rightarrow> bool" for env where
  group_reaches_refl: "group_reaches env s s"
| group_reaches_step: "group_reaches env s s' \<Longrightarrow> group_step env s' s'' \<Longrightarrow> group_reaches env s s''"

section \<open>What the steps leave alone\<close>

lemma ramp_share_frame [simp]:
  "eg_loadTestSpec (fst (ramp_share r s)) = eg_loadTestSpec (fst s)"
  "eg_streamManager (fst (ramp_share r s)) = eg_streamManager (fst s)"
  "eg_errGroup (fst (ramp_share r s)) = eg_errGroup (fst s)"
  "eg_world (fst (ramp_share r s)) = eg_world (fst s)"
  "eg_consumers (fst (ramp_share r s)) = eg_consumers (fst s)"
  "gr_publishers (snd (ramp_share r s)) = ra_publishers r"
  "gr_ramp (snd (ramp_share r s)) = Some r"
  by (simp_all add: ramp_share_def)

lemma wait_group_frame:
  "wait_group env now err e = (r, e') \<Longrightarrow>
     eg_loadTestSpec e' = eg_loadTestSpec e \<and> eg_streamManager e' = eg_streamManager e"
  by (auto simp: wait_group_def split: group_state.splits prod.splits)

lemma group_step_frame:
  "group_step env s s' \<Longrightarrow> eg_loadTestSpec (fst s') = eg_loadTestSpec (fst s)
     \<and> eg_streamManager (fst s') = eg_streamManager (fst s)"
  by (induction rule: group_step.induct) (auto dest: wait_group_frame)

lemma group_reaches_frame:
  "group_reaches env s s' \<Longrightarrow> eg_loadTestSpec (fst s') = eg_loadTestSpec (fst s)
     \<and> eg_streamManager (fst s') = eg_streamManager (fst s)"
  by (induction rule: group_reaches.induct) (auto dest: group_step_frame)

section \<open>No goroutine fails\<close>

fun routine_ok :: "publisher_routine \<Rightarrow> bool" where
  "routine_ok (Waiting p) \<longleftrightarrow> tickable (pb_config p) (pb_targetRate p)"
| "routine_ok (Looping l) \<longleftrightarrow> loop_ok l"

text \<open>The rate of the spec leaves the ticker of its pattern a positive interval.\<close>

definition fitting_rate :: "LoadTestSpec \<Rightarrow> bool" where
  "fitting_rate lts \<longleftrightarrow> (let p = lts_Publishers lts in
     sint (ps_PublishRatePerSecond p) \<le> (if ps_PublishPattern p = PublishPatternRandom then 500000000 else 1000000000))"

definition group_inv :: "('w, 'st) Engine \<times> group \<Rightarrow> bool" where
  "group_inv s \<longleftrightarrow> eg_errGroup (fst s) = GroupRunning \<and> recording_ok (eg_collector (fst s))
     \<and> (\<forall>r \<in> set (gr_publishers (snd s)). routine_ok r)"

lemma routine_set_ok: "routine_ok r \<Longrightarrow> routine_ok (routine_set rate r)"
  by (cases r) (simp_all add: SetRate_def loop_ok_set_rate)

lemma routine_run_ok:
  assumes "routine_ok r" and "recording_ok (fst cw)" and "rnd < 1000"
  shows "\<exists>r' cw'. routine_run env clock rnd r cw = Return (r', cw') \<and> routine_ok r' \<and> recording_ok (fst cw')"
proof (cases r)
  case (Waiting p)
  with assms publisher_begin_ok [of p rnd] show ?thesis by (cases cw) auto
next
  case (Looping l)
  with assms publisher_tick_ok [of "(l, cw)" rnd env clock] show ?thesis by auto
qed

lemma recording_ok_updates [simp]:
  "recording_ok (SetRampUpStatus active progress remaining c) = recording_ok c"
  "recording_ok (RecordLatency d c) = recording_ok c" "recording_ok (RecordConsume c) = recording_ok c"
  by (simp_all add: recording_ok_def SetRampUpStatus_def RecordLatency_def RecordConsume_def)

lemma RecordConsumeError_recording:
  "recording_ok c \<Longrightarrow> \<exists>c'. RecordConsumeError e c = Return c' \<and> recording_ok c'"
  unfolding RecordConsumeError_def by (rule recordError_recording) (simp add: recording_ok_def)

lemma handleMessage_recording:
  assumes "recording_ok c"
  shows "\<exists>c'. handleMessage fail cfg now ack payload c = Return c' \<and> recording_ok c'"
  using assms RecordConsumeError_recording by (auto simp: handleMessage_def Let_def split: option.split)

lemma CollectStats_recording:
  "CollectStats wr im now c st = (s, c', st') \<Longrightarrow> recording_ok c' = recording_ok c"
  by (auto simp: CollectStats_def Let_def recording_ok_def)

text \<open>A step of the ramp-up only sets rates and reports.\<close>

lemma ramp_keeps:
  assumes "r' = ramp_begin routine_target routine_set now ps d (Some c)
      \<or> (\<exists>ev im r. ra_publishers r = ps \<and> ra_collector r = Some c
           \<and> r' = ramp_handle im routine_target routine_set ev r)"
  shows "\<exists>f. ra_publishers r' = map (\<lambda>p. routine_set (f p) p) ps \<or> ra_publishers r' = ps"
    and "\<exists>c'. ra_collector r' = Some c' \<and> recording_ok c' = recording_ok c \<and> co_loadTestSpec c' = co_loadTestSpec c"
proof -
  have h: "(\<exists>f. ra_publishers (ramp_handle im routine_target routine_set ev r) = map (\<lambda>p. routine_set (f p) p) (ra_publishers r)
        \<or> ra_publishers (ramp_handle im routine_target routine_set ev r) = ra_publishers r)
      \<and> (\<exists>c'. ra_collector (ramp_handle im routine_target routine_set ev r) = Some c' \<and> recording_ok c' = recording_ok c
           \<and> co_loadTestSpec c' = co_loadTestSpec c)"
    if "ra_collector r = Some c" for ev im and r :: "publisher_routine ramp"
    using that by (cases ev) (auto simp: report_def setAllPublishersToFullRate_def updatePublisherRates_def Let_def
        SetRampUpStatus_def recording_ok_def)
  have b: "(\<exists>f. ra_publishers (ramp_begin routine_target routine_set now ps d (Some c)) = map (\<lambda>p. routine_set (f p) p) ps
        \<or> ra_publishers (ramp_begin routine_target routine_set now ps d (Some c)) = ps)
      \<and> (\<exists>c'. ra_collector (ramp_begin routine_target routine_set now ps d (Some c)) = Some c'
           \<and> recording_ok c' = recording_ok c \<and> co_loadTestSpec c' = co_loadTestSpec c)"
    by (auto simp: ramp_begin_def report_def setAllPublishersToFullRate_def Let_def SetRampUpStatus_def recording_ok_def)
  show "\<exists>f. ra_publishers r' = map (\<lambda>p. routine_set (f p) p) ps \<or> ra_publishers r' = ps"
    using assms b h by metis
  show "\<exists>c'. ra_collector r' = Some c' \<and> recording_ok c' = recording_ok c \<and> co_loadTestSpec c' = co_loadTestSpec c"
    using assms b h by metis
qed

lemma ramp_share_inv:
  assumes "group_inv (e, g)"
    and "r' = ramp_begin routine_target routine_set now (gr_publishers g) d (Some (eg_collector e))
      \<or> (\<exists>ev im r. ra_publishers r = gr_publishers g \<and> ra_collector r = Some (eg_collector e)
           \<and> r' = ramp_handle im routine_target routine_set ev r)"
  shows "group_inv (ramp_share r' (e, g))"
proof -
  obtain c' where c: "ra_collector r' = Some c'" "recording_ok c' = recording_ok (eg_collector e)"
    using ramp_keeps(2) [OF assms(2)] by blast
  have "\<forall>p \<in> set (ra_publishers r'). routine_ok p"
    using ramp_keeps(1) [OF assms(2)] assms(1) by (auto simp: group_inv_def routine_set_ok)
  with c assms(1) show ?thesis by (simp add: group_inv_def) (simp add: ramp_share_def)
qed

lemma group_step_inv:
  assumes "group_step env s s'" and inv: "group_inv s" shows "group_inv s'"
  using assms(1)
proof cases
  case (publisher_ran e i g rnd clock p c w)
  then have "routine_ok (gr_publishers g ! i)" "recording_ok (eg_collector e)"
    using inv by (simp_all add: group_inv_def)
  with publisher_ran routine_run_ok [of "gr_publishers g ! i" "(eg_collector e, eg_world e)" rnd "consumer_env env e" clock]
  have "routine_ok p" "recording_ok c" by auto
  with inv publisher_ran(1,2) show ?thesis by (auto simp: group_inv_def dest!: set_update_subset_insert [THEN subsetD])
next
  case (publisher_failed e i g rnd clock f c now err e')
  then have "routine_ok (gr_publishers g ! i)" "recording_ok (eg_collector e)"
    using inv by (simp_all add: group_inv_def)
  with publisher_failed routine_run_ok [of "gr_publishers g ! i" "(eg_collector e, eg_world e)" rnd "consumer_env env e" clock]
  show ?thesis by auto
next
  case (ramp_began e g lts r now)
  then show ?thesis using ramp_share_inv inv by metis
next
  case (ramp_went e g r ev)
  have "ra_publishers (ramp_view e g r) = gr_publishers g" "ra_collector (ramp_view e g r) = Some (eg_collector e)"
    by (simp_all add: ramp_view_def)
  then show ?thesis unfolding ramp_went(2) using ramp_share_inv [of e g] inv ramp_went(1) by blast
next
  case (collected e now s1 c st g)
  then show ?thesis using inv CollectStats_recording [OF collected(4)] by (auto simp: group_inv_def)
next
  case (message_handled e k now ack payload c g)
  then show ?thesis
    using inv handleMessage_recording [of "eg_collector e" "ee_error env" "cn_config k" now ack payload]
    by (auto simp: group_inv_def)
next
  case (fetch_failed e k err c g)
  then show ?thesis
    using inv RecordConsumeError_recording [of "eg_collector e" "ee_error env err"]
    by (auto simp: group_inv_def pull_step_def)
next
  case (client_error e err c g)
  then show ?thesis
    using inv recordError_recording [of "eg_collector e" "ee_error env err"] by (auto simp: group_inv_def RecordError_def)
qed

lemma group_reaches_inv: "group_reaches env s s' \<Longrightarrow> group_inv s \<Longrightarrow> group_inv s'"
  by (induction rule: group_reaches.induct) (auto intro: group_step_inv)

section \<open>From the start\<close>

lemma start_consumers_recording:
  "start_consumers im bo ne ks (c, w) = Return (r, ks', c', w') \<Longrightarrow> recording_ok c \<Longrightarrow> recording_ok c'"
proof (induction ks arbitrary: c w r ks' c' w')
  case (Cons k ks)
  obtain r1 k1 w1 where k: "start_consumer im bo ne k w = (r1, k1, w1)" by (metis prod_cases3)
  let ?err = "\<lambda>e. plain_error (backoff_error_text (consumer_error_text (\<lambda>n. err_text (ne_error ne n))) e)"
  obtain c1 where c1: "(case r1 of None \<Rightarrow> Return c | Some e \<Rightarrow> RecordError (?err e) c) = Return c1" "recording_ok c1"
  proof (cases r1)
    case (Some e)
    with recordError_recording [OF Cons.prems(2), of "?err e"] that show ?thesis by (auto simp: RecordError_def)
  qed (use Cons.prems(2) that in simp)
  obtain x where x: "start_consumers im bo ne ks (c1, w1) = Return x"
    using Cons.prems(1) k c1(1) by (auto simp: obind_eq_Return)
  obtain r2 ks2 c2 w2 where "x = (r2, ks2, c2, w2)" by (metis prod_cases4)
  with Cons.IH [of c1 w1 r2 ks2 c2 w2] c1 x Cons.prems(1) k show ?case by auto
qed simp

lemma Engine_Start_running:
  assumes "startable lts" and "Engine_Start env now lts statsInterval e = Return (None, e')"
  shows "eg_errGroup e' = GroupRunning" and "recording_ok (eg_collector e')" and "eg_loadTestSpec e' = Some lts"
    and "eg_publishers e' = (if eg_enablePublishers e
           then map (\<lambda>t. made_publisher (ee_rnd env) (publisher_config lts t)) (publisher_targets (ee_other env) lts)
           else eg_publishers e)"
proof -
  obtain e1 w where c: "engine_connect env lts e = (None, e1)"
    and k: "create_consumers_of env lts
        (if eg_enablePublishers e
         then (configure env now lts e1)\<lparr>eg_world := w,
                eg_publishers := map (\<lambda>t. made_publisher (ee_rnd env) (publisher_config lts t))
                  (publisher_targets (ee_other env) lts)\<rparr>
         else (configure env now lts e1)\<lparr>eg_world := w\<rparr>) = Return (None, e')" (is "create_consumers_of _ _ ?x = _")
    using Engine_Start_NoneD [OF assms] by (elim exE conjE) (rule that)
  have x: "eg_errGroup ?x = GroupRunning" "recording_ok (eg_collector ?x)" "eg_loadTestSpec ?x = Some lts"
    using assms(1) by (simp_all add: startable_def SetConfig_recording) (simp_all add: configure_def)
  have "eg_errGroup e' = eg_errGroup ?x"
    using k by (auto simp: create_consumers_of_def split: if_splits)
  with x(1) show "eg_errGroup e' = GroupRunning" by simp
  show "recording_ok (eg_collector e')"
    using k x(2) start_consumers_recording
    by (fastforce simp: create_consumers_of_def CreateConsumers_def obind_eq_Return split: if_splits)
  show "eg_loadTestSpec e' = Some lts" using create_consumers_of_frame [OF k] x(3) by simp
  show "eg_publishers e' = (if eg_enablePublishers e
           then map (\<lambda>t. made_publisher (ee_rnd env) (publisher_config lts t)) (publisher_targets (ee_other env) lts)
           else eg_publishers e)"
    using create_consumers_of_frame [OF k] engine_connect_frame [OF c] by auto
qed

lemma started_group_inv:
  assumes "startable lts" and "fitting_rate lts" and "eg_enablePublishers e \<or> eg_publishers e = []"
    and "Engine_Start env now lts statsInterval e = Return (None, e')"
  shows "group_inv (e', new_group e')"
proof -
  note s = Engine_Start_running [OF assms(1,4)]
  have "publisher_ok (lts_Publishers lts)" using assms(1) by (simp add: startable_def spec_wf_def spec_ok_def)
  then have "routine_ok (Waiting (made_publisher (ee_rnd env) (publisher_config lts t)))" for t
    using assms(2) by (auto simp: publisher_ok_def fitting_rate_def made_publisher_def publisher_config_def
        tickable_def config_constants Let_def split: if_splits)
  then show ?thesis using s assms(3) by (auto simp: group_inv_def new_group_def)
qed

section \<open>Streams\<close>

lemma publish_one_streams:
  assumes laws: "client_laws env streams" and "publish_one (consumer_env env e) now p cw = Return cw'"
  shows "streams (snd cw') = streams (snd cw)"
proof -
  obtain err c w where m: "publishMessage (consumer_env env e) now p cw = (err, c, w)" by (metis prod_cases3)
  have "streams w = streams (snd cw)"
    using m by (auto simp: publishMessage_def consumer_env_def Let_def split: if_splits prod.splits option.splits
        dest: client_lawsD(13) [OF laws] client_lawsD(14) [OF laws])
  moreover have "snd cw' = w"
    using assms(2) m by (auto simp: publish_one_def obind_eq_Return split: option.splits if_splits)
  ultimately show ?thesis by simp
qed

lemma publish_burst_streams:
  assumes "client_laws env streams"
  shows "publish_burst (consumer_env env e) clock p n cw = Return cw' \<Longrightarrow> streams (snd cw') = streams (snd cw)"
  by (induction n arbitrary: cw) (auto simp: obind_eq_Return dest: publish_one_streams [OF assms])

lemma publisher_tick_streams:
  assumes "client_laws env streams" and "publisher_tick (consumer_env env e) clock rnd s = Return s'"
  shows "streams (snd (snd s')) = streams (snd (snd s))"
  using assms(2) publish_burst_streams [OF assms(1)]
  by (fastforce simp: publisher_tick_def Let_def split: outcome.splits if_splits)

lemma routine_run_streams:
  assumes "client_laws env streams" and "routine_run (consumer_env env e) clock rnd r cw = Return (r', cw')"
  shows "streams (snd cw') = streams (snd cw)"
  using assms(2) publisher_tick_streams [OF assms(1)]
  by (cases r) (fastforce simp: obind_eq_Return)+

lemma group_step_streams:
  assumes laws: "client_laws env streams" and "group_step env s s'"
  shows "streams (eg_world (fst s')) = streams (eg_world (fst s))"
  using assms(2)
proof cases
  case (publisher_ran e i g rnd clock p c w)
  with routine_run_streams [OF laws publisher_ran(6)] show ?thesis by simp
next
  case (publisher_failed e i g rnd clock f c now err e')
  with wait_group_streams [OF laws publisher_failed(8)] show ?thesis by simp
qed simp_all

lemma group_reaches_streams:
  assumes "client_laws env streams"
  shows "group_reaches env s s' \<Longrightarrow> streams (eg_world (fst s')) = streams (eg_world (fst s))"
  by (induction rule: group_reaches.induct) (auto dest: group_step_streams [OF assms])

section \<open>A publisher that begins after the ramp-up\<close>

text \<open>
  The goroutine of a publisher sets its rate to one when it begins.  When the ramp-up is over by
  then, nobody raises the rate again.
\<close>

definition left_at_one :: "nat \<Rightarrow> ('w, 'st) Engine \<times> group \<Rightarrow> bool" where
  "left_at_one i s \<longleftrightarrow> (\<exists>r. gr_ramp (snd s) = Some r \<and> ra_status r \<noteq> RampRunning)
     \<and> (\<exists>l. i < length (gr_publishers (snd s)) \<and> gr_publishers (snd s) ! i = Looping l \<and> pb_currentRate (pl_publisher l) = 1)"

lemma publisher_tick_publisher:
  "publisher_tick env clock rnd s = Return s' \<Longrightarrow> pl_publisher (fst s') = pl_publisher (fst s)"
  by (auto simp: publisher_tick_def updateTicker_def Let_def split: outcome.splits if_splits sum.splits)

lemma left_at_one_step:
  assumes "group_step env s s'" and "left_at_one i s" shows "left_at_one i s'"
  using assms(1)
proof cases
  case (publisher_ran e j g rnd clock p c w)
  obtain r l where l: "gr_ramp g = Some r" "ra_status r \<noteq> RampRunning" "i < length (gr_publishers g)"
    "gr_publishers g ! i = Looping l" "pb_currentRate (pl_publisher l) = 1"
    using assms(2) publisher_ran(1) by (auto simp: left_at_one_def)
  have "\<exists>l'. (gr_publishers g)[j := p] ! i = Looping l' \<and> pb_currentRate (pl_publisher l') = 1"
  proof (cases "j = i")
    case True
    with publisher_ran(6) l obtain l' where "p = Looping l'" "publisher_tick (consumer_env env e) clock rnd (l, eg_collector e, eg_world e)
        = Return (l', c, w)" by (auto simp: obind_eq_Return)
    with publisher_tick_publisher [OF this(2)] l True show ?thesis by simp
  qed (use l in simp)
  with l publisher_ran(2) show ?thesis by (simp add: left_at_one_def)
qed (use assms(2) in \<open>auto simp: left_at_one_def\<close>)

lemma left_at_one_reaches: "group_reaches env s s' \<Longrightarrow> left_at_one i s \<Longrightarrow> left_at_one i s'"
  by (induction rule: group_reaches.induct) (auto intro: left_at_one_step)

lemma ramp_first:
  assumes "group_inv (e, new_group e)" and "eg_loadTestSpec e = Some lts" and "RampUpDuration lts = 0"
    and i: "i < length (eg_publishers e)"
  shows "\<exists>s. group_reaches env (e, new_group e) s \<and> left_at_one i s"
proof -
  let ?g = "new_group e"
  let ?r = "ramp_begin routine_target routine_set 0 (gr_publishers ?g) (RampUpDuration lts) (Some (eg_collector e))"
  have running: "eg_errGroup e = GroupRunning" using assms(1) by (simp add: group_inv_def)
  have s1: "group_step env (e, ?g) (ramp_share ?r (e, ?g))"
    by (rule ramp_began [OF running _ assms(2) refl]) (simp add: new_group_def)
  obtain e1 g1 where eg: "ramp_share ?r (e, ?g) = (e1, g1)" by fastforce
  have inv: "group_inv (e1, g1)" using group_step_inv [OF s1 assms(1)] eg by simp
  have g1: "gr_publishers g1 = ra_publishers ?r" "gr_ramp g1 = Some ?r" using eg by (auto simp: ramp_share_def)
  have r: "ra_status ?r = RampFinished" "length (ra_publishers ?r) = length (eg_publishers e)"
    "\<exists>p. ra_publishers ?r ! i = Waiting p"
    using i by (simp_all add: assms(3) ramp_begin_def report_def setAllPublishersToFullRate_def new_group_def)
  then obtain p where p: "gr_publishers g1 ! i = Waiting p" using g1 by auto
  have i1: "i < length (gr_publishers g1)" using i r g1 by simp
  with inv have "routine_ok (gr_publishers g1 ! i)" by (simp add: group_inv_def)
  with p have "tickable (pb_config p) (pb_targetRate p)" by simp
  then obtain l where l: "publisher_begin 0 p = Return l" using publisher_begin_ok [of p 0] by auto
  have run: "routine_run (consumer_env env e1) (\<lambda>k. 0) 0 (gr_publishers g1 ! i) (eg_collector e1, eg_world e1)
      = Return (Looping l, eg_collector e1, eg_world e1)" by (simp add: p l)
  have s2: "group_step env (e1, g1) (e1, g1\<lparr>gr_publishers := (gr_publishers g1)[i := Looping l]\<rparr>)"
    using publisher_ran [OF _ i1 _ run] inv by (simp add: group_inv_def)
  have "pb_currentRate (pl_publisher l) = 1"
    using l by (auto simp: publisher_begin_def Let_def split: sum.splits if_splits)
  then have "left_at_one i (e1, g1\<lparr>gr_publishers := (gr_publishers g1)[i := Looping l]\<rparr>)"
    using g1 r i1 by (simp add: left_at_one_def)
  moreover have "group_reaches env (e, ?g) (e1, g1\<lparr>gr_publishers := (gr_publishers g1)[i := Looping l]\<rparr>)"
    by (rule group_reaches_step [OF group_reaches_step [OF group_reaches_refl s1 [unfolded eg]] s2])
  ultimately show ?thesis by blast
qed

end
