(* ===== verification/Worker.thy ===== *)
theory Worker
  imports Running
begin

text \<open>
  The processing of one configuration (\<open>processConfig\<close> of \<open>internal/loadtest/manager.go\<close>) as a
  step relation: the specs run one after the other, then the last one again and again, each
  time scaled by the repeat policy.  A spec that cannot be started is skipped; while one runs
  the goroutines of the engine take their steps, until its duration has passed or the context
  is cancelled.
\<close>

section \<open>State\<close>

text \<open>\<open>Cleared\<close> is reached after \<open>processConfig\<close> has returned, see the manager.\<close>

datatype worker_phase = AtSpec nat | RunningSpec nat | AtRepeat | RunningRepeat | Finished | Cleared

record ('w, 'st) Worker =
  wk_id :: nat
  wk_config :: Config
  wk_engine :: "('w, 'st) Engine"
  wk_cancelled :: bool
  wk_phase :: worker_phase
  wk_repeatCount :: nat
  wk_started :: "LoadTestSpec list"
  wk_aliased :: bool
  wk_group :: group

text \<open>
  \<open>wk_started\<close> lists the specs handed to the engine, in order.  \<open>wk_aliased\<close> says that the spec
  pointer of the collector is the last spec of the configuration, which it is from the first
  time that spec was started on an open connection; the multipliers then change both.
\<close>

definition new_worker :: "nat \<Rightarrow> Config \<Rightarrow> ('w, 'st) Engine \<Rightarrow> ('w, 'st) Worker" where
  "new_worker i cfg e =
     \<lparr>wk_id = i, wk_config = cfg, wk_engine = e, wk_cancelled = False, wk_phase = AtSpec 0,
      wk_repeatCount = 0, wk_started = [], wk_aliased = False,
      wk_group = \<lparr>gr_publishers = [], gr_ramp = None\<rparr>\<rparr>"

text \<open>The last spec of the configuration is scaled in place.\<close>

definition scale_last :: "impl \<Rightarrow> LoadTestSpec \<Rightarrow> Config \<Rightarrow> Config" where
  "scale_last im lts c =
     c\<lparr>cfg_LoadTestSpecs := butlast (cfg_LoadTestSpecs c) @ [Some (ApplyMultipliers im (cfg_RepeatPolicy c) lts)]\<rparr>"

definition repeats :: "Config \<Rightarrow> bool" where
  "repeats c \<longleftrightarrow> rp_Enabled (cfg_RepeatPolicy c) \<and> cfg_LoadTestSpecs c \<noteq> []"

section \<open>Steps\<close>

definition start_spec ::
  "('w, 'st, 'e) engine_env \<Rightarrow> Time \<Rightarrow> LoadTestSpec \<Rightarrow> ('w, 'st) Worker
    \<Rightarrow> (unit, engine_error option \<times> ('w, 'st) Engine) outcome" where
  "start_spec env now lts k = Engine_Start env now lts (StatsInterval (wk_config k)) (wk_engine k)"

definition started ::
  "LoadTestSpec \<Rightarrow> bool \<Rightarrow> ('w, 'st) Engine \<Rightarrow> worker_phase \<Rightarrow> ('w, 'st) Worker \<Rightarrow> ('w, 'st) Worker" where
  "started lts aliased e phase k =
     k\<lparr>wk_engine := e, wk_phase := phase, wk_started := wk_started k @ [lts], wk_aliased := aliased,
       wk_group := new_group e\<rparr>"

text \<open>A start that fails later than the connection has set the spec of the collector.\<close>

definition connected :: "engine_error \<Rightarrow> bool" where
  "connected err = (case err of ConnectFailed _ \<Rightarrow> False | _ \<Rightarrow> True)"

definition scale_alias :: "LoadTestSpec \<Rightarrow> ('w, 'st) Worker \<Rightarrow> ('w, 'st) Worker" where
  "scale_alias lts k =
     (if wk_aliased k
      then k\<lparr>wk_engine := (wk_engine k)\<lparr>eg_collector := (eg_collector (wk_engine k))\<lparr>co_loadTestSpec := Some lts\<rparr>\<rparr>\<rparr>
      else k)"

lemma scale_alias_frame [simp]:
  "wk_config (scale_alias lts k) = wk_config k"
  "eg_loadTestSpec (wk_engine (scale_alias lts k)) = eg_loadTestSpec (wk_engine k)"
  by (simp_all add: scale_alias_def)

text \<open>
  A start that fails behind the connection leaves the collector's goroutine cancelled but not
  waited for: it makes its last collection at any later time, unless the next start comes first
  (then that collection is one of the steps of the new group).
\<close>

text \<open>The spec whose start is under way or comes next.\<close>

definition next_spec :: "impl \<Rightarrow> ('w, 'st) Worker \<Rightarrow> LoadTestSpec option" where
  "next_spec im k =
     (let specs = cfg_LoadTestSpecs (wk_config k)
      in case wk_phase k of
           AtSpec i \<Rightarrow> (if i < length specs then specs ! i else None)
         | AtRepeat \<Rightarrow> map_option (ApplyMultipliers im (cfg_RepeatPolicy (wk_config k))) (last specs)
         | _ \<Rightarrow> None)"

text \<open>
  The start of a spec is one step.  What the client reports between its connection and the
  configuration of the collector is recorded under the old configuration, as if it came before
  the start (\<open>error_before_config\<close>); without one the recording panics.
\<close>

inductive worker_step :: "('w, 'st, 'e) engine_env \<Rightarrow> ('w, 'st) Worker \<Rightarrow> ('w, 'st) Worker \<Rightarrow> bool"
  for env where
  spec_started:
    "wk_phase k = AtSpec i \<Longrightarrow> i < length (cfg_LoadTestSpecs (wk_config k)) \<Longrightarrow>
     cfg_LoadTestSpecs (wk_config k) ! i = Some lts \<Longrightarrow> start_spec env now lts k = Return (None, e) \<Longrightarrow>
     al = (Suc i = length (cfg_LoadTestSpecs (wk_config k))) \<Longrightarrow>
     worker_step env k (started lts al e (RunningSpec i) k)"
| spec_not_started:
    "wk_phase k = AtSpec i \<Longrightarrow> i < length (cfg_LoadTestSpecs (wk_config k)) \<Longrightarrow>
     cfg_LoadTestSpecs (wk_config k) ! i = Some lts \<Longrightarrow> start_spec env now lts k = Return (Some err, e) \<Longrightarrow>
     al = (Suc i = length (cfg_LoadTestSpecs (wk_config k)) \<and> connected err) \<Longrightarrow>
     worker_step env k (started lts al e (AtSpec (Suc i)) k)"
| goroutine_ran:
    "(\<exists>i. wk_phase k = RunningSpec i) \<or> wk_phase k = RunningRepeat \<Longrightarrow>
     group_step env (wk_engine k, wk_group k) (e, g) \<Longrightarrow>
     worker_step env k (k\<lparr>wk_engine := e, wk_group := g\<rparr>)"
| failed_start_collected:
    "(\<exists>i. wk_phase k = AtSpec i) \<or> wk_phase k = AtRepeat \<Longrightarrow> eg_errGroup (wk_engine k) = GroupRunning \<Longrightarrow>
     CollectStats (ee_writeStats env) (ee_impl env) now (eg_collector (wk_engine k)) (eg_storage (wk_engine k)) = (s, c, st) \<Longrightarrow>
     worker_step env k
       (k\<lparr>wk_engine := (wk_engine k)\<lparr>eg_collector := c, eg_storage := st, eg_errGroup := GroupDone None\<rparr>\<rparr>)"
| error_before_config:
    "next_spec (ee_impl env) k = Some lts \<Longrightarrow> early_error env lts err (wk_engine k) \<Longrightarrow>
     RecordError (ee_error env err) (eg_collector (wk_engine k)) = Return c \<Longrightarrow>
     worker_step env k (k\<lparr>wk_engine := (wk_engine k)\<lparr>eg_collector := c\<rparr>\<rparr>)"
| spec_completed:
    "wk_phase k = RunningSpec i \<Longrightarrow> Engine_Stop env now g (wk_engine k) = Return (r, e) \<Longrightarrow>
     worker_step env k (k\<lparr>wk_engine := e, wk_phase := AtSpec (Suc i)\<rparr>)"
| spec_cancelled:
    "wk_phase k = RunningSpec i \<Longrightarrow> wk_cancelled k \<Longrightarrow> worker_step env k (k\<lparr>wk_phase := Finished\<rparr>)"
| specs_over:
    "wk_phase k = AtSpec (length (cfg_LoadTestSpecs (wk_config k))) \<Longrightarrow>
     worker_step env k (k\<lparr>wk_phase := (if repeats (wk_config k) then AtRepeat else Finished)\<rparr>)"
| repeat_started:
    "wk_phase k = AtRepeat \<Longrightarrow> last (cfg_LoadTestSpecs (wk_config k)) = Some lts \<Longrightarrow>
     cfg = scale_last (ee_impl env) lts (wk_config k) \<Longrightarrow>
     lts' = ApplyMultipliers (ee_impl env) (cfg_RepeatPolicy (wk_config k)) lts \<Longrightarrow>
     start_spec env now lts' (scale_alias lts' k) = Return (None, e) \<Longrightarrow>
     worker_step env k ((started lts' True e RunningRepeat k)\<lparr>wk_config := cfg, wk_repeatCount := Suc (wk_repeatCount k)\<rparr>)"
| repeat_not_started:
    "wk_phase k = AtRepeat \<Longrightarrow> last (cfg_LoadTestSpecs (wk_config k)) = Some lts \<Longrightarrow>
     cfg = scale_last (ee_impl env) lts (wk_config k) \<Longrightarrow>
     lts' = ApplyMultipliers (ee_impl env) (cfg_RepeatPolicy (wk_config k)) lts \<Longrightarrow>
     start_spec env now lts' (scale_alias lts' k) = Return (Some err, e) \<Longrightarrow>
     worker_step env k ((started lts' (wk_aliased k \<or> connected err) e AtRepeat k)\<lparr>wk_config := cfg, wk_repeatCount := Suc (wk_repeatCount k)\<rparr>)"
| repeat_completed:
    "wk_phase k = RunningRepeat \<Longrightarrow> Engine_Stop env now g (wk_engine k) = Return (r, e) \<Longrightarrow>
     worker_step env k (k\<lparr>wk_engine := e, wk_phase := AtRepeat\<rparr>)"
| repeat_cancelled:
    "wk_phase k = RunningRepeat \<Longrightarrow> wk_cancelled k \<Longrightarrow> worker_step env k (k\<lparr>wk_phase := Finished\<rparr>)"

inductive_cases worker_stepE: "worker_step env k k'"

inductive worker_reaches :: "('w, 'st, 'e) engine_env \<Rightarrow> ('w, 'st) Worker \<Rightarrow> ('w, 'st) Worker \<Rightarrow> bool"
  for env k0 where
  worker_reaches_refl: "worker_reaches env k0 k0"
| worker_reaches_step: "worker_reaches env k0 k \<Longrightarrow> worker_step env k k' \<Longrightarrow> worker_reaches env k0 k'"
| worker_reaches_cancel: "worker_reaches env k0 k \<Longrightarrow> worker_reaches env k0 (k\<lparr>wk_cancelled := True\<rparr>)"

section \<open>Which specs are started\<close>

text \<open>The last spec after \<open>n\<close> repetitions.\<close>

definition scaled :: "impl \<Rightarrow> RepeatPolicy \<Rightarrow> LoadTestSpec \<Rightarrow> nat \<Rightarrow> LoadTestSpec" where
  "scaled im rp lts n = (ApplyMultipliers im rp ^^ n) lts"

text \<open>The specs a worker has started when it is in a phase and has repeated the last one \<open>n\<close> times.\<close>

fun specs_done :: "LoadTestSpec list \<Rightarrow> worker_phase \<Rightarrow> nat" where
  "specs_done ls (AtSpec i) = i"
| "specs_done ls (RunningSpec i) = Suc i"
| "specs_done ls _ = length ls"

definition plan :: "impl \<Rightarrow> RepeatPolicy \<Rightarrow> LoadTestSpec list \<Rightarrow> nat \<Rightarrow> nat \<Rightarrow> LoadTestSpec list" where
  "plan im rp ls i n = take i ls @ map (\<lambda>j. scaled im rp (last ls) (Suc j)) [0..<n]"

lemma plan_0 [simp]: "plan im rp ls i 0 = take i ls"
  by (simp add: plan_def)

lemma plan_Suc_spec: "i < length ls \<Longrightarrow> plan im rp ls (Suc i) 0 = plan im rp ls i 0 @ [ls ! i]"
  by (simp add: take_Suc_conv_app_nth)

lemma plan_Suc_repeat:
  "plan im rp ls i (Suc n) = plan im rp ls i n @ [ApplyMultipliers im rp (scaled im rp (last ls) n)]"
  by (simp add: plan_def scaled_def)

definition worker_inv :: "impl \<Rightarrow> Config \<Rightarrow> LoadTestSpec list \<Rightarrow> ('w, 'st) Worker \<Rightarrow> bool" where
  "worker_inv im c ls k \<longleftrightarrow>
     cfg_RepeatPolicy (wk_config k) = cfg_RepeatPolicy c
   \<and> cfg_LoadTestSpecs (wk_config k) =
       (if wk_repeatCount k = 0 then map Some ls
        else map Some (butlast ls) @ [Some (scaled im (cfg_RepeatPolicy c) (last ls) (wk_repeatCount k))])
   \<and> (wk_repeatCount k = 0 \<or> wk_phase k \<in> {AtRepeat, RunningRepeat, Finished, Cleared})
   \<and> (wk_phase k \<in> {AtRepeat, RunningRepeat} \<longrightarrow> repeats c)
   \<and> (case wk_phase k of AtSpec i \<Rightarrow> i \<le> length ls | RunningSpec i \<Rightarrow> i < length ls | _ \<Rightarrow> True)
   \<and> (\<exists>i \<le> length ls. wk_started k = plan im (cfg_RepeatPolicy c) ls i (wk_repeatCount k)
        \<and> (i < length ls \<longrightarrow> wk_repeatCount k = 0)
        \<and> (wk_phase k \<notin> {Finished, Cleared} \<longrightarrow> i = specs_done ls (wk_phase k)))"

lemma worker_inv_new:
  assumes "cfg_LoadTestSpecs c = map Some ls"
  shows "worker_inv im c ls (new_worker i c e)"
  using assms by (auto simp: worker_inv_def new_worker_def)

lemma worker_inv_started:
  "worker_inv im c ls k \<Longrightarrow> \<exists>i \<le> length ls. wk_started k = plan im (cfg_RepeatPolicy c) ls i (wk_repeatCount k)
     \<and> (i < length ls \<longrightarrow> wk_repeatCount k = 0)
     \<and> (wk_phase k \<notin> {Finished, Cleared} \<longrightarrow> i = specs_done ls (wk_phase k))"
  unfolding worker_inv_def by (elim conjE)

lemma worker_inv_repeats:
  "worker_inv im c ls k \<Longrightarrow> wk_phase k \<notin> {Finished, Cleared} \<Longrightarrow> wk_repeatCount k = 0 \<or> repeats c"
  by (simp add: worker_inv_def) metis

lemma scaled_Suc: "ApplyMultipliers im rp (scaled im rp l n) = scaled im rp l (Suc n)"
  by (simp add: scaled_def)

lemma scaled_0 [simp]: "scaled im rp l 0 = l"
  by (simp add: scaled_def)

text \<open>The last spec of the configuration of a worker that repeats.\<close>

lemma worker_inv_last:
  assumes inv: "worker_inv im c ls k" and ls: "cfg_LoadTestSpecs c = map Some ls"
    and "wk_phase k \<in> {AtRepeat, RunningRepeat}"
  shows "ls \<noteq> []"
    and "last (cfg_LoadTestSpecs (wk_config k)) =
      Some (scaled im (cfg_RepeatPolicy c) (last ls) (wk_repeatCount k))"
    and "butlast (cfg_LoadTestSpecs (wk_config k)) = map Some (butlast ls)"
  using assms by (auto simp: worker_inv_def repeats_def last_map map_butlast)

lemma worker_inv_repeat:
  assumes inv: "worker_inv im c ls k" and ls: "cfg_LoadTestSpecs c = map Some ls"
    and phase: "wk_phase k = AtRepeat" and last': "last (cfg_LoadTestSpecs (wk_config k)) = Some lts"
    and new: "p = RunningRepeat \<or> p = AtRepeat"
  shows "worker_inv im c ls ((started (ApplyMultipliers im (cfg_RepeatPolicy (wk_config k)) lts) al e p k)
    \<lparr>wk_config := scale_last im lts (wk_config k), wk_repeatCount := Suc (wk_repeatCount k)\<rparr>)"
proof -
  let ?rp = "cfg_RepeatPolicy c" and ?n = "wk_repeatCount k"
  note l = worker_inv_last [OF inv ls]
  have ne: "ls \<noteq> []" and lts: "lts = scaled im ?rp (last ls) ?n"
    and but: "butlast (cfg_LoadTestSpecs (wk_config k)) = map Some (butlast ls)"
    using l phase last' by simp_all
  have rp: "cfg_RepeatPolicy (wk_config k) = ?rp" and rep: "repeats c"
    using inv phase by (simp_all add: worker_inv_def)
  obtain i where "i \<le> length ls" "i < length ls \<longrightarrow> ?n = 0" "wk_started k = plan im ?rp ls i ?n" "i = length ls"
    using inv phase by (auto simp: worker_inv_def)
  then have "wk_started k @ [scaled im ?rp (last ls) (Suc ?n)] = plan im ?rp ls (length ls) (Suc ?n)"
    by (simp add: plan_Suc_repeat scaled_Suc)
  then show ?thesis
    using new rep by (auto simp: worker_inv_def scale_last_def started_def rp but lts scaled_Suc)
qed

lemma worker_step_inv:
  assumes "worker_step env k k'" and inv: "worker_inv (ee_impl env) c ls k"
    and ls: "cfg_LoadTestSpecs c = map Some ls"
  shows "worker_inv (ee_impl env) c ls k'"
  using assms(1)
proof cases
  case (spec_started i lts now e al)
  then have "i < length ls" "lts = ls ! i" "wk_repeatCount k = 0"
    using inv by (auto simp: worker_inv_def split: if_splits)
  with inv spec_started(1,2) show ?thesis
    by (auto simp: worker_inv_def started_def plan_Suc_spec take_Suc_conv_app_nth)
next
  case (spec_not_started i lts now err e al)
  then have "i < length ls" "lts = ls ! i" "wk_repeatCount k = 0"
    using inv by (auto simp: worker_inv_def split: if_splits)
  with inv spec_not_started(1,2) show ?thesis
    by (auto simp: worker_inv_def started_def plan_Suc_spec take_Suc_conv_app_nth)
next
  case (specs_over)
  have "repeats (wk_config k) \<longleftrightarrow> repeats c"
    using inv ls specs_over by (auto simp: worker_inv_def repeats_def)
  with inv specs_over show ?thesis by (auto simp: worker_inv_def)
next
  case (repeat_started lts cfg lts' now e)
  with worker_inv_repeat [OF inv ls] show ?thesis by simp
next
  case (repeat_not_started lts cfg lts' now err e)
  with worker_inv_repeat [OF inv ls] show ?thesis by simp
qed (use inv in \<open>auto simp: worker_inv_def\<close>)

lemma worker_reaches_inv:
  assumes "worker_reaches env (new_worker i c e) k" and ls: "cfg_LoadTestSpecs c = map Some ls"
  shows "worker_inv (ee_impl env) c ls k"
  using assms(1)
proof induction
  case worker_reaches_refl
  show ?case by (rule worker_inv_new [OF ls])
next
  case (worker_reaches_step k k')
  then show ?case using worker_step_inv ls by blast
next
  case (worker_reaches_cancel k)
  then show ?case by (simp add: worker_inv_def)
qed

section \<open>A worker is never stuck\<close>

lemma Engine_Stop_returns:
  assumes "\<forall>lts. eg_loadTestSpec e = Some lts \<longrightarrow> (\<forall>s \<in> set (lts_Streams lts). stream_ok s)"
  shows "\<exists>r e'. Engine_Stop env now g e = Return (r, e')"
proof -
  let ?e = "e\<lparr>eg_cancelled := map_option (\<lambda>_. True) (eg_cancelled e)\<rparr>"
  obtain err e2 where w: "wait_group env now g ?e = (err, e2)" by fastforce
  then have "eg_loadTestSpec e2 = eg_loadTestSpec e"
    by (auto simp: wait_group_def split: group_state.splits prod.splits)
  then obtain e' where "cleanup env e2 = Return e'" using cleanup_returns [of e2 env] assms by auto
  with w show ?thesis by (simp add: Engine_Stop_def)
qed

lemma Engine_Start_spec:
  assumes "Engine_Start env now lts si e = Return (r, e')"
  shows "eg_loadTestSpec e' \<in> {None, Some lts, eg_loadTestSpec e}"
proof -
  have clean: "eg_loadTestSpec x' = None" if "cleanup env x = Return x'" for x x'
    using cleanup_idle [OF that] by (simp add: idle_def)
  obtain cr e1 where c: "engine_connect env lts e = (cr, e1)" by fastforce
  have e1: "eg_loadTestSpec e1 = eg_loadTestSpec e"
    using c by (auto simp: engine_connect_def split: prod.splits option.splits if_splits)
  show ?thesis
  proof (cases cr)
    case (Some err)
    with c e1 assms show ?thesis by (auto simp: Engine_Start_def)
  next
    case None
    let ?e = "configure env now lts e1"
    obtain sr e2 where s: "setup_streams_of env lts ?e = Return (sr, e2)"
      using assms c None by (auto simp: Engine_Start_def split: if_splits)
    have e2: "eg_loadTestSpec e2 = Some lts"
      using s by (auto simp: setup_streams_of_def split: if_splits)
    show ?thesis
    proof (cases sr)
      case (Some err)
      with assms c None s clean show ?thesis by (auto simp: Engine_Start_def split: if_splits)
    next
      case None': None
      obtain e3 where p: "create_publishers_of env lts e2 = Return e3"
        using assms c None s None' by (auto simp: Engine_Start_def split: if_splits)
      have e3: "eg_loadTestSpec e3 = Some lts"
        using p e2 by (auto simp: create_publishers_of_def split: if_splits)
      obtain kr e4 where k: "create_consumers_of env lts e3 = Return (kr, e4)"
        using assms c None s None' p by (auto simp: Engine_Start_def split: if_splits)
      have "eg_loadTestSpec e4 = Some lts" using create_consumers_of_frame [OF k] e3 by simp
      with assms c None s None' p k clean show ?thesis
        by (auto simp: Engine_Start_def split: if_splits option.splits)
    qed
  qed
qed

lemma worker_engine_spec:
  assumes "worker_reaches env k0 k" and "eg_loadTestSpec (wk_engine k0) = None"
  shows "eg_loadTestSpec (wk_engine k) \<in> insert None (Some ` set (wk_started k))"
  using assms(1)
proof induction
  case (worker_reaches_step k k')
  have stop: "eg_loadTestSpec e = None" if "Engine_Stop env now g x = Return (r, e)" for now g x r e
    using Engine_Stop_idle [OF that] by (simp add: idle_def)
  have start: "eg_loadTestSpec e \<in> insert None (Some ` set (wk_started k @ [lts]))"
    if "start_spec env now lts k1 = Return (r, e)" "eg_loadTestSpec (wk_engine k1) = eg_loadTestSpec (wk_engine k)"
    for now lts k1 r e
    using Engine_Start_spec [OF that(1) [unfolded start_spec_def]] that(2) worker_reaches_step.IH by auto
  show ?case
    using worker_reaches_step.hyps(2)
  proof cases
    case (spec_started i lts now e al)
    then show ?thesis using start [of now lts k None e] by (simp add: started_def)
  next
    case (spec_not_started i lts now err e al)
    then show ?thesis using start [of now lts k "Some err" e] by (simp add: started_def)
  next
    case (repeat_started lts cfg lts' now e)
    then show ?thesis using start [of now lts' _ None e] by (simp add: started_def)
  next
    case (repeat_not_started lts cfg lts' now err e)
    then show ?thesis using start [of now lts' _ "Some err" e] by (simp add: started_def)
  next
    case (goroutine_ran e g)
    then show ?thesis using group_step_frame [OF goroutine_ran(3)] worker_reaches_step.IH by simp
  qed (use worker_reaches_step.IH stop in auto)
qed (use assms in auto)

text \<open>Every spec the worker will start can be started.\<close>

definition all_startable :: "impl \<Rightarrow> Config \<Rightarrow> LoadTestSpec list \<Rightarrow> bool" where
  "all_startable im c ls \<longleftrightarrow> (\<forall>lts \<in> set ls. startable lts)
     \<and> (ls \<noteq> [] \<longrightarrow> (\<forall>n. startable (scaled im (cfg_RepeatPolicy c) (last ls) n)))
     \<and> 0 < sint (StatsInterval c)"

lemma plan_startable:
  assumes "all_startable im c ls" and "i \<le> length ls" and "n = 0 \<or> ls \<noteq> []"
    and "lts \<in> set (plan im (cfg_RepeatPolicy c) ls i n)"
  shows "startable lts"
  using assms by (auto simp: plan_def all_startable_def dest: in_set_takeD)

lemma worker_interval:
  assumes "worker_reaches env k0 k"
  shows "StatsInterval (wk_config k) = StatsInterval (wk_config k0)"
  using assms
proof induction
  case (worker_reaches_step k k')
  from worker_reaches_step.hyps(2) show ?case
    by cases (use worker_reaches_step.IH in \<open>simp_all add: started_def StatsInterval_def scale_last_def\<close>)
qed simp_all

lemma worker_progress_lemma:
  assumes r: "worker_reaches env (new_worker i c e) k" and idle: "eg_loadTestSpec e = None"
    and ls: "cfg_LoadTestSpecs c = map Some ls" and ok: "all_startable (ee_impl env) c ls"
    and phase: "wk_phase k \<notin> {Finished, Cleared}"
  shows "\<exists>k'. worker_step env k k'"
proof -
  have inv: "worker_inv (ee_impl env) c ls k" by (rule worker_reaches_inv [OF r ls])
  have interval: "0 < sint (StatsInterval (wk_config k))"
    using worker_interval [OF r] ok by (simp add: new_worker_def all_startable_def)
  have start: "\<exists>r e'. start_spec env now lts k1 = Return (r, e')"
    if "startable lts" "wk_config k1 = wk_config k" for now lts k1
    unfolding start_spec_def by (rule Engine_Start_returns [OF that(1)]) (simp add: that(2) interval)
  have stop: "\<exists>r e'. Engine_Stop env now g (wk_engine k) = Return (r, e')" for now g
  proof (rule Engine_Stop_returns, intro allI impI)
    fix lts
    assume "eg_loadTestSpec (wk_engine k) = Some lts"
    then have "lts \<in> set (wk_started k)"
      using worker_engine_spec [OF r] idle by (auto simp: new_worker_def)
    then obtain j where "j \<le> length ls" "lts \<in> set (plan (ee_impl env) (cfg_RepeatPolicy c) ls j (wk_repeatCount k))"
      using worker_inv_started [OF inv] by metis
    moreover have "wk_repeatCount k = 0 \<or> ls \<noteq> []"
      using worker_inv_repeats [OF inv phase] ls by (auto simp: repeats_def)
    ultimately have "startable lts" using plan_startable [OF ok] by blast
    then show "\<forall>s \<in> set (lts_Streams lts). stream_ok s" using startable_streams by blast
  qed
  show ?thesis
  proof (cases "wk_phase k")
    case (AtSpec j)
    then have j: "j \<le> length ls" and specs: "cfg_LoadTestSpecs (wk_config k) = map Some ls"
      using inv by (auto simp: worker_inv_def)
    show ?thesis
    proof (cases "j < length ls")
      case True
      then have "startable (ls ! j)" using ok by (simp add: all_startable_def)
      then obtain r e' where s: "start_spec env 0 (ls ! j) k = Return (r, e')" using start [of "ls ! j" k 0] by auto
      have at: "j < length (cfg_LoadTestSpecs (wk_config k))" "cfg_LoadTestSpecs (wk_config k) ! j = Some (ls ! j)"
        using True specs by simp_all
      show ?thesis
        using spec_started [OF AtSpec at] spec_not_started [OF AtSpec at] s by (cases r) blast+
    next
      case False
      then show ?thesis using AtSpec j specs specs_over [of k env] by auto
    qed
  next
    case (RunningSpec j)
    then show ?thesis using stop spec_completed by blast
  next
    case AtRepeat
    then have ne: "ls \<noteq> []" and l: "last (cfg_LoadTestSpecs (wk_config k)) =
        Some (scaled (ee_impl env) (cfg_RepeatPolicy c) (last ls) (wk_repeatCount k))"
      and rp: "cfg_RepeatPolicy (wk_config k) = cfg_RepeatPolicy c"
      using worker_inv_last [OF inv ls] inv by (auto simp: worker_inv_def)
    let ?l = "ApplyMultipliers (ee_impl env) (cfg_RepeatPolicy (wk_config k))
        (scaled (ee_impl env) (cfg_RepeatPolicy c) (last ls) (wk_repeatCount k))"
    have "startable ?l" using ok ne by (simp add: all_startable_def rp scaled_Suc)
    then obtain r e' where s: "start_spec env 0 ?l (scale_alias ?l k) = Return (r, e')"
      using start [of ?l "scale_alias ?l k" 0] by auto
    show ?thesis
      using repeat_started [OF AtRepeat l refl refl] repeat_not_started [OF AtRepeat l refl refl] s
      by (cases r) blast+
  next
    case RunningRepeat
    then show ?thesis using stop repeat_completed by blast
  qed (use phase in auto)
qed

end
