(* ===== verification/Example_Env.thy ===== *)
theory Example_Env
  imports Worker Example_Config
begin

text \<open>
  A server and a client that do what is asked of them: the concrete environment of the
  witnesses.  The world is the map of the streams of the server.
\<close>

type_synonym server = "string \<rightharpoonup> StreamConfig"

definition calm_js :: "server jetstream" where
  "calm_js =
     \<lparr>js_DeleteStream = (\<lambda>n w. (if w n = None then Some ErrStreamNotFound else None, w(n := None))),
      js_AddStream = (\<lambda>cfg w. (None, w(stc_Name cfg \<mapsto> cfg))),
      js_DeleteConsumer = (\<lambda>s d w. (Some ErrConsumerNotFound, w)),
      js_AddConsumer = (\<lambda>s c w. (None, w)),
      js_Subscribe = (\<lambda>t d a m w. (Inr 0, w)), js_PullSubscribe = (\<lambda>t d a m w. (Inr 0, w)),
      js_Publish = (\<lambda>t m w. (None, w))\<rparr>"

definition calm_nc :: "server connection" where
  "calm_nc =
     \<lparr>nc_Subscribe = (\<lambda>t w. (Inr 0, w)), nc_Publish = (\<lambda>t m w. (None, w)),
      nc_Drain = (\<lambda>s w. (None, w)), nc_IsConnected = (\<lambda>w. True), nc_Close = (\<lambda>w. w)\<rparr>"

definition calm :: "(server, unit, unit) engine_env" where
  "calm =
     \<lparr>ee_connect = (\<lambda>url name creds w. (None, w)), ee_jetstream = (\<lambda>w. (None, w)),
      ee_js = calm_js, ee_nc = calm_nc, ee_error = (\<lambda>e. plain_error ''nats''),
      ee_writeStats = (\<lambda>spec s st. (None, st)), ee_writeFailure = (\<lambda>spec s st. (None, st)),
      ee_backoff = \<lparr>be_done = (\<lambda>w. False), be_wait = (\<lambda>d w. (False, w))\<rparr>,
      ee_digest = two_digest, ee_other = (\<lambda>t i. []), ee_impl = amd64, ee_rnd = (\<lambda>i. 0),
      ee_early = (\<lambda>err w. False)\<rparr>"

definition new_engine :: "(server, unit) Engine" where
  "new_engine = NewEngine (NewCollector 0) None True True Map.empty"

lemma new_engine_idle: "idle new_engine"
  by (simp add: new_engine_def NewEngine_def idle_def)

lemma calm_jetstream_laws: "jetstream_laws calm_js (\<lambda>w. w)"
  by (simp add: jetstream_laws_def calm_js_def)

lemma calm_client_laws: "client_laws calm (\<lambda>w. w)"
  using calm_jetstream_laws by (simp add: client_laws_def quiet_waits_def calm_def calm_nc_def calm_js_def)

text \<open>It deletes every stream and accepts every configuration.\<close>

lemma calm_obliging [simp]:
  "deletable calm_js name" "acceptable calm_js (\<lambda>w. w) cfg" "ee_js calm = calm_js"
  by (simp_all add: deletable_def acceptable_def calm_def calm_js_def)

lemma validated_spec_startable: "startable validated_spec"
  using validated_spec_wf
  by (simp add: startable_def countable_subjects_def) (simp add: example_spec_def example_stream_def)

section \<open>Everything succeeds\<close>

text \<open>
  A client whose connections and consumers succeed at once and change nothing on the server, and
  that is never cancelled; its stream calls may be anything.
\<close>

definition gentle :: "('w, 'st, 'e) engine_env \<Rightarrow> bool" where
  "gentle env \<longleftrightarrow>
     (\<forall>url name creds w. ee_connect env url name creds w = (None, w)) \<and> (\<forall>w. ee_jetstream env w = (None, w))
   \<and> (\<forall>s d w. js_DeleteConsumer (ee_js env) s d w = (Some ErrConsumerNotFound, w))
   \<and> (\<forall>s c w. js_AddConsumer (ee_js env) s c w = (None, w))
   \<and> (\<forall>t d a m w. js_Subscribe (ee_js env) t d a m w = (Inr 0, w))
   \<and> (\<forall>t d a m w. js_PullSubscribe (ee_js env) t d a m w = (Inr 0, w))
   \<and> (\<forall>t w. nc_Subscribe (ee_nc env) t w = (Inr 0, w))
   \<and> (\<forall>w. \<not> be_done (ee_backoff env) w)"

lemma calm_gentle: "gentle calm"
  by (simp add: gentle_def calm_def calm_js_def calm_nc_def)

lemma gentle_start_consumer:
  assumes "gentle env"
  shows "\<exists>c'. start_consumer im (ee_backoff env) (consumer_env env e) c w = (None, c', w)"
proof -
  obtain c' where "Consumer_Start (consumer_env env e) (c, w) = (None, c', w)"
    using assms
    by (auto simp: Consumer_Start_def consumer_env_def startJetStreamConsumer_def startCoreConsumer_def
        startPullConsumer_def startPushConsumer_def subscribe_result_def gentle_def Let_def)
  then have "start_consumer im (ee_backoff env) (consumer_env env e) c w = (None, c', w)"
    using assms unfolding start_consumer_def
    by (intro backoff_first_success) (simp_all add: lift_env_def gentle_def)
  then show ?thesis by blast
qed

lemma gentle_start_consumers:
  assumes "gentle env"
  shows "\<exists>ks'. start_consumers im (ee_backoff env) (consumer_env env e) ks (c, w) = Return (None, ks', c, w)"
proof (induction ks)
  case (Cons k ks)
  then show ?case using gentle_start_consumer [OF assms, of im e k w] by auto
qed simp

lemma gentle_connect:
  assumes "gentle env"
  shows "\<exists>e1. engine_connect env lts e = (None, e1) \<and> eg_world e1 = eg_world e \<and> eg_collector e1 = eg_collector e
    \<and> eg_storage e1 = eg_storage e"
  using assms by (cases "lts_UseJetStream lts") (simp_all add: engine_connect_def gentle_def)

text \<open>Over such a client a start succeeds when its streams can be set up, and leaves a new collection.\<close>

lemma gentle_start:
  assumes gentle: "gentle env" and ok: "startable lts" and interval: "0 < sint interval"
    and streams: "\<And>x. \<exists>w. setup_streams_of env lts x = Return (None, x\<lparr>eg_world := w\<rparr>)"
  shows "\<exists>e'. Engine_Start env now lts interval e = Return (None, e')
    \<and> eg_collector e' = SetConfig (ee_digest env) now lts (eg_collector e) \<and> eg_storage e' = eg_storage e
    \<and> (\<not> lts_UseJetStream lts \<longrightarrow> eg_world e' = eg_world e)"
proof -
  obtain e1 where c: "engine_connect env lts e = (None, e1)" "eg_world e1 = eg_world e"
    "eg_collector e1 = eg_collector e" "eg_storage e1 = eg_storage e"
    using gentle_connect [OF gentle] by blast
  let ?e = "configure env now lts e1"
  obtain w where s: "setup_streams_of env lts ?e = Return (None, ?e\<lparr>eg_world := w\<rparr>)" using streams by blast
  have w: "w = eg_world e" if "\<not> lts_UseJetStream lts"
    using arg_cong [of _ _ "\<lambda>r. case r of Return (_, x) \<Rightarrow> eg_world x | _ \<Rightarrow> w", OF s] that c(2)
    by (simp add: setup_streams_of_def)
  obtain e3 where e3: "create_publishers_of env lts (?e\<lparr>eg_world := w\<rparr>) = Return e3"
    "eg_collector e3 = eg_collector ?e" "eg_storage e3 = eg_storage ?e" "eg_world e3 = w"
    by (simp add: create_publishers_of_startable [OF ok])
  obtain e4 where e4: "create_consumers_of env lts e3 = Return (None, e4)"
    "eg_collector e4 = eg_collector e3" "eg_storage e4 = eg_storage e3" "eg_world e4 = eg_world e3"
  proof (cases "eg_enableConsumers e3")
    case True
    obtain ts where ts: "CreateConsumers (ee_other env) (ee_impl env) (ee_backoff env) (consumer_env env e3) lts
        (eg_collector e3, eg_world e3) =
        start_consumers (ee_impl env) (ee_backoff env) (consumer_env env e3) ts (eg_collector e3, eg_world e3)"
      unfolding CreateConsumers_ok [OF startable_streams [OF ok]] by blast
    obtain ks where "start_consumers (ee_impl env) (ee_backoff env) (consumer_env env e3) ts (eg_collector e3, eg_world e3) =
        Return (None, ks, eg_collector e3, eg_world e3)"
      using gentle_start_consumers [OF gentle] by blast
    with True ts that show ?thesis by (simp add: create_consumers_of_def)
  next
    case False
    then show ?thesis using that by (simp add: create_consumers_of_def)
  qed
  have "eg_storage ?e = eg_storage e" using c(4) by (simp add: configure_def)
  then show ?thesis using c(1,3) s w interval e3 e4 by (simp add: Engine_Start_def)
qed

lemma calm_connect: "\<exists>e1. engine_connect calm lts e = (None, e1)"
  using gentle_connect [OF calm_gentle] by blast

lemma calm_streams:
  assumes "startable lts"
  shows "\<exists>w. setup_streams_of calm lts x = Return (None, x\<lparr>eg_world := w\<rparr>)"
proof (cases "lts_UseJetStream lts")
  case True
  obtain r w' where "SetupStreams (ee_other calm) (ee_impl calm) (Some (ee_backoff calm)) (ee_js calm) lts (eg_world x)
      = Return (r, w')" "set_up (ee_backoff calm) (ee_js calm) (\<lambda>w. w) (spec_configs (ee_other calm) lts) (eg_world x) r w'"
    using SetupStreams_laws [OF client_lawsD(1) [OF calm_client_laws] client_lawsD(11) [OF calm_client_laws], of lts]
      startable_streams [OF assms] assms by (fastforce simp: startable_def)
  moreover from this(2) have "r = None" using calm_gentle by (simp add: set_up_def gentle_def)
  ultimately show ?thesis using True by (auto simp: setup_streams_of_def)
next
  case False
  then have "setup_streams_of calm lts x = Return (None, x\<lparr>eg_world := eg_world x\<rparr>)"
    by (simp add: setup_streams_of_def)
  then show ?thesis by (intro exI)
qed

lemma calm_start:
  assumes "startable lts" and "0 < sint interval"
  shows "\<exists>e'. Engine_Start calm now lts interval e = Return (None, e')"
  using gentle_start [OF calm_gentle assms calm_streams [OF assms(1)]] by blast

end
