(* ===== verification/Pull_Loop.thy ===== *)
theory Pull_Loop
  imports Running
begin

text \<open>
  The goroutine of a pull consumer (\<open>startPullConsumer\<close> of \<open>internal/engine/consumer.go\<close>), which
  fetches and handles messages until the context is done and then drains its subscription, and
  what it counts.
\<close>

section \<open>The loop\<close>

text \<open>What one round of the \<open>select\<close> finds: a context that is done, or the result of a fetch.\<close>

datatype pull_event = PullCancelled | Fetched "nats_error option" "delivery list"

fun pull_loop ::
  "(nats_error \<Rightarrow> go_error) \<Rightarrow> 'w connection \<Rightarrow> pull_event list \<Rightarrow> Consumer \<times> Collector \<times> 'w
    \<Rightarrow> (unit, Consumer \<times> Collector \<times> 'w) outcome" where
  "pull_loop fail nc [] s = Return s"
| "pull_loop fail nc (PullCancelled # evs) (k, c, w) =
     (case Consumer_Cleanup nc k w of (err, k', w') \<Rightarrow> Return (k', c, w'))"
| "pull_loop fail nc (Fetched err msgs # evs) (k, c, w) =
     obind (pull_step fail (cn_config k) err msgs c) (\<lambda>c'. pull_loop fail nc evs (k, c', w))"

section \<open>What is counted\<close>

text \<open>A fetch counts unless it failed for another reason than the time; a message counts unless it
  had to be acknowledged and was not.\<close>

definition fetch_ok :: "nats_error option \<Rightarrow> bool" where
  "fetch_ok err \<longleftrightarrow> err = None \<or> err = Some ErrTimeout"

definition taken :: "ConsumerConfig \<Rightarrow> delivery \<Rightarrow> bool" where
  "taken cfg d \<longleftrightarrow> dl_ack d = None \<or> \<not> cc_UseJetStream cfg \<or> cc_AckPolicy cfg = ''none''"

fun fetched :: "pull_event list \<Rightarrow> delivery list" where
  "fetched [] = []"
| "fetched (PullCancelled # evs) = []"
| "fetched (Fetched err msgs # evs) = (if fetch_ok err then msgs else []) @ fetched evs"

fun failed_fetches :: "pull_event list \<Rightarrow> nat" where
  "failed_fetches [] = 0"
| "failed_fetches (PullCancelled # evs) = 0"
| "failed_fetches (Fetched err msgs # evs) = (if fetch_ok err then 0 else 1) + failed_fetches evs"

definition counts :: "nat \<Rightarrow> nat \<Rightarrow> Collector \<Rightarrow> Collector \<Rightarrow> bool" where
  "counts n m c c' \<longleftrightarrow> recording_ok c'
     \<and> co_consumed c' = co_consumed c + word_of_nat n \<and> co_consumeErrors c' = co_consumeErrors c + word_of_nat m"

lemma counts_trans: "counts n m c c' \<Longrightarrow> counts n' m' c' c'' \<Longrightarrow> counts (n + n') (m + m') c c''"
  by (simp add: counts_def)

lemma RecordConsumeError_counts:
  assumes "recording_ok c" shows "\<exists>c'. RecordConsumeError e c = Return c' \<and> counts 0 1 c c'"
proof -
  obtain c' where c': "RecordConsumeError e c = Return c'" "recording_ok c'"
    using RecordConsumeError_recording [OF assms] by blast
  then have "co_consumed c' = co_consumed c" "co_consumeErrors c' = co_consumeErrors c + 1"
    by (auto simp: RecordConsumeError_def recordError_def Let_def split: option.splits if_splits)
  with c' show ?thesis by (simp add: counts_def)
qed

lemma handleMessage_counts:
  assumes "recording_ok c"
  shows "\<exists>c'. handleMessage fail cfg (dl_time d) (dl_ack d) (dl_payload d) c = Return c'
    \<and> (if taken cfg d then counts 1 0 c c' else counts 0 1 c c')"
proof (cases "taken cfg d")
  case True
  then show ?thesis
    using assms by (simp add: taken_def handleMessage_acked counts_def RecordConsume_def RecordLatency_def)
      (simp add: recording_ok_def)
next
  case False
  let ?c = "if cc_TrackLatency cfg \<and> 8 \<le> length (dl_payload d)
    then RecordLatency (message_latency (dl_time d) (dl_payload d)) c else c"
  have "recording_ok ?c" using assms by (simp add: recording_ok_def RecordLatency_def)
  then obtain c' where "RecordConsumeError (fail (the (dl_ack d))) ?c = Return c'" "counts 0 1 ?c c'"
    using RecordConsumeError_counts by blast
  moreover from this have "counts 0 1 c c'" by (simp add: counts_def RecordLatency_def split: if_splits)
  ultimately show ?thesis using False by (auto simp: taken_def handleMessage_def Let_def)
qed

lemma handle_all_counts:
  assumes "recording_ok c"
  shows "\<exists>c'. handle_all fail cfg ds c = Return c'
    \<and> counts (length (filter (taken cfg) ds)) (length (filter (\<lambda>d. \<not> taken cfg d) ds)) c c'"
  using assms
proof (induction ds arbitrary: c)
  case (Cons d ds)
  obtain c1 where c1: "handleMessage fail cfg (dl_time d) (dl_ack d) (dl_payload d) c = Return c1"
    "if taken cfg d then counts 1 0 c c1 else counts 0 1 c c1"
    using handleMessage_counts [OF Cons.prems] by blast
  then have "recording_ok c1" by (simp add: counts_def split: if_splits)
  with Cons.IH obtain c' where "handle_all fail cfg ds c1 = Return c'"
    "counts (length (filter (taken cfg) ds)) (length (filter (\<lambda>d. \<not> taken cfg d) ds)) c1 c'" by blast
  with c1 show ?case by (auto dest: counts_trans split: if_splits)
qed (simp add: counts_def)

lemma pull_step_counts:
  assumes "recording_ok c"
  shows "\<exists>c'. pull_step fail cfg err msgs c = Return c'
    \<and> counts (length (filter (taken cfg) (fetched [Fetched err msgs])))
        (failed_fetches [Fetched err msgs] + length (filter (\<lambda>d. \<not> taken cfg d) (fetched [Fetched err msgs]))) c c'"
  using handle_all_counts [OF assms] RecordConsumeError_counts [OF assms]
  by (cases "fetch_ok err") (auto simp: pull_step_def fetch_ok_def)

lemma pull_loop_returns:
  assumes "recording_ok c"
  shows "\<exists>k' c' w'. pull_loop fail nc evs (k, c, w) = Return (k', c', w')
    \<and> counts (length (filter (taken (cn_config k)) (fetched evs)))
        (failed_fetches evs + length (filter (\<lambda>d. \<not> taken (cn_config k) d) (fetched evs))) c c'
    \<and> (PullCancelled \<in> set evs \<longrightarrow> (k', w') = snd (Consumer_Cleanup nc k w))"
  using assms
proof (induction evs arbitrary: c)
  case (Cons ev evs)
  show ?case
  proof (cases ev)
    case PullCancelled
    with Cons.prems show ?thesis by (simp add: counts_def split: prod.split)
  next
    case (Fetched err msgs)
    obtain c1 where c1: "pull_step fail (cn_config k) err msgs c = Return c1"
      "counts (length (filter (taken (cn_config k)) (fetched [Fetched err msgs])))
        (failed_fetches [Fetched err msgs] + length (filter (\<lambda>d. \<not> taken (cn_config k) d) (fetched [Fetched err msgs]))) c c1"
      using pull_step_counts [OF Cons.prems] by blast
    then have "recording_ok c1" by (simp add: counts_def)
    with Cons.IH obtain k' c' w' where r: "pull_loop fail nc evs (k, c1, w) = Return (k', c', w')"
      "counts (length (filter (taken (cn_config k)) (fetched evs)))
        (failed_fetches evs + length (filter (\<lambda>d. \<not> taken (cn_config k) d) (fetched evs))) c1 c'"
      "PullCancelled \<in> set evs \<longrightarrow> (k', w') = snd (Consumer_Cleanup nc k w)" by blast
    show ?thesis using counts_trans [OF c1(2) r(2)] c1(1) r(1,3) Fetched by (simp add: add_ac)
  qed
qed (simp add: counts_def)

end
