(* ===== verification/Engine_Properties.thy ===== *)
theory Engine_Properties
  imports Example_Env Pull_Loop
begin

text \<open>
  The properties of the engine: retries, streams, starting and stopping, publishers and their
  ramp-up, consumers and the latency they measure.
\<close>

section \<open>Retries\<close>

text \<open>C27. With a context that is not cancelled, retrying with backoff is calling the function until its
  first success or as often as there are steps, and the error is the one of the last call.\<close>

theorem exponentialBackoff_attempts:
  assumes "steady_env env" and "0 < sint steps" and "0 < sint duration" and "\<not> factor \<le> Fin 0"
  shows "exponentialBackoff im env duration factor steps cap fn s =
    (case attempts fn (nat (sint steps)) s of (r, s') \<Rightarrow> (map_option LastError r, s'))"
  using assms by (simp add: exponentialBackoff_def backoff_loop_steady)

definition third_time :: "nat \<Rightarrow> string option \<times> nat" where
  "third_time n = (if n < 2 then Some ''not yet'' else None, Suc n)"

definition steady_clock :: "nat backoff_env" where
  "steady_clock = \<lparr>be_done = (\<lambda>s. False), be_wait = (\<lambda>d s. (False, s))\<rparr>"

theorem exponentialBackoff_attempts_witness:
  "exponentialBackoff amd64 steady_clock Second (Fin 2) 5 (5 * Second) third_time 0 = (None, 3)"
proof -
  have "steady_env steady_clock" by (simp add: steady_env_def steady_clock_def)
  moreover have "attempts third_time 5 0 = (None, 3)" by (simp add: third_time_def numeral_eq_Suc)
  ultimately show ?thesis
    using exponentialBackoff_attempts [of steady_clock 5 Second "Fin 2" amd64 "5 * Second" third_time 0] by simp
qed

text \<open>C28. The function is called at most as often as there are steps, whatever the context, the waits
  and the function do, so the retry loop ends.\<close>

theorem exponentialBackoff_bounded:
  "snd (snd (exponentialBackoff im (counted_env env) duration factor steps cap (counted fn) (s, 0)))
     \<le> nat (sint steps)"
  using backoff_loop_calls [of im env factor cap fn "nat (sint steps)" duration s 0]
  by (simp add: exponentialBackoff_def)

lemma three_halves:
  assumes "0 \<le> k" and "3 * k \<le> 2 ^ 53"
  shows "next_duration im (Fin (3 / 2)) cap (word_of_int (2 * k)) = smin (word_of_int (3 * k)) cap"
proof -
  have "sint (word_of_int (2 * k) :: int64) = 2 * k" by (rule sint_of_int_64) (use assms in simp_all)
  moreover have "float_of_int (2 * k) = Fin (of_int (2 * k))" by (rule float_of_int_exact) (use assms in simp)
  moreover have "(of_int (2 * k) * (3 / 2) :: rat) = of_int (3 * k)" by simp
  moreover have "fl (of_int (3 * k)) = Fin (of_int (3 * k))" by (rule fl_of_int) (use assms in simp)
  ultimately have "float_of_int (sint (word_of_int (2 * k) :: int64)) * Fin (3 / 2) = Fin (of_int (3 * k))"
    by (simp only: times_float64_def fmul.simps)
  moreover have "\<bar>of_int (3 * k) :: rat\<bar> < 9223372036854775808"
  proof -
    have "(of_int (3 * k) :: rat) < of_int 9223372036854775808"
      unfolding of_int_less_iff using assms by simp
    then show ?thesis using assms(1) by simp
  qed
  ultimately have "next_duration im (Fin (3 / 2)) cap (word_of_int (2 * k)) =
      smin (word_of_int (trunc_rat (of_int (3 * k)))) cap"
    by (rule next_duration_exact)
  then show ?thesis by (simp only: trunc_rat_of_int)
qed

lemma growth_capped:
  assumes "0 \<le> sint cap" and "sint cap \<le> 2 ^ 52"
  shows "next_duration im (Fin (3 / 2)) cap cap = cap"
proof -
  let ?r = "round_rat (of_int (sint cap) * (3 / 2))"
  have c: "(0 :: rat) \<le> of_int (sint cap)" "of_int (sint cap) \<le> (of_int (2 ^ 52) :: rat)"
    unfolding of_int_0_le_iff of_int_le_iff using assms by simp_all
  have "round_rat (of_int (sint cap)) = of_int (sint cap)" by (rule round_rat_of_int) (use assms in simp)
  then have ge: "of_int (sint cap) \<le> ?r"
    using round_rat_mono [of "of_int (sint cap)" "of_int (sint cap) * (3 / 2)"] c(1) by simp
  have le: "\<bar>of_int (sint cap) * (3 / 2)\<bar> \<le> pow2 53" using c by simp
  then have f: "fl (of_int (sint cap) * (3 / 2)) = Fin ?r" by (rule fl_finite) simp_all
  have r: "\<bar>?r\<bar> \<le> pow2 53" using le by (rule round_rat_abs_le) simp
  have "float_of_int (sint cap) = Fin (of_int (sint cap))" by (rule float_of_int_exact) (use assms in simp)
  with f have "next_duration im (Fin (3 / 2)) cap cap = smin (word_of_int (trunc_rat ?r)) cap"
    using r by (intro next_duration_exact) (simp_all add: times_float64_def)
  moreover have "sint cap \<le> trunc_rat ?r" using trunc_rat_mono [OF ge] by simp
  moreover have "?r < of_int 9223372036854775808" using r by simp
  then have "trunc_rat ?r < 9223372036854775808"
    using order_trans [OF c(1) ge] by (simp add: trunc_rat_def floor_less_iff)
  ultimately show ?thesis using assms(1) by (simp add: word_eq_sint_iff sint_of_int_64)
qed

lemma recording_simps [simp]: "be_done recording s = False" "be_wait recording d ds = (False, ds @ [d])"
  by (simp_all add: recording_def)

text \<open>When a stream cannot be created, its four retries are 5 nanoseconds apart, because the cap of
  that call is written without a unit; the retries of a failing deletion are 1.5, 2.25, 3.375
  and 5 seconds apart.\<close>

lemma setup_stream_waits:
  assumes "\<And>ds. js_AddStream js cfg ds = (Some e, ds)"
    and "\<And>ds. js_DeleteStream js (stc_Name cfg) ds = (d, ds)"
  shows "setup_stream im recording js cfg [] =
    (if d = None \<or> d = Some ErrStreamNotFound then (Some (CreateFailed (LastError e)), [5, 5, 5, 5])
     else (Some (DeleteFailed (LastError (the d))), [1500000000, 2250000000, 3375000000, 5000000000]))"
proof (cases "d = None \<or> d = Some ErrStreamNotFound")
  case True
  have first: "next_duration im (Fin (3 / 2)) 5 1000000000 = 5"
    using three_halves [of 500000000 im 5] by (simp add: smin_def)
  have more: "next_duration im (Fin (3 / 2)) 5 5 = 5" by (rule growth_capped) simp_all
  have "delete_stream js (stc_Name cfg) [] = (None, [])" using True by (auto simp: delete_stream_def assms(2))
  moreover have "create_stream js cfg ds = (Some e, ds)" for ds by (simp add: create_stream_def assms(1))
  ultimately show ?thesis using True
    by (simp add: setup_stream_def exponentialBackoff_def numeral_eq_Suc Second_def first more)
next
  case False
  then obtain x where "d = Some x" by auto
  with False have "delete_stream js (stc_Name cfg) ds = (Some x, ds)" for ds
    by (simp add: delete_stream_def assms(2))
  moreover have "next_duration im (Fin (3 / 2)) 5000000000 1000000000 = 1500000000"
    "next_duration im (Fin (3 / 2)) 5000000000 1500000000 = 2250000000"
    "next_duration im (Fin (3 / 2)) 5000000000 2250000000 = 3375000000"
    "next_duration im (Fin (3 / 2)) 5000000000 3375000000 = 5000000000"
    using three_halves [of 500000000 im 5000000000] three_halves [of 750000000 im 5000000000]
      three_halves [of 1125000000 im 5000000000] three_halves [of 1687500000 im 5000000000]
    by (simp_all add: smin_def)
  ultimately show ?thesis using False \<open>d = Some x\<close>
    by (simp add: setup_stream_def exponentialBackoff_def numeral_eq_Suc Second_def)
qed

definition refusing_js :: "(Duration list) jetstream" where
  "refusing_js =
     \<lparr>js_DeleteStream = (\<lambda>n w. (Some ErrStreamNotFound, w)), js_AddStream = (\<lambda>cfg w. (Some ErrTimeout, w)),
      js_DeleteConsumer = (\<lambda>s d w. (None, w)), js_AddConsumer = (\<lambda>s c w. (None, w)),
      js_Subscribe = (\<lambda>t d a m w. (Inr 0, w)), js_PullSubscribe = (\<lambda>t d a m w. (Inr 0, w)),
      js_Publish = (\<lambda>t m w. (None, w))\<rparr>"

definition example_stream_config :: StreamConfig where
  "example_stream_config = stream_config (example_stream [''test.subject.%d'']) ''load_stream_1'' [''test.subject.1'']"

lemma setup_stream_waits_example:
  "setup_stream amd64 recording refusing_js example_stream_config [] =
    (Some (CreateFailed (LastError ErrTimeout)), [5, 5, 5, 5])"
  using setup_stream_waits [of refusing_js example_stream_config ErrTimeout "Some ErrStreamNotFound" amd64]
  by (simp add: refusing_js_def)

section \<open>Streams\<close>

text \<open>C8. Let a validated spec have different stream prefixes and lists of subjects the code
  can count, and let a stream of the server change by its own deletion or addition only, not while the
  code waits.  Whatever fails and whenever the context is cancelled, setting up the streams returns
  and leaves every stream the spec does not name as it was; when it returns without an error, each
  stream the spec asks for is there with exactly its configuration; and it does so whenever the
  context is not cancelled and the server deletes the streams of the spec and accepts their
  configurations under a free name.\<close>

theorem SetupStreams_installs:
  assumes "jetstream_laws js streams" and "quiet_waits bo streams"
    and "spec_wf lts" and "countable_subjects lts" and "distinct (map ss_NamePrefix (lts_Streams lts))"
  shows "\<exists>r w'. SetupStreams other im (Some bo) js lts w = Return (r, w')
    \<and> (r = None \<longrightarrow> (\<forall>cfg \<in> set (spec_configs other lts). streams w' (stc_Name cfg) = Some cfg))
    \<and> (\<forall>n. n \<notin> spec_stream_names lts \<longrightarrow> streams w' n = streams w n)
    \<and> ((\<forall>v. \<not> be_done bo v)
        \<and> (\<forall>cfg \<in> set (spec_configs other lts). deletable js (stc_Name cfg) \<and> acceptable js streams cfg)
       \<longrightarrow> r = None)"
proof -
  have ok: "\<forall>s \<in> set (lts_Streams lts). stream_ok s" using assms(3) by (simp add: spec_wf_def spec_ok_def)
  obtain r w' where w': "SetupStreams other im (Some bo) js lts w = Return (r, w')"
    "set_up bo js streams (spec_configs other lts) w r w'"
    using SetupStreams_laws [OF assms(1,2) ok assms(4)] by blast
  moreover have "distinct (map stc_Name (spec_configs other lts))"
    unfolding spec_configs_def by (rule distinct_names_of [OF assms(5)])
  ultimately show ?thesis
    by (intro exI [of _ r] exI [of _ w']) (simp add: set_up_def install_distinct names_spec_configs)
qed

theorem SetupStreams_installs_witness:
  "\<exists>w' cfg. SetupStreams (ee_other calm) amd64 (Some (ee_backoff calm)) calm_js validated_spec Map.empty = Return (None, w')
    \<and> w' ''another'' = None \<and> w' ''load_stream_1'' = Some cfg \<and> stc_Name cfg = ''load_stream_1''"
proof -
  have "countable_subjects validated_spec" using validated_spec_startable by (simp add: startable_def)
  moreover have "distinct (map ss_NamePrefix (lts_Streams validated_spec))" by (simp add: example_spec_def)
  moreover have "\<forall>w. \<not> be_done (ee_backoff calm) w" "quiet_waits (ee_backoff calm) (\<lambda>w. w)"
    by (simp_all add: calm_def quiet_waits_def)
  moreover have "''another'' \<notin> spec_stream_names validated_spec"
    by (auto simp: spec_stream_names_def example_spec_def example_stream_def stream_name_def)
  moreover have "stream_name ''load_stream'' 0 \<in> spec_stream_names validated_spec"
    by (auto simp: spec_stream_names_def example_spec_def example_stream_def intro!: exI [of _ 0])
  then obtain cfg where "cfg \<in> set (spec_configs (ee_other calm) validated_spec)" "stc_Name cfg = stream_name ''load_stream'' 0"
    by (auto simp: names_spec_configs [of "ee_other calm", symmetric])
  moreover have "stream_name ''load_stream'' 0 = ''load_stream_1''"
    by (simp add: stream_name_def show_int_def digits.simps digit_def char_of_def bit_0)
  ultimately show ?thesis
    using SetupStreams_installs [OF calm_jetstream_laws _ validated_spec_wf, of "ee_backoff calm" "ee_other calm" amd64 Map.empty]
      calm_obliging by fastforce
qed

section \<open>Starting and stopping\<close>

text \<open>C5. Starting the engine on a validated spec whose log limits allow at least one line and whose lists of
  subjects the code can count has one panic only: that of the ticker, when the client connects and
  the collection interval is not positive.  In every other case, whatever the client calls answer,
  it returns, with an error or without (the handler of client errors runs beside it, not in it).\<close>

theorem Engine_Start_total:
  assumes "spec_wf lts" and "countable_subjects lts" and "0 < sint (ll_MaxLines (lts_LogLimits lts))"
  shows "if fst (engine_connect env lts e) = None \<and> sint statsInterval \<le> 0
    then Engine_Start env now lts statsInterval e = Panic
    else (\<exists>r e'. Engine_Start env now lts statsInterval e = Return (r, e'))"
proof (cases "fst (engine_connect env lts e) = None \<and> sint statsInterval \<le> 0")
  case True
  then show ?thesis by (auto simp: Engine_Start_def split: prod.split option.split)
next
  case False
  have "startable lts" using assms by (simp add: startable_def)
  then have "\<exists>r e'. Engine_Start env now lts statsInterval e = Return (r, e')"
    using False Engine_Start_returns [of lts statsInterval env now e]
    by (cases "0 < sint statsInterval") (auto simp: Engine_Start_def split: prod.splits option.splits)
  then show ?thesis by (simp only: False if_False)
qed

lemma interval_5 [simp]: "StatsInterval validated_config = 5000000000" "0 < sint (StatsInterval validated_config)"
  by (simp_all add: StatsInterval_def example_config_def Second_def)

lemma startable_parts:
  "startable lts \<Longrightarrow> spec_wf lts" "startable lts \<Longrightarrow> countable_subjects lts"
  "startable lts \<Longrightarrow> 0 < sint (ll_MaxLines (lts_LogLimits lts))"
  by (simp_all add: startable_def)

theorem Engine_Start_total_witness:
  "(\<exists>r e'. Engine_Start calm 0 validated_spec (StatsInterval validated_config) new_engine = Return (r, e'))
    \<and> Engine_Start calm 0 validated_spec 0 new_engine = Panic"
proof -
  note total = Engine_Start_total [OF startable_parts(1,2,3), OF validated_spec_startable validated_spec_startable validated_spec_startable, where env = calm and e = new_engine and now = 0]
  have "fst (engine_connect calm validated_spec new_engine) = None" using calm_connect by (metis fst_conv)
  then show ?thesis using total [of "StatsInterval validated_config"] total [of 0] by simp
qed

text \<open>C4. Let a spec that uses JetStream be startable (validated, with an error log and lists of subjects the
  code can count), and let a stream of the server change by its own deletion or addition only, not
  by other client calls or while the engine waits.  When \<open>Start\<close> has succeeded and the goroutines have done whatever they do,
  \<open>Stop\<close> returns, every stream of the server that the spec does not name is as it was before
  \<open>Start\<close>, and of those it names each is gone whose deletion the server does not refuse: a
  deletion that fails is only logged, and the next streams are deleted all the same.\<close>

theorem Engine_leaves_no_streams:
  assumes "client_laws env streams" and "startable lts" and "lts_UseJetStream lts"
    and "Engine_Start env now lts statsInterval e = Return (None, e1)"
    and "group_reaches env (e1, new_group e1) (e2, g2)"
  shows "\<exists>err e3. Engine_Stop env now' g e2 = Return (err, e3)
    \<and> (\<forall>n. n \<notin> spec_stream_names lts \<longrightarrow> streams (eg_world e3) n = streams (eg_world e) n)
    \<and> (\<forall>n \<in> spec_stream_names lts. deletable (ee_js env) n \<longrightarrow> streams (eg_world e3) n = None)"
proof -
  note s = Engine_Start_streams [OF assms(1-4)]
  have e2: "eg_loadTestSpec e2 = Some lts" "eg_streamManager e2" "streams (eg_world e2) = streams (eg_world e1)"
    using group_reaches_frame [OF assms(5)] group_reaches_streams [OF assms(1,5)] s by simp_all
  from Engine_Stop_streams [OF assms(1) e2(1) assms(3) e2(2) assms(2)] obtain err e3 where
    "Engine_Stop env now' g e2 = Return (err, e3)"
    "cleaned (ee_js env) streams (spec_stream_names lts) (eg_world e2) (eg_world e3)" by blast
  moreover have "streams (eg_world e2) n = streams (eg_world e) n" if "n \<notin> spec_stream_names lts" for n
    using that s e2(3) by (simp add: install_other names_spec_configs)
  ultimately show ?thesis unfolding cleaned_def by metis
qed

text \<open>The same spec without a ramp-up.\<close>

definition instant_spec :: LoadTestSpec where
  "instant_spec = validated_spec\<lparr>lts_Behavior := \<lparr>bc_DurationSeconds = 300, bc_RampUpSeconds = 0\<rparr>\<rparr>"

lemma instant_spec_simps [simp]:
  "lts_Streams instant_spec = lts_Streams validated_spec"
  "lts_Publishers instant_spec = lts_Publishers validated_spec"
  "RampUpDuration instant_spec = 0"
  by (simp_all add: instant_spec_def RampUpDuration_def)

lemma instant_spec_startable: "startable instant_spec"
  using validated_spec_startable
  by (simp add: startable_def spec_wf_def spec_ok_def instant_spec_def behavior_ok_def countable_subjects_def) metis

lemma fitting_examples: "fitting_rate validated_spec" "fitting_rate instant_spec"
  by (simp_all add: fitting_rate_def example_spec_def example_publishers_def config_constants)

lemma calm_publishers:
  assumes "Engine_Start calm 0 lts 5000000000 new_engine = Return (None, e1)"
    and "lts \<in> {validated_spec, instant_spec}"
  shows "length (eg_publishers e1) = 500" and "\<forall>p \<in> set (eg_publishers e1). pb_targetRate p = 10000"
proof -
  have "distinct (map ss_NamePrefix (lts_Streams validated_spec))" by (simp add: example_spec_def)
  then obtain s where "s \<in> set (lts_Streams validated_spec)" "publisher_targets (ee_other calm) validated_spec =
      targets_of (ee_other calm) (nat (sint (ps_CountPerStream (lts_Publishers validated_spec)))) s"
    using publisher_targets_unique [of validated_spec "ee_other calm"] validated_spec_wf
    by (auto simp: spec_wf_def)
  then have "length (publisher_targets (ee_other calm) validated_spec) = 500"
    by (simp add: length_targets_of) (simp add: example_spec_def example_stream_def example_publishers_def)
  moreover have "publisher_targets (ee_other calm) instant_spec = publisher_targets (ee_other calm) validated_spec"
    by (simp add: publisher_targets_def)
  moreover have "eg_enablePublishers new_engine" by (simp add: new_engine_def NewEngine_def)
  moreover have "startable lts" using assms(2) validated_spec_startable instant_spec_startable by blast
  ultimately show "length (eg_publishers e1) = 500" "\<forall>p \<in> set (eg_publishers e1). pb_targetRate p = 10000"
    using Engine_Start_running(4) [OF _ assms(1)] assms(2)
    by (auto simp: made_publisher_def publisher_config_def) (simp_all add: example_spec_def example_publishers_def)
qed

text \<open>A started engine whose ramp-up has begun.\<close>

lemma calm_running:
  "\<exists>e1 e2 g2. Engine_Start calm 0 validated_spec 5000000000 new_engine = Return (None, e1)
    \<and> group_reaches calm (e1, new_group e1) (e2, g2) \<and> gr_ramp g2 \<noteq> None
    \<and> gr_publishers g2 \<noteq> []"
proof -
  obtain e1 where e1: "Engine_Start calm 0 validated_spec 5000000000 new_engine = Return (None, e1)"
    using calm_start [OF validated_spec_startable] by fastforce
  note s = Engine_Start_running [OF validated_spec_startable e1]
  let ?r = "ramp_begin routine_target routine_set 0 (gr_publishers (new_group e1)) (RampUpDuration validated_spec)
      (Some (eg_collector e1))"
  have st: "group_step calm (e1, new_group e1) (ramp_share ?r (e1, new_group e1))"
    by (rule ramp_began [OF s(1) _ s(3) refl]) (simp add: new_group_def)
  moreover have "gr_publishers (snd (ramp_share ?r (e1, new_group e1))) \<noteq> []"
    using calm_publishers(1) [OF e1]
    by (auto simp: ramp_begin_def report_def setAllPublishersToFullRate_def new_group_def Let_def)
  moreover obtain e2 g2 where "ramp_share ?r (e1, new_group e1) = (e2, g2)" by fastforce
  ultimately show ?thesis using e1 group_reaches_step [OF group_reaches_refl st]
    by (metis option.distinct(1) ramp_share_frame(7) snd_conv)
qed

theorem Engine_leaves_no_streams_witness:
  "\<exists>e1 e2 g2 err e3. Engine_Start calm 0 validated_spec 5000000000 new_engine = Return (None, e1)
    \<and> group_reaches calm (e1, new_group e1) (e2, g2) \<and> gr_ramp g2 \<noteq> None
    \<and> Engine_Stop calm 300 None e2 = Return (err, e3) \<and> eg_world e3 = Map.empty"
proof -
  obtain e1 e2 g2 where r: "Engine_Start calm 0 validated_spec 5000000000 new_engine = Return (None, e1)"
    "group_reaches calm (e1, new_group e1) (e2, g2)" "gr_ramp g2 \<noteq> None" using calm_running by blast
  have "lts_UseJetStream validated_spec" by (simp add: example_spec_def)
  from Engine_leaves_no_streams [OF calm_client_laws validated_spec_startable this r(1,2), of 300 None]
  obtain err e3 where e3: "Engine_Stop calm 300 None e2 = Return (err, e3)"
    "\<And>n. n \<notin> spec_stream_names validated_spec \<Longrightarrow> eg_world e3 n = eg_world new_engine n"
    "\<And>n. n \<in> spec_stream_names validated_spec \<Longrightarrow> deletable (ee_js calm) n \<Longrightarrow> eg_world e3 n = None" by blast
  have "eg_world e3 n = None" for n
    using e3(2,3) [of n] calm_obliging by (cases "n \<in> spec_stream_names validated_spec") (simp_all add: new_engine_def NewEngine_def)
  then have "eg_world e3 = Map.empty" by (intro ext)
  with r e3(1) show ?thesis by blast
qed

section \<open>Publishers\<close>

text \<open>C15. An engine with publishers enabled, started on a validated spec (with an error log and lists of
  subjects the code can count) whose streams all have different name prefixes, has one publisher per stream, subject and count of the stream spec the
  publishers name, and no two of them have the same ID.\<close>

theorem Engine_Start_publisher_ids:
  assumes "startable lts" and "distinct (map ss_NamePrefix (lts_Streams lts))"
    and "Engine_Start env now lts statsInterval e = Return (None, e')" and "eg_enablePublishers e"
  shows "\<exists>s \<in> set (lts_Streams lts). ss_NamePrefix s = ps_StreamNamePrefix (lts_Publishers lts)
    \<and> length (eg_publishers e') =
        nat (sint (ss_Count s)) * (length (ss_Subjects s) * nat (sint (ps_CountPerStream (lts_Publishers lts))))
    \<and> distinct (map (\<lambda>p. pc_ID (pb_config p)) (eg_publishers e'))"
proof -
  have "spec_ok lts" using assms(1) by (simp add: startable_def spec_wf_def)
  then obtain s where s: "s \<in> set (lts_Streams lts)" "ss_NamePrefix s = ps_StreamNamePrefix (lts_Publishers lts)"
    and t: "publisher_targets (ee_other env) lts =
      targets_of (ee_other env) (nat (sint (ps_CountPerStream (lts_Publishers lts)))) s"
    using publisher_targets_unique [OF _ assms(2)] by blast
  let ?ts = "targets_of (ee_other env) (nat (sint (ps_CountPerStream (lts_Publishers lts)))) s"
  have p: "eg_publishers e' = map (\<lambda>t. made_publisher (ee_rnd env) (publisher_config lts t)) ?ts"
    using Engine_Start_publishers [OF assms(1,3,4)] t by simp
  have "map (\<lambda>p. pc_ID (pb_config p)) (eg_publishers e') =
      map (\<lambda>x. lts_ClientIDPrefix lts @ ''-pub-'' @ x) (map (target_suffix (CHR ''-'')) ?ts)"
    by (simp add: p made_publisher_def publisher_config_def)
  moreover have "distinct (map (target_suffix (CHR ''-'')) ?ts)"
    by (rule distinct_target_suffixes) (simp add: is_digit_def)
  ultimately have "distinct (map (\<lambda>p. pc_ID (pb_config p)) (eg_publishers e'))"
    by (simp only:) (subst distinct_map, simp add: inj_on_def)
  with s p show ?thesis by (intro bexI [of _ s]) (simp_all add: length_targets_of)
qed

theorem Engine_Start_publisher_ids_witness:
  "\<exists>e'. Engine_Start calm 0 validated_spec 5000000000 new_engine = Return (None, e')
    \<and> length (eg_publishers e') = 500"
proof -
  obtain e' where e': "Engine_Start calm 0 validated_spec 5000000000 new_engine = Return (None, e')"
    using calm_start [OF validated_spec_startable] by fastforce
  have "distinct (map ss_NamePrefix (lts_Streams validated_spec))" "eg_enablePublishers new_engine"
    by (simp_all add: example_spec_def new_engine_def NewEngine_def)
  from Engine_Start_publisher_ids [OF validated_spec_startable this(1) e' this(2)] e' show ?thesis
    by (simp add: example_spec_def example_stream_def example_publishers_def)
qed

text \<open>C16. For publishers with positive targets, whatever rates they come with (a new one has rate zero until
  its goroutine begins), the ramp-up never changes a target; at every moment the publishers are
  still as they came or all have a rate between one and their target, and when it ends other than
  by cancellation every publisher runs at its full rate.\<close>

theorem ramp_up_invariant:
  assumes "ramp_reaches im GetTargetRate SetRate (ramp_begin GetTargetRate SetRate now ps duration c) r"
    and "\<forall>p \<in> set ps. 0 < sint (GetTargetRate p)"
  shows "map GetTargetRate (ra_publishers r) = map GetTargetRate ps
    \<and> (ra_publishers r = ps \<or> rates_ok GetTargetRate GetCurrentRate (ra_publishers r))
    \<and> (ra_status r = RampFinished \<longrightarrow> (\<forall>p \<in> set (ra_publishers r). GetCurrentRate p = GetTargetRate p))"
  using publishers.ramp_invariant [OF assms] by blast

text \<open>A publisher as \<open>NewPublisher\<close> makes it, with rate zero.\<close>

definition one_publisher :: "int32 \<Rightarrow> Publisher" where
  "one_publisher rate = made_publisher (\<lambda>i. 0) \<lparr>pc_ID = ''p'', pc_StreamName = ''s_1'', pc_Subject = ''t'',
     pc_MessageSize = 16, pc_PublishRate = rate, pc_TrackLatency = True,
     pc_PublishPattern = PublishPatternSteady, pc_PublishBurstSize = 1, pc_UseJetStream = False\<rparr>"

lemma one_publisher_simps [simp]:
  "pb_targetRate (one_publisher rate) = rate" "pb_currentRate (one_publisher rate) = 0"
  "pc_PublishPattern (pb_config (one_publisher rate)) = PublishPatternSteady"
  "pc_PublishBurstSize (pb_config (one_publisher rate)) = 1"
  "pc_TrackLatency (pb_config (one_publisher rate))" "length (pb_messageData (one_publisher rate)) = 16"
  by (simp_all add: one_publisher_def made_publisher_def)

theorem ramp_up_invariant_witness:
  "map GetCurrentRate (ra_publishers (ramp_begin GetTargetRate SetRate 0 [one_publisher 100] Second None)) = [0]
    \<and> map GetCurrentRate (ra_publishers (ramp_handle amd64 GetTargetRate SetRate RampTimer
      (ramp_begin GetTargetRate SetRate 0 [one_publisher 100] Second None))) = [100]"
proof -
  let ?start = "ramp_begin GetTargetRate SetRate 0 [one_publisher 100] Second (None :: Collector option)"
  let ?r = "ramp_handle amd64 GetTargetRate SetRate RampTimer ?start"
  have "Second \<noteq> 0" by (simp add: word_eq_sint_iff)
  then have start: "ra_status ?start = RampRunning" "ra_publishers ?start = [one_publisher 100]"
    by (simp_all add: ramp_begin_def) (simp_all add: report_def)
  then have reach: "ramp_reaches amd64 GetTargetRate SetRate ?start ?r"
    by (intro ramp_reaches_step ramp_reaches_refl)
  have "map GetTargetRate (ra_publishers ?r) = [100]" "\<forall>p \<in> set (ra_publishers ?r). GetCurrentRate p = GetTargetRate p"
    using ramp_up_invariant [OF reach] by (simp_all add: GetTargetRate_def report_def)
  moreover from this(2) have "map GetCurrentRate (ra_publishers ?r) = map GetTargetRate (ra_publishers ?r)" by simp
  ultimately show ?thesis using start(2) by (simp add: GetCurrentRate_def)
qed



text \<open>C40. Without a ramp-up time the full rate can be lost: the ramp-up may be over before the goroutine
  of a publisher begins and sets its rate to one, and from then on the publisher stays at one
  message per second for as long as the spec runs.\<close>

theorem full_rate_lost:
  assumes "startable lts" and "fitting_rate lts" and "eg_enablePublishers e \<or> eg_publishers e = []"
    and "Engine_Start env now lts statsInterval e = Return (None, e1)"
    and "RampUpDuration lts = 0" and "i < length (eg_publishers e1)"
  shows "\<exists>s. group_reaches env (e1, new_group e1) s
    \<and> (\<forall>s'. group_reaches env s s' \<longrightarrow> routine_current (gr_publishers (snd s') ! i) = 1)"
proof -
  obtain s where s: "group_reaches env (e1, new_group e1) s" "left_at_one i s"
    using ramp_first [OF started_group_inv [OF assms(1-4)] Engine_Start_running(3) [OF assms(1,4)] assms(5,6)] by blast
  have "routine_current (gr_publishers (snd s') ! i) = 1" if "group_reaches env s s'" for s'
    using left_at_one_reaches [OF that s(2)]
    by (auto simp: left_at_one_def routine_current_def GetCurrentRate_def)
  with s(1) show ?thesis by blast
qed

theorem full_rate_lost_witness:
  "\<exists>e1 s. Engine_Start calm 0 instant_spec 5000000000 new_engine = Return (None, e1)
    \<and> group_reaches calm (e1, new_group e1) s \<and> routine_current (gr_publishers (snd s) ! 0) = 1
    \<and> pb_targetRate (eg_publishers e1 ! 0) = 10000"
proof -
  obtain e1 where e1: "Engine_Start calm 0 instant_spec 5000000000 new_engine = Return (None, e1)"
    using calm_start [OF instant_spec_startable] by fastforce
  have p: "0 < length (eg_publishers e1)" "pb_targetRate (eg_publishers e1 ! 0) = 10000"
    using calm_publishers [OF e1] by simp_all
  have "eg_enablePublishers new_engine" by (simp add: new_engine_def NewEngine_def)
  then show ?thesis
    using full_rate_lost [OF instant_spec_startable fitting_examples(2) disjI1 e1 _ p(1)] e1 p(2)
    by (metis group_reaches_refl instant_spec_simps(3))
qed

section \<open>Consumers\<close>

text \<open>C26. The latency a consumer computes from the first eight bytes of a message is the time between
  the sending of the message and its handling, for every instant a 64-bit clock can hold.\<close>

theorem latency_of_message:
  assumes "pc_TrackLatency (pb_config p)" and "8 \<le> length (pb_messageData p)"
    and "- 9223372036854775808 \<le> sent" and "sent < 9223372036854775808"
  shows "message_latency now (message sent p) = Sub now sent
    \<and> length (message sent p) = length (pb_messageData p)"
  using message_latency_message [OF assms] by simp

theorem latency_of_message_witness:
  "sint (message_latency 1700000000000000250 (message 1700000000000000000 (one_publisher 100))) = 250"
  using latency_of_message [of "one_publisher 100" 1700000000000000000 1700000000000000250]
  by (simp add: sint_Sub)

text \<open>C21. When the collector can record errors (it knows its spec, and the log limits allow at least one
  line), whatever a pull consumer fetches, its loop returns and the counters say what happened: a message
  counts as consumed unless it had to be acknowledged and was not, every other message and every
  fetch that failed, except for the time, counts as an error, nothing counts twice or after the
  cancellation, and the cancellation drains the subscription.\<close>

theorem pull_loop_counts:
  assumes "recording_ok c"
  shows "\<exists>k' c' w'. pull_loop fail nc evs (k, c, w) = Return (k', c', w')
    \<and> co_consumed c' = co_consumed c + word_of_nat (length (filter (taken (cn_config k)) (fetched evs)))
    \<and> co_consumeErrors c' = co_consumeErrors c
        + word_of_nat (failed_fetches evs + length (filter (\<lambda>d. \<not> taken (cn_config k) d) (fetched evs)))
    \<and> (PullCancelled \<in> set evs \<longrightarrow> (k', w') = snd (Consumer_Cleanup nc k w))"
proof -
  obtain k' c' w' where "pull_loop fail nc evs (k, c, w) = Return (k', c', w')"
    "counts (length (filter (taken (cn_config k)) (fetched evs)))
      (failed_fetches evs + length (filter (\<lambda>d. \<not> taken (cn_config k) d) (fetched evs))) c c'"
    "PullCancelled \<in> set evs \<longrightarrow> (k', w') = snd (Consumer_Cleanup nc k w)"
    using pull_loop_returns [OF assms, of fail nc evs k w] by (elim exE conjE) (rule that)
  then show ?thesis unfolding counts_def by blast
qed

definition puller :: Consumer where
  "puller = \<lparr>cn_config = \<lparr>cc_ID = ''c'', cc_StreamName = ''s'', cc_DurableName = ''d'', cc_Type = ''pull'',
     cc_AckWaitSeconds = 30, cc_MaxAckPending = 10, cc_ConsumeDelayMs = 0, cc_AckPolicy = ''explicit'',
     cc_UseJetStream = True, cc_Subject = ''t'', cc_TrackLatency = False\<rparr>, cn_subscription = Some 7\<rparr>"

definition example_pulls :: "pull_event list" where
  "example_pulls =
     [Fetched None [\<lparr>dl_payload = [], dl_time = 0, dl_ack = None\<rparr>,
        \<lparr>dl_payload = [], dl_time = 0, dl_ack = Some ErrConnectionClosed\<rparr>],
      Fetched (Some ErrTimeout) [\<lparr>dl_payload = [], dl_time = 1, dl_ack = None\<rparr>],
      Fetched (Some ErrConnectionClosed) [], PullCancelled, Fetched (Some ErrConnectionClosed) []]"

theorem pull_loop_counts_witness:
  "\<exists>k' c'. pull_loop (\<lambda>e. plain_error ''nats'') calm_nc example_pulls
      (puller, SetConfig two_digest 0 validated_spec (NewCollector 0), Map.empty) = Return (k', c', Map.empty)
    \<and> co_consumed c' = 2 \<and> co_consumeErrors c' = 2 \<and> cn_subscription k' = None"
proof -
  let ?c = "SetConfig two_digest 0 validated_spec (NewCollector 0)"
  have c: "recording_ok ?c" "co_consumed ?c = 0" "co_consumeErrors ?c = 0"
    using validated_spec_startable by (auto simp: startable_def SetConfig_recording) (simp_all add: SetConfig_def NewCollector_def)
  show ?thesis
    using pull_loop_counts [OF c(1), of "\<lambda>e. plain_error ''nats''" calm_nc example_pulls puller Map.empty] c(2,3)
    by (auto simp: example_pulls_def puller_def taken_def fetch_ok_def Consumer_Cleanup_def calm_nc_def)
qed

section \<open>The processing of a configuration\<close>

text \<open>C6. The specs a worker has handed to the engine are the specs of the configuration in their order,
  each once, followed by the last one scaled once more for each repetition: the repetitions
  only begin when all specs have been tried.\<close>

theorem worker_follows_plan:
  assumes "worker_reaches env (new_worker i c e) k" and "cfg_LoadTestSpecs c = map Some ls"
  shows "\<exists>n \<le> length ls. wk_started k = plan (ee_impl env) (cfg_RepeatPolicy c) ls n (wk_repeatCount k)
    \<and> (n < length ls \<longrightarrow> wk_repeatCount k = 0)"
  using worker_inv_started [OF worker_reaches_inv [OF assms]] by blast

lemma first_step:
  "\<exists>k. worker_step calm (new_worker 0 validated_config new_engine) k \<and> wk_started k = [validated_spec]
    \<and> wk_repeatCount k = 0"
proof -
  let ?k = "new_worker 0 validated_config new_engine"
  obtain e where e: "start_spec calm 0 validated_spec ?k = Return (None, e)"
    using calm_start [OF validated_spec_startable interval_5(2)] by (auto simp: start_spec_def new_worker_def)
  have "worker_step calm ?k (started validated_spec True e (RunningSpec 0) ?k)"
    by (rule spec_started [OF _ _ _ e]) (simp_all add: new_worker_def example_config_def)
  moreover have "wk_started (started validated_spec True e (RunningSpec 0) ?k) = [validated_spec]"
    "wk_repeatCount (started validated_spec True e (RunningSpec 0) ?k) = 0"
    by (simp_all add: started_def new_worker_def)
  ultimately show ?thesis by blast
qed

theorem worker_follows_plan_witness:
  "\<exists>k. worker_reaches calm (new_worker 0 validated_config new_engine) k
    \<and> wk_started k = [validated_spec]
    \<and> (\<exists>n \<le> 1. plan amd64 example_policy [validated_spec] n 0 = [validated_spec])"
proof -
  obtain k where k: "worker_step calm (new_worker 0 validated_config new_engine) k"
    "wk_started k = [validated_spec]" "wk_repeatCount k = 0" using first_step by blast
  have r: "worker_reaches calm (new_worker 0 validated_config new_engine) k"
    by (rule worker_reaches_step [OF worker_reaches_refl k(1)])
  have "cfg_LoadTestSpecs validated_config = map Some [validated_spec]" by (simp add: example_config_def)
  from worker_follows_plan [OF r this] k r show ?thesis
    by (auto simp: calm_def example_config_def)
qed

text \<open>C7. A worker whose specs can all be started, the repeated ones included, is never stuck before it
  has finished: whatever the client answers, one of its steps is possible.\<close>

theorem worker_never_stuck:
  assumes "worker_reaches env (new_worker i c e) k" and "eg_loadTestSpec e = None"
    and "cfg_LoadTestSpecs c = map Some ls" and "all_startable (ee_impl env) c ls"
    and "wk_phase k \<notin> {Finished, Cleared}"
  shows "\<exists>k'. worker_step env k k'"
  by (rule worker_progress_lemma [OF assms])

lemma steady_startable: "all_startable amd64 steady_config [validated_spec]"
proof -
  have "ApplyMultipliers amd64 steady_policy validated_spec = validated_spec"
    by (rule ApplyMultipliers_one)
      (simp_all add: neutral_policy_def steady_policy_def exact_spec_def exact64_def example_defs)
  then have "scaled amd64 steady_policy validated_spec n = validated_spec" for n
    by (induction n) (simp_all add: scaled_def)
  moreover have "0 < sint (StatsInterval steady_config)"
    by (simp add: StatsInterval_def example_config_def Second_def)
  ultimately show ?thesis
    using validated_spec_startable by (simp add: all_startable_def) (simp add: example_config_def)
qed

theorem worker_never_stuck_witness: "\<exists>k'. worker_step calm (new_worker 0 steady_config new_engine) k'"
proof -
  have "eg_loadTestSpec new_engine = None" using new_engine_idle by (simp add: idle_def)
  moreover have "cfg_LoadTestSpecs steady_config = map Some [validated_spec]" by (simp add: example_config_def)
  moreover have "all_startable (ee_impl calm) steady_config [validated_spec]"
    using steady_startable by (simp add: calm_def)
  ultimately show ?thesis
    by (rule worker_never_stuck [OF worker_reaches_refl]) (simp add: new_worker_def)
qed

end
