(* ===== verification/Control_Plane.thy ===== *)
theory Control_Plane
  imports Config_Json Collector
begin

text \<open>
  The control plane (\<open>internal/controlplane/types.go\<close> and \<open>handlers.go\<close>): the server's state,
  its four handlers and the dispatch.  A request body is the JSON tree of its text, or nothing
  when the text is not JSON.  The router turns a panic of a handler into a response of status
  500 (its middleware \<open>Recoverer\<close>).
\<close>

section \<open>State and responses\<close>

text \<open>
  What has become of the \<open>http.Server\<close> that \<open>Start\<close> has made.  While it drains it accepts no
  connection, but handlers that are under way may still finish.
\<close>

datatype listener = ServerListening | ServerFailed | ServerDraining | ServerClosed

record HTTPServer =
  hs_config :: "Config option"
  hs_hash :: string
  hs_configSendChannel :: "Config list"
  hs_collector :: "Collector option"
  hs_server :: "listener option"
  hs_port :: go_int

datatype http_failure =
    InvalidJSON | InvalidConfiguration config_error | ServerBusy | NoConfiguration
  | EncodingFailed | CollectorUnavailable | InvalidLimit

text \<open>What a handler writes to the body, in order.\<close>

datatype chunk = ErrorText http_failure | JsonText json

record response =
  rs_status :: nat
  rs_body :: "chunk list"

definition http_error :: "http_failure \<Rightarrow> nat \<Rightarrow> response" where
  "http_error e status = \<lparr>rs_status = status, rs_body = [ErrorText e]\<rparr>"

definition http_json :: "json \<Rightarrow> response" where
  "http_json j = \<lparr>rs_status = 200, rs_body = [JsonText j]\<rparr>"

definition NewHTTPServer :: "go_int \<Rightarrow> HTTPServer" where
  "NewHTTPServer port =
     \<lparr>hs_config = None, hs_hash = [], hs_configSendChannel = [], hs_collector = None,
      hs_server = None, hs_port = port\<rparr>"

text \<open>The hash of a nil configuration is the hash of \<open>null\<close>.\<close>

definition SetConfig_server :: "(json \<Rightarrow> string) \<Rightarrow> Config option \<Rightarrow> HTTPServer \<Rightarrow> HTTPServer" where
  "SetConfig_server digest cfg h = h\<lparr>hs_config := cfg, hs_hash := Config_Hash digest cfg\<rparr>"

definition SetCollector :: "Collector option \<Rightarrow> HTTPServer \<Rightarrow> HTTPServer" where
  "SetCollector collector h = h\<lparr>hs_collector := collector\<rparr>"

definition getConfig :: "HTTPServer \<Rightarrow> Config option" where
  "getConfig h = hs_config h"

definition getCollector :: "HTTPServer \<Rightarrow> Collector option" where
  "getCollector h = hs_collector h"

declare getConfig_def [simp] getCollector_def [simp]

text \<open>The channel holds 100 configurations; a send that finds it full for five seconds gives up.\<close>

definition channel_capacity :: nat where
  "channel_capacity = 100"

section \<open>Starting and stopping\<close>

text \<open>
  \<open>Start\<close> makes the server and serves until it is shut down; it has returned when it has an error.
  \<open>Stop\<close> closes the listener and waits for the handlers under way: it returns when the last of
  them has (\<open>drained\<close>), or with an error after five seconds, and they go on.  A server that is shut
  down never listens again.
\<close>

datatype serve_error = ListenFailed | ShutdownDeadline

definition HTTPServer_Start :: "bool \<Rightarrow> HTTPServer \<Rightarrow> serve_error option \<times> HTTPServer" where
  "HTTPServer_Start binds h =
     (if binds then (None, h\<lparr>hs_server := Some ServerListening\<rparr>)
      else (Some ListenFailed, h\<lparr>hs_server := Some ServerFailed\<rparr>))"

definition HTTPServer_Stop :: "bool \<Rightarrow> HTTPServer \<Rightarrow> serve_error option \<times> HTTPServer" where
  "HTTPServer_Stop drained h =
     (case hs_server h of
        None \<Rightarrow> (None, h)
      | Some l \<Rightarrow>
          (if l \<in> {ServerListening, ServerDraining} \<and> \<not> drained
           then (Some ShutdownDeadline, h\<lparr>hs_server := Some ServerDraining\<rparr>)
           else (None, h\<lparr>hs_server := Some ServerClosed\<rparr>)))"

text \<open>Whether a handler can finish.\<close>

definition handles :: "HTTPServer \<Rightarrow> bool" where
  "handles h \<longleftrightarrow> hs_server h = Some ServerListening \<or> hs_server h = Some ServerDraining"

section \<open>Handlers\<close>

definition update_response :: "(json \<Rightarrow> string) \<Rightarrow> bool \<Rightarrow> Config \<Rightarrow> response" where
  "update_response digest queued cfg =
     http_json (JObject [(''hash'', JString (Config_Hash digest (Some cfg))), (''queued'', JBool queued)])"

definition handleConfigUpdate ::
  "(json \<Rightarrow> string) \<Rightarrow> json option \<Rightarrow> HTTPServer \<Rightarrow> (unit, response \<times> HTTPServer) outcome" where
  "handleConfigUpdate digest body h =
     (case Option.bind body dec_Config of
        None \<Rightarrow> Return (http_error InvalidJSON 400, h)
      | Some cfg0 \<Rightarrow>
          (case Config_Validate cfg0 of
             Panic \<Rightarrow> Panic
           | Error (e, _) \<Rightarrow> Return (http_error (InvalidConfiguration e) 400, h)
           | Return cfg \<Rightarrow>
               (if Config_Equals digest (Some cfg) (getConfig h)
                then Return (update_response digest False cfg, h)
                else if channel_capacity \<le> length (hs_configSendChannel h)
                then Return (http_error ServerBusy 503, h)
                else Return (update_response digest True cfg,
                       h\<lparr>hs_configSendChannel := hs_configSendChannel h @ [cfg]\<rparr>))))"

text \<open>Encoding a configuration fails when a multiplier is not finite.\<close>

definition encodable :: "Config \<Rightarrow> bool" where
  "encodable c \<longleftrightarrow> (let rp = cfg_RepeatPolicy c in list_all finite_float
     [sm_Count (rp_Streams rp), sm_Replicas (rp_Streams rp), sm_MessagesPerStreamPerSecond (rp_Streams rp),
      bm_Duration (rp_Behavior rp), bm_RampUp (rp_Behavior rp),
      cm_AckWait (rp_Consumers rp), cm_MaxAckPending (rp_Consumers rp), cm_ConsumeDelay (rp_Consumers rp),
      cm_CountPerStream (rp_Consumers rp), pm_CountPerStream (rp_Publishers rp),
      pm_PublishRate (rp_Publishers rp), pm_MessageSizeBytes (rp_Publishers rp)])"

definition handleConfigGet :: "HTTPServer \<Rightarrow> response" where
  "handleConfigGet h =
     (case getConfig h of
        None \<Rightarrow> http_error NoConfiguration 404
      | Some cfg \<Rightarrow> if encodable cfg then http_json (json_Config cfg) else http_error EncodingFailed 500)"

text \<open>A Go map is encoded with its keys in order.\<close>

definition handleCheckHealth :: "(json \<Rightarrow> string) \<Rightarrow> Time \<Rightarrow> HTTPServer \<Rightarrow> response" where
  "handleCheckHealth digest now h =
     http_json (JObject
       ((case getConfig h of
           None \<Rightarrow> [(''config_loaded'', JBool False)]
         | Some cfg \<Rightarrow> [(''config_hash'', JString (Config_Hash digest (Some cfg))),
                        (''config_loaded'', JBool True)])
        @ [(''service'', JString ''nats-load-tester''),
           (''stats_collector'',
              JString (if getCollector h \<noteq> None then ''available'' else ''not_available'')),
           (''status'', JString ''healthy''),
           (''time'', JTime now)]))"

text \<open>
  An invalid limit writes an error but does not return, so the history follows it; the status
  is that of the first write.
\<close>

definition handleGetStatsHistory ::
  "(LoadTestSpec \<Rightarrow> int \<Rightarrow> Time option \<Rightarrow> 'st \<Rightarrow> 'e + StatsEntry list) \<Rightarrow> 'st option \<Rightarrow> string
    \<Rightarrow> HTTPServer \<Rightarrow> response" where
  "handleGetStatsHistory getStats storage limitStr h =
     (case getCollector h of
        None \<Rightarrow> http_error CollectorUnavailable 503
      | Some collector \<Rightarrow>
          (let parsed = (if limitStr = [] then Some 0 else ParseInt limitStr);
               limit = (case parsed of None \<Rightarrow> 0 | Some n \<Rightarrow> sint n);
               errors = (if parsed = None then [ErrorText InvalidLimit] else []);
               history = GetHistory getStats limit collector storage;
               body = (if list_all marshalable history then JsonText (JArray (map json_Stats history))
                       else ErrorText EncodingFailed)
           in \<lparr>rs_status = (if parsed = None then 400
                            else if list_all marshalable history then 200 else 500),
               rs_body = errors @ [body]\<rparr>))"

section \<open>Dispatch\<close>

datatype request = PostConfig "json option" | GetConfig | GetHealthcheck | GetStats string

text \<open>The four routes; a handler that panics leaves the server as it was.\<close>

definition serve ::
  "(json \<Rightarrow> string) \<Rightarrow> (LoadTestSpec \<Rightarrow> int \<Rightarrow> Time option \<Rightarrow> 'st \<Rightarrow> 'e + StatsEntry list) \<Rightarrow> Time
    \<Rightarrow> 'st option \<Rightarrow> request \<Rightarrow> HTTPServer \<Rightarrow> response \<times> HTTPServer" where
  "serve digest getStats now storage r h =
     (case r of
        PostConfig body \<Rightarrow>
          (case handleConfigUpdate digest body h of
             Return result \<Rightarrow> result
           | _ \<Rightarrow> (\<lparr>rs_status = 500, rs_body = []\<rparr>, h))
      | GetConfig \<Rightarrow> (handleConfigGet h, h)
      | GetHealthcheck \<Rightarrow> (handleCheckHealth digest now h, h)
      | GetStats limit \<Rightarrow> (handleGetStatsHistory getStats storage limit h, h))"

section \<open>What a request can change\<close>

lemma handleConfigUpdate_channel:
  assumes "handleConfigUpdate digest body h = Return (r, h')" and "h' \<noteq> h"
  shows "\<exists>cfg. config_wf cfg \<and> h' = h\<lparr>hs_configSendChannel := hs_configSendChannel h @ [cfg]\<rparr>
    \<and> length (hs_configSendChannel h) < channel_capacity"
  using assms
  by (auto simp: handleConfigUpdate_def not_le dest: Config_Validate_ReturnD
      split: option.splits outcome.splits if_splits)

lemma serve_changes:
  assumes "serve digest getStats now storage r h = (resp, h')" and "h' \<noteq> h"
  shows "\<exists>cfg. config_wf cfg \<and> h' = h\<lparr>hs_configSendChannel := hs_configSendChannel h @ [cfg]\<rparr>
    \<and> length (hs_configSendChannel h) < channel_capacity"
proof -
  obtain body where r: "r = PostConfig body" using assms by (cases r) (auto simp: serve_def)
  then have "handleConfigUpdate digest body h = Return (resp, h')"
    using assms by (auto simp: serve_def split: outcome.splits)
  from handleConfigUpdate_channel [OF this assms(2)] show ?thesis .
qed

end
