(* ===== verification/Manager.thy ===== *)
theory Manager
  imports Worker Control_Plane
begin

text \<open>
  The manager (\<open>internal/loadtest/manager.go\<close>) as a step relation: the loop that receives
  configurations, the mutex it takes for each, the worker goroutine that releases it, and the
  HTTP server whose requests interleave with all of these.  Pointers the server shares with
  the worker (the configuration and the collector) are updated with it.
\<close>

section \<open>State\<close>

text \<open>The loop waits in its \<open>select\<close>, waits for the mutex with a configuration received, or has returned.\<close>

datatype loop_phase = Listening | Locking Config | Returned

record ('w, 'st) Manager =
  mg_mutex :: bool
  mg_server :: HTTPServer
  mg_mode :: string
  mg_phase :: loop_phase
  mg_workers :: "('w, 'st) Worker list"
  mg_lastRun :: "nat option"
  mg_nextRun :: nat
  mg_ctxDone :: bool
  mg_world :: 'w

definition NewManager :: "go_int \<Rightarrow> string \<Rightarrow> 'w \<Rightarrow> ('w, 'st) Manager" where
  "NewManager port mode w =
     \<lparr>mg_mutex = False, mg_server = NewHTTPServer port, mg_mode = mode, mg_phase = Listening,
      mg_workers = [], mg_lastRun = None, mg_nextRun = 0, mg_ctxDone = False, mg_world = w\<rparr>"

text \<open>
  The storage and the request handling the manager is given.  The world includes the disk: while a
  run holds the mutex nobody else uses its storage, so what it has written is in the storage value
  until the storage is closed.
\<close>

record ('w, 'st, 'e) manager_env =
  me_engine :: "('w, 'st, 'e) engine_env"
  me_createStorage :: "StorageConfig \<Rightarrow> 'w \<Rightarrow> 'st option \<times> 'w"
  me_closeStorage :: "StorageConfig \<Rightarrow> 'st \<Rightarrow> 'w \<Rightarrow> 'w"
  me_getStats :: "LoadTestSpec \<Rightarrow> int \<Rightarrow> Time option \<Rightarrow> 'st \<Rightarrow> 'e + StatsEntry list"

abbreviation channel :: "('w, 'st) Manager \<Rightarrow> Config list" where
  "channel m \<equiv> hs_configSendChannel (mg_server m)"

section \<open>Steps\<close>

text \<open>Calling the cancel function of the last run.\<close>

definition cancel_last :: "('w, 'st) Manager \<Rightarrow> ('w, 'st) Manager" where
  "cancel_last m = m\<lparr>mg_workers :=
     map (\<lambda>k. if mg_lastRun m = Some (wk_id k) then k\<lparr>wk_cancelled := True\<rparr> else k) (mg_workers m)\<rparr>"

definition pop_channel :: "('w, 'st) Manager \<Rightarrow> ('w, 'st) Manager" where
  "pop_channel m = m\<lparr>mg_server := (mg_server m)\<lparr>hs_configSendChannel := tl (channel m)\<rparr>\<rparr>"

text \<open>The loop that empties the channel keeps the configuration received last.\<close>

definition newest_config :: "Config \<Rightarrow> ('w, 'st) Manager \<Rightarrow> Config" where
  "newest_config cfg m = last (cfg # channel m)"

definition enables_publishers :: "string \<Rightarrow> bool" where
  "enables_publishers mode \<longleftrightarrow> mode = ''both'' \<or> mode = ''publish''"

definition enables_consumers :: "string \<Rightarrow> bool" where
  "enables_consumers mode \<longleftrightarrow> mode = ''both'' \<or> mode = ''consume''"

text \<open>The rest of the receiving case, run with the mutex held, for each result of creating the storage.\<close>

definition install_config :: "(json \<Rightarrow> string) \<Rightarrow> Config \<Rightarrow> ('w, 'st) Manager \<Rightarrow> ('w, 'st) Manager" where
  "install_config digest cfg m =
     m\<lparr>mg_server := (SetConfig_server digest (Some cfg) (mg_server m))\<lparr>hs_configSendChannel := []\<rparr>,
       mg_lastRun := Some (mg_nextRun m), mg_nextRun := Suc (mg_nextRun m), mg_phase := Listening\<rparr>"

definition launch :: "Time \<Rightarrow> Config \<Rightarrow> 'st \<Rightarrow> ('w, 'st) Manager \<Rightarrow> ('w, 'st) Manager" where
  "launch now cfg st m =
     (let collector = NewCollector now;
          engine = NewEngine collector (Some st) (enables_publishers (mg_mode m))
                     (enables_consumers (mg_mode m)) (mg_world m)
      in m\<lparr>mg_server := SetCollector (Some collector) (mg_server m),
           mg_workers := mg_workers m @ [new_worker (mg_nextRun m - 1) cfg engine]\<rparr>)"

definition locked_case ::
  "('w, 'st, 'e) manager_env \<Rightarrow> Time \<Rightarrow> Config \<Rightarrow> ('w, 'st) Manager \<Rightarrow> ('w, 'st) Manager" where
  "locked_case env now cfg0 m0 =
     (let cfg = newest_config cfg0 m0;
          m = install_config (ee_digest (me_engine env)) cfg (m0\<lparr>mg_mutex := True\<rparr>)
      in case me_createStorage env (cfg_Storage cfg) (mg_world m) of
           (None, w) \<Rightarrow> m\<lparr>mg_mutex := False, mg_world := w\<rparr>
         | (Some st, w) \<Rightarrow> launch now cfg st (m\<lparr>mg_world := w\<rparr>))"

text \<open>The server sees the configuration and the collector of the worker through its pointers.\<close>

definition share :: "('w, 'st) Worker \<Rightarrow> HTTPServer \<Rightarrow> HTTPServer" where
  "share k h = h\<lparr>hs_config := map_option (\<lambda>_. wk_config k) (hs_config h),
                 hs_collector := map_option (\<lambda>_. eg_collector (wk_engine k)) (hs_collector h)\<rparr>"

text \<open>
  The deferred calls: the server forgets the run, then the engine stops, the storage is closed and
  the mutex is released.
\<close>

definition clear_run :: "(json \<Rightarrow> string) \<Rightarrow> nat \<Rightarrow> ('w, 'st) Manager \<Rightarrow> ('w, 'st) Manager" where
  "clear_run digest i m =
     m\<lparr>mg_server := SetConfig_server digest None (SetCollector None (mg_server m)),
       mg_workers := (mg_workers m)[i := (mg_workers m ! i)\<lparr>wk_phase := Cleared\<rparr>]\<rparr>"

definition release_run ::
  "('w, 'st, 'e) manager_env \<Rightarrow> nat \<Rightarrow> ('w, 'st) Engine \<Rightarrow> ('w, 'st) Manager \<Rightarrow> ('w, 'st) Manager" where
  "release_run env i e m =
     m\<lparr>mg_mutex := False,
       mg_world := (case eg_storage e of
          None \<Rightarrow> eg_world e
        | Some st \<Rightarrow> me_closeStorage env (cfg_Storage (wk_config (mg_workers m ! i))) st (eg_world e)),
       mg_workers := take i (mg_workers m) @ drop (Suc i) (mg_workers m)\<rparr>"

text \<open>The context of every run is made from the one the command cancels.\<close>

definition cancel_context :: "('w, 'st) Manager \<Rightarrow> ('w, 'st) Manager" where
  "cancel_context m = m\<lparr>mg_ctxDone := True, mg_workers := map (\<lambda>k. k\<lparr>wk_cancelled := True\<rparr>) (mg_workers m)\<rparr>"

text \<open>The storage behind the collector the server shows is the one of the run.\<close>

definition served_storage :: "('w, 'st) Manager \<Rightarrow> 'st option" where
  "served_storage m = (case mg_workers m of [] \<Rightarrow> None | k # _ \<Rightarrow> eg_storage (wk_engine k))"

text \<open>
  Shutting the server down takes two steps: the listener is closed (\<open>http_stopping\<close>), and the call
  returns or, after its deadline, the last handler does (\<open>http_stopped\<close>).  In between the handlers
  that are under way may still send a configuration.
\<close>

inductive manager_step :: "('w, 'st, 'e) manager_env \<Rightarrow> ('w, 'st) Manager \<Rightarrow> ('w, 'st) Manager \<Rightarrow> bool"
  for env where
  http_started:
    "hs_server (mg_server m) = None \<Longrightarrow> HTTPServer_Start binds (mg_server m) = (err, h) \<Longrightarrow>
     manager_step env m (m\<lparr>mg_server := h\<rparr>)"
| http_stopping:
    "mg_ctxDone m \<Longrightarrow> hs_server (mg_server m) = Some ServerListening \<Longrightarrow>
     manager_step env m (m\<lparr>mg_server := (mg_server m)\<lparr>hs_server := Some ServerDraining\<rparr>\<rparr>)"
| http_stopped:
    "mg_ctxDone m \<Longrightarrow> hs_server (mg_server m) \<noteq> None \<Longrightarrow> HTTPServer_Stop drained (mg_server m) = (err, h) \<Longrightarrow>
     manager_step env m (m\<lparr>mg_server := h\<rparr>)"
| request_served:
    "handles (mg_server m) \<Longrightarrow>
     serve (ee_digest (me_engine env)) (me_getStats env) now (served_storage m) r (mg_server m) = (resp, h) \<Longrightarrow>
     manager_step env m (m\<lparr>mg_server := h\<rparr>)"
| config_received:
    "mg_phase m = Listening \<Longrightarrow> channel m = cfg # rest \<Longrightarrow>
     manager_step env m ((cancel_last (pop_channel m))\<lparr>mg_phase := Locking cfg\<rparr>)"
| config_locked:
    "mg_phase m = Locking cfg \<Longrightarrow> \<not> mg_mutex m \<Longrightarrow> manager_step env m (locked_case env now cfg m)"
| worker_moved:
    "i < length (mg_workers m) \<Longrightarrow> worker_step (me_engine env) (mg_workers m ! i) k \<Longrightarrow>
     manager_step env m (m\<lparr>mg_server := share k (mg_server m), mg_workers := (mg_workers m)[i := k]\<rparr>)"
| run_cleared:
    "i < length (mg_workers m) \<Longrightarrow> wk_phase (mg_workers m ! i) = Finished \<Longrightarrow>
     manager_step env m (clear_run (ee_digest (me_engine env)) i m)"
| run_released:
    "i < length (mg_workers m) \<Longrightarrow> wk_phase (mg_workers m ! i) = Cleared \<Longrightarrow>
     Engine_Stop (me_engine env) now g (wk_engine (mg_workers m ! i)) = Return (r, e) \<Longrightarrow>
     manager_step env m (release_run env i e m)"
| context_cancelled:
    "manager_step env m (cancel_context m)"
| loop_returned:
    "mg_phase m = Listening \<Longrightarrow> mg_ctxDone m \<Longrightarrow>
     manager_step env m ((cancel_last m)\<lparr>mg_phase := Returned\<rparr>)"

inductive_cases manager_stepE: "manager_step env m m'"

inductive manager_reaches :: "('w, 'st, 'e) manager_env \<Rightarrow> ('w, 'st) Manager \<Rightarrow> ('w, 'st) Manager \<Rightarrow> bool"
  for env m0 where
  manager_reaches_refl: "manager_reaches env m0 m0"
| manager_reaches_step: "manager_reaches env m0 m \<Longrightarrow> manager_step env m m' \<Longrightarrow> manager_reaches env m0 m'"

section \<open>The invariant\<close>

text \<open>What a run shares with the server, until it is cleared.\<close>

definition shared :: "HTTPServer \<Rightarrow> ('w, 'st) Worker \<Rightarrow> bool" where
  "shared h k \<longleftrightarrow>
     (if wk_phase k = Cleared then hs_config h = None \<and> hs_collector h = None
      else hs_config h = Some (wk_config k) \<and> hs_collector h = Some (eg_collector (wk_engine k)))"

definition queue_ok :: "Config list \<Rightarrow> bool" where
  "queue_ok cs \<longleftrightarrow> length cs \<le> channel_capacity \<and> (\<forall>c \<in> set cs. config_wf c)"

definition manager_inv :: "('w, 'st) Manager \<Rightarrow> bool" where
  "manager_inv m \<longleftrightarrow>
     length (mg_workers m) = (if mg_mutex m then 1 else 0)
   \<and> (\<forall>k \<in> set (mg_workers m). shared (mg_server m) k \<and> mg_lastRun m = Some (wk_id k))
   \<and> (mg_workers m = [] \<longrightarrow> hs_collector (mg_server m) = None)
   \<and> queue_ok (channel m)
   \<and> (\<forall>cfg. mg_phase m = Locking cfg \<longrightarrow> config_wf cfg \<and> (\<forall>k \<in> set (mg_workers m). wk_cancelled k))
   \<and> (\<forall>i. mg_lastRun m = Some i \<longrightarrow> i < mg_nextRun m)"

lemma manager_inv_new: "manager_inv (NewManager port mode w)"
  by (simp add: manager_inv_def NewManager_def NewHTTPServer_def queue_ok_def)

lemma one_worker:
  assumes "manager_inv m" and "i < length (mg_workers m)"
  shows "i = 0" and "\<exists>k. mg_workers m = [k]" and "mg_mutex m"
  using assms by (auto simp: manager_inv_def length_Suc_conv split: if_splits)

lemma worker_step_cleared: "worker_step env k k' \<Longrightarrow> wk_phase k \<noteq> Cleared \<and> wk_phase k' \<noteq> Cleared"
  by (erule worker_step.cases) (auto simp: started_def next_spec_def split: if_splits)

lemma worker_step_frame: "worker_step env k k' \<Longrightarrow> wk_id k' = wk_id k \<and> wk_cancelled k' = wk_cancelled k"
  by (erule worker_step.cases) (auto simp: started_def)

lemma manager_inv_locked:
  assumes inv: "manager_inv m" and phase: "mg_phase m = Locking cfg" "\<not> mg_mutex m"
  shows "manager_inv (locked_case env now cfg m)"
proof -
  have w: "mg_workers m = []" using inv phase by (simp add: manager_inv_def)
  have c: "hs_collector (mg_server m) = None" using inv w by (simp add: manager_inv_def)
  show ?thesis
    using phase w c
    by (auto simp: locked_case_def Let_def manager_inv_def install_config_def launch_def
        SetConfig_server_def SetCollector_def queue_ok_def shared_def new_worker_def NewEngine_def
        split: option.split prod.split)
qed

lemma manager_step_inv:
  assumes step: "manager_step env m m'" and inv: "manager_inv m"
  shows "manager_inv m'"
  using step
proof cases
  case (http_started binds err h)
  then show ?thesis using inv by (auto simp: HTTPServer_Start_def manager_inv_def queue_ok_def shared_def split: if_splits)
next
  case http_stopping
  then show ?thesis using inv by (auto simp: manager_inv_def queue_ok_def shared_def)
next
  case (http_stopped drained err h)
  then show ?thesis
    using inv by (auto simp: HTTPServer_Stop_def manager_inv_def queue_ok_def shared_def split: option.splits if_splits)
next
  case (request_served now r resp h)
  show ?thesis
  proof (cases "h = mg_server m")
    case True
    then show ?thesis using inv request_served by simp
  next
    case False
    obtain cfg where "config_wf cfg"
      "h = (mg_server m)\<lparr>hs_configSendChannel := channel m @ [cfg]\<rparr>" "length (channel m) < channel_capacity"
      using serve_changes [OF request_served(3) False] by auto
    then show ?thesis using inv request_served(1) by (auto simp: manager_inv_def queue_ok_def shared_def)
  qed
next
  case (config_received cfg rest)
  have "queue_ok (cfg # rest)" using inv config_received by (simp add: manager_inv_def)
  then show ?thesis
    using inv config_received
    by (auto simp: manager_inv_def queue_ok_def cancel_last_def pop_channel_def shared_def)
next
  case (config_locked cfg now)
  then show ?thesis by (simp add: manager_inv_locked [OF inv])
next
  case (worker_moved i k)
  obtain k0 where w: "mg_workers m = [k0]" and i: "i = 0" using one_worker [OF inv worker_moved(2)] by auto
  have s: "worker_step (me_engine env) k0 k" using worker_moved w i by simp
  have "shared (mg_server m) k0" using inv w by (simp add: manager_inv_def)
  then have "shared (share k (mg_server m)) k"
    using worker_step_cleared [OF s] by (simp add: shared_def share_def)
  then show ?thesis
    using inv worker_moved(1) w i worker_step_frame [OF s] by (auto simp: manager_inv_def share_def)
next
  case (run_cleared i)
  obtain k0 where w: "mg_workers m = [k0]" and i: "i = 0" using one_worker [OF inv run_cleared(2)] by auto
  then show ?thesis
    using inv run_cleared(1)
    by (auto simp: manager_inv_def clear_run_def SetConfig_server_def SetCollector_def shared_def)
next
  case (run_released i now g r e)
  obtain k0 where w: "mg_workers m = [k0]" and i: "i = 0" using one_worker [OF inv run_released(2)] by auto
  then show ?thesis
    using inv run_released(1,3) by (auto simp: manager_inv_def release_run_def shared_def)
next
  case context_cancelled
  then show ?thesis using inv by (auto simp: manager_inv_def shared_def cancel_context_def)
next
  case loop_returned
  then show ?thesis using inv by (auto simp: manager_inv_def shared_def cancel_last_def)
qed

lemma manager_reaches_inv:
  "manager_reaches env (NewManager port mode w) m \<Longrightarrow> manager_inv m"
  by (induction rule: manager_reaches.induct) (auto intro: manager_inv_new manager_step_inv)

lemma locked_case_frame:
  "mg_phase (locked_case env now cfg m) = Listening"
  "hs_config (mg_server (locked_case env now cfg m)) = Some (newest_config cfg m)"
  by (simp_all add: locked_case_def install_config_def launch_def SetConfig_server_def SetCollector_def Let_def
      split: option.split prod.split)

section \<open>Runs of configurations that cannot be stored\<close>

text \<open>
  When the storage cannot be created, the run ends but the server keeps the configuration, so
  the same configuration is taken for one that is already active.
\<close>

lemma locked_case_no_storage:
  assumes "me_createStorage env (cfg_Storage (newest_config cfg m)) (mg_world m) = (None, w)"
  shows "mg_workers (locked_case env now cfg m) = mg_workers m"
    and "mg_mutex (locked_case env now cfg m) = False"
  using assms by (simp_all add: locked_case_def install_config_def SetConfig_server_def Let_def split: prod.splits)

lemma repost_not_queued:
  assumes "hs_config h = Some cfg" and "config_wf cfg" and "policy_floats (cfg_RepeatPolicy cfg)"
  shows "handleConfigUpdate digest (Some (json_Config cfg)) h = Return (update_response digest False cfg, h)"
  using assms
  by (simp add: handleConfigUpdate_def dec_Config_json_lemma Config_Validate_id Config_Equals_def)

section \<open>Progress of the loop\<close>

text \<open>A blocked loop can take the mutex as soon as the cancelled run has been released.\<close>

lemma locking_progress:
  assumes "mg_phase m = Locking cfg" and "mg_workers m = []" and "manager_inv m"
  shows "manager_step env m (locked_case env now cfg m)"
  using assms by (intro config_locked) (simp_all add: manager_inv_def split: if_splits)

end
