(* ===== verification/Main_Command.thy ===== *)
theory Main_Command
  imports Manager File_Storage_Correct Badger_Correct
begin

text \<open>
  The command (\<open>cmd/load-tester/main.go\<close>) and the helpers of the manager
  (\<open>internal/loadtest/utils.go\<close>): the choice of the storage, the default configuration, the log
  level and the checks of the arguments.  The file system and the database are arguments.
\<close>

section \<open>Storage\<close>

text \<open>The two implementations of the interface \<open>Storage\<close>.\<close>

datatype 'db storage = BadgerSt "'db BadgerStorage" | FileSt FileStorage

datatype create_error = BadgerFailed badger_error | FileFailed file_error | StorageTypeUnknown string

text \<open>What opening a path yields: whether it is the standard output, whether it can be opened, its lines.\<close>

record file_view =
  fv_stdout :: bool
  fv_opens :: bool
  fv_lines :: "line list"

definition createStorage ::
  "'db badger \<Rightarrow> (json \<Rightarrow> nat) \<Rightarrow> (string \<Rightarrow> file_view) \<Rightarrow> StorageConfig \<Rightarrow> create_error + 'db storage" where
  "createStorage api text_length files cfg =
     (let open_file = (\<lambda>path.
            case NewFileStorage text_length (fv_stdout (files path)) (fv_opens (files path)) (fv_lines (files path)) of
              Inl e \<Rightarrow> Inl (FileFailed e) | Inr f \<Rightarrow> Inr (FileSt f))
      in if sc_Type cfg = BadgerDBStorage
         then (case NewBadgerStorage api (sc_Path cfg) of
                 Inl e \<Rightarrow> Inl (BadgerFailed e) | Inr b \<Rightarrow> Inr (BadgerSt b))
         else if sc_Type cfg = FileStorageType then open_file (sc_Path cfg)
         else if sc_Type cfg = StdoutStorage then open_file ''/dev/stdout''
         else Inl (StorageTypeUnknown (sc_Type cfg)))"

text \<open>The calls of the interface, as the method table dispatches them.\<close>

datatype storage_error = BadgerErr badger_error | FileErr file_error

definition storage_WriteStats ::
  "'db badger \<Rightarrow> (json \<Rightarrow> string) \<Rightarrow> os_env \<Rightarrow> LoadTestSpec \<Rightarrow> Stats \<Rightarrow> 'db storage
    \<Rightarrow> storage_error option \<times> 'db storage" where
  "storage_WriteStats api digest env spec s st =
     (case st of
        BadgerSt b \<Rightarrow> (case BadgerStorage_WriteStats api digest spec s b of
                         (e, b') \<Rightarrow> (map_option BadgerErr e, BadgerSt b'))
      | FileSt f \<Rightarrow> (case FileStorage_WriteStats digest env spec s f of
                       (e, f') \<Rightarrow> (map_option FileErr e, FileSt f')))"

definition storage_WriteFailure ::
  "'db badger \<Rightarrow> (json \<Rightarrow> string) \<Rightarrow> os_env \<Rightarrow> LoadTestSpec \<Rightarrow> Stats \<Rightarrow> 'db storage
    \<Rightarrow> storage_error option \<times> 'db storage" where
  "storage_WriteFailure api digest env spec s st =
     (case st of
        BadgerSt b \<Rightarrow> (case BadgerStorage_WriteFailure api digest spec s b of
                         (e, b') \<Rightarrow> (map_option BadgerErr e, BadgerSt b'))
      | FileSt f \<Rightarrow> (case FileStorage_WriteFailure digest env spec s f of
                       (e, f') \<Rightarrow> (map_option FileErr e, FileSt f')))"

text \<open>A caller looks at the entries only when there is no error.\<close>

definition storage_GetStats ::
  "'db badger \<Rightarrow> (json \<Rightarrow> string) \<Rightarrow> LoadTestSpec \<Rightarrow> int \<Rightarrow> Time option \<Rightarrow> 'db storage
    \<Rightarrow> storage_error + StatsEntry list" where
  "storage_GetStats api digest spec limit since st =
     (case st of
        BadgerSt b \<Rightarrow> (case BadgerStorage_GetStats api digest spec limit since b of
                         (es, None) \<Rightarrow> Inr es | (es, Some e) \<Rightarrow> Inl (BadgerErr e))
      | FileSt f \<Rightarrow> (case FileStorage_GetStats digest spec limit since f of
                       Inl e \<Rightarrow> Inl (FileErr e) | Inr es \<Rightarrow> Inr es))"

section \<open>The default configuration\<close>

datatype load_error =
    ConfigNotFound | ConfigUnreadable | ConfigNotJson | ConfigInvalid config_error | ChannelTimeout

definition default_paths :: "string \<Rightarrow> string list" where
  "default_paths configFilePath =
     (if configFilePath \<noteq> [] then [configFilePath] else [])
     @ [''/config/config.default.json'', ''./config.default.json'', ''/app/config.default.json'']"

text \<open>\<open>stat\<close> says whether a path exists, \<open>read\<close> gives the text of a file, as a tree when it is JSON.\<close>

definition loadDefaultConfig ::
  "(string \<Rightarrow> bool) \<Rightarrow> (string \<Rightarrow> json option option) \<Rightarrow> string \<Rightarrow> Config list
    \<Rightarrow> (load_error, Config list) outcome" where
  "loadDefaultConfig stat read configFilePath ch =
     (case find (\<lambda>p. stat p) (default_paths configFilePath) of
        None \<Rightarrow> Error ConfigNotFound
      | Some path \<Rightarrow>
          (case read path of
             None \<Rightarrow> Error ConfigUnreadable
           | Some data \<Rightarrow>
               (case Option.bind data dec_Config of
                  None \<Rightarrow> Error ConfigNotJson
                | Some cfg0 \<Rightarrow>
                    (case Config_Validate cfg0 of
                       Panic \<Rightarrow> Panic
                     | Error (e, _) \<Rightarrow> Error (ConfigInvalid e)
                     | Return cfg \<Rightarrow>
                         (if channel_capacity \<le> length ch then Error ChannelTimeout
                          else Return (ch @ [cfg]))))))"

section \<open>Log levels\<close>

datatype LogLevel = DebugLevel | InfoLevel | WarnLevel | ErrorLevel

fun level_number :: "LogLevel \<Rightarrow> int" where
  "level_number DebugLevel = - 1"
| "level_number InfoLevel = 0"
| "level_number WarnLevel = 1"
| "level_number ErrorLevel = 2"

lemma level_number_inject [simp]: "level_number a = level_number b \<longleftrightarrow> a = b"
  by (cases a; cases b) simp_all

instantiation LogLevel :: linorder
begin

definition less_eq_LogLevel :: "LogLevel \<Rightarrow> LogLevel \<Rightarrow> bool" where
  "less_eq_LogLevel a b \<longleftrightarrow> level_number a \<le> level_number b"

definition less_LogLevel :: "LogLevel \<Rightarrow> LogLevel \<Rightarrow> bool" where
  "less_LogLevel a b \<longleftrightarrow> level_number a < level_number b"

instance
  by standard (auto simp: less_eq_LogLevel_def less_LogLevel_def)

end

definition SetupLogger :: "string \<Rightarrow> LogLevel option" where
  "SetupLogger level =
     (if level = ''debug'' then Some DebugLevel
      else if level = ''info'' then Some InfoLevel
      else if level = ''warn'' then Some WarnLevel
      else if level = ''error'' then Some ErrorLevel
      else None)"

text \<open>A logger of a level writes the messages of that level and above.\<close>

definition level_enabled :: "LogLevel \<Rightarrow> LogLevel \<Rightarrow> bool" where
  "level_enabled logger entry \<longleftrightarrow> logger \<le> entry"

section \<open>The command\<close>

record cliArgs =
  ca_configFilePath :: string
  ca_port :: go_int
  ca_logLevel :: string
  ca_useDefaultConfig :: bool
  ca_mode :: string

definition default_args :: cliArgs where
  "default_args = \<lparr>ca_configFilePath = [], ca_port = 9481, ca_logLevel = ''info'',
     ca_useDefaultConfig = False, ca_mode = ''both''\<rparr>"

datatype run_error = ArgsNil | InvalidMode string | InvalidLogLevel string

definition valid_mode :: "string \<Rightarrow> bool" where
  "valid_mode mode \<longleftrightarrow> mode = ''publish'' \<or> mode = ''consume'' \<or> mode = ''both''"

text \<open>\<open>run\<close> up to the start of the manager; a default configuration that cannot be loaded is logged only.\<close>

definition run ::
  "(string \<Rightarrow> bool) \<Rightarrow> (string \<Rightarrow> json option option) \<Rightarrow> 'w \<Rightarrow> cliArgs option
    \<Rightarrow> (run_error, ('w, 'st) Manager) outcome" where
  "run stat read w args =
     (case args of
        None \<Rightarrow> Error ArgsNil
      | Some a \<Rightarrow>
          (if \<not> valid_mode (ca_mode a) then Error (InvalidMode (ca_mode a))
           else (case SetupLogger (ca_logLevel a) of
             None \<Rightarrow> Error (InvalidLogLevel (ca_logLevel a))
           | Some level \<Rightarrow>
               (let m = NewManager (ca_port a) (ca_mode a) w
                in if \<not> ca_useDefaultConfig a then Return m
                   else (case loadDefaultConfig stat read (ca_configFilePath a) (channel m) of
                           Panic \<Rightarrow> Panic
                         | Error e \<Rightarrow> Return m
                         | Return ch \<Rightarrow>
                             Return (m\<lparr>mg_server := (mg_server m)\<lparr>hs_configSendChannel := ch\<rparr>\<rparr>))))))"

section \<open>Facts\<close>

lemma loadDefaultConfig_ReturnD:
  assumes "loadDefaultConfig stat read p ch = Return ch'"
  shows "\<exists>cfg. config_wf cfg \<and> ch' = ch @ [cfg] \<and> length ch < channel_capacity"
  using assms
  by (auto simp: loadDefaultConfig_def not_le dest: Config_Validate_ReturnD
      split: option.splits outcome.splits if_splits prod.splits)

lemma run_manager_inv:
  assumes "run stat read w args = Return (m :: ('w, 'st) Manager)"
  shows "manager_inv m \<and> mg_workers m = [] \<and> valid_mode (mg_mode m)"
proof -
  obtain a level where a: "args = Some a" "valid_mode (ca_mode a)" "SetupLogger (ca_logLevel a) = Some level"
    using assms by (auto simp: run_def split: option.splits if_splits)
  let ?m = "NewManager (ca_port a) (ca_mode a) w :: ('w, 'st) Manager"
  have base: "manager_inv ?m" "mg_workers ?m = []" "mg_mode ?m = ca_mode a" "channel ?m = []"
    using manager_inv_new by (simp_all add: NewManager_def NewHTTPServer_def)
  let ?load = "loadDefaultConfig stat read (ca_configFilePath a) []"
  have m: "(Return m :: (run_error, ('w, 'st) Manager) outcome) = (if ca_useDefaultConfig a
      then (case ?load of Panic \<Rightarrow> Panic | Error e \<Rightarrow> Return ?m
            | Return ch \<Rightarrow> Return (?m\<lparr>mg_server := (mg_server ?m)\<lparr>hs_configSendChannel := ch\<rparr>\<rparr>))
      else Return ?m)"
    using assms a by (cases "ca_useDefaultConfig a") (simp_all add: run_def Let_def base(4))
  show ?thesis
  proof (cases "ca_useDefaultConfig a \<and> (\<exists>ch. ?load = Return ch)")
    case True
    then obtain ch where ch: "?load = Return ch" by auto
    then obtain cfg where "config_wf cfg" "ch = [cfg]" using loadDefaultConfig_ReturnD [OF ch] by auto
    moreover have "m = ?m\<lparr>mg_server := (mg_server ?m)\<lparr>hs_configSendChannel := ch\<rparr>\<rparr>" using m ch True by simp
    ultimately show ?thesis
      using base a(2) by (auto simp: manager_inv_def queue_ok_def channel_capacity_def shared_def)
  next
    case False
    then have "m = ?m" using m by (auto split: outcome.splits if_splits)
    with base a show ?thesis by simp
  qed
qed

lemma createStorage_known:
  assumes "config_wf c"
  shows "createStorage api tlen files (cfg_Storage c) \<noteq> Inl (StorageTypeUnknown s)"
  using assms by (auto simp: createStorage_def config_wf_def config_constants Let_def split: sum.splits)

end
