(* ===== verification/Run_Storage.thy ===== *)
theory Run_Storage
  imports Main_Command
begin

text \<open>
  The storages of successive runs on one machine: what a run has written is what the next run
  opens.  The world of the manager is here the machine: the network, the files and the databases.
\<close>

section \<open>The machine\<close>

text \<open>\<open>ma_databases\<close> is what opening a database at a path yields; a database in memory is opened by the library.\<close>

record ('n, 'db) machine =
  ma_network :: 'n
  ma_files :: "string \<Rightarrow> file_view"
  ma_databases :: "string \<Rightarrow> 'db option"

definition badger_on :: "'db badger \<Rightarrow> ('n, 'db) machine \<Rightarrow> 'db badger" where
  "badger_on api w = api
     \<lparr>bd_open := (\<lambda>path inMemory. if inMemory then bd_open api path True else ma_databases w path)\<rparr>"

definition storage_path :: "StorageConfig \<Rightarrow> string" where
  "storage_path sc = (if sc_Type sc = StdoutStorage then ''/dev/stdout'' else sc_Path sc)"

definition create_on ::
  "'db badger \<Rightarrow> (json \<Rightarrow> nat) \<Rightarrow> StorageConfig \<Rightarrow> ('n, 'db) machine
    \<Rightarrow> 'db storage option \<times> ('n, 'db) machine" where
  "create_on api text_length sc w =
     (case createStorage (badger_on api w) text_length (ma_files w) sc of
        Inl e \<Rightarrow> (None, w)
      | Inr st \<Rightarrow> (Some st, w))"

text \<open>
  The file keeps what the run has left on disk when the storage is closed, whether that succeeds
  or not; a database on disk is opened again as it was closed.
\<close>

definition close_on ::
  "'db badger \<Rightarrow> bool \<Rightarrow> StorageConfig \<Rightarrow> 'db storage \<Rightarrow> ('n, 'db) machine \<Rightarrow> ('n, 'db) machine" where
  "close_on api closeOk sc st w =
     (case st of
        BadgerSt b \<Rightarrow>
          (case BadgerStorage_Close api b of
             Return (err, b') \<Rightarrow>
               (if sc_Path sc = [] then w
                else w\<lparr>ma_databases := (ma_databases w)(sc_Path sc \<mapsto> bs_db b')\<rparr>)
           | _ \<Rightarrow> w)
      | FileSt f \<Rightarrow>
          (if fs_isStdout f then w
           else w\<lparr>ma_files := (ma_files w)(storage_path sc :=
                    (ma_files w (storage_path sc))\<lparr>fv_lines := fs_disk (snd (FileStorage_Close closeOk f))\<rparr>)\<rparr>))"

section \<open>The last collection of a run\<close>

lemma cleanup_storage: "cleanup env e = Return e' \<Longrightarrow> eg_storage e' = eg_storage e"
  by (auto simp: cleanup_def)

lemma Engine_Stop_storage:
  assumes "Engine_Stop env now g e = Return (r, e')" and "eg_errGroup e = GroupRunning"
  shows "eg_storage e' = snd (snd (CollectStats (ee_writeStats env) (ee_impl env) now (eg_collector e) (eg_storage e)))"
  using assms by (auto simp: Engine_Stop_def wait_group_def Let_def split: prod.splits dest!: cleanup_storage)

lemma collect_file:
  assumes "co_loadTestSpec c = Some spec" and "co_currentLoadTestSpecHash c \<noteq> []"
  shows "snd (snd (CollectStats (storage_WriteStats api digest os) im now c (Some (FileSt f)))) =
    Some (FileSt (snd (FileStorage_WriteStats digest os spec (collect im now c) f)))"
  using assms by (auto simp: CollectStats_def storage_WriteStats_def Let_def split: prod.split)

section \<open>The next run\<close>

lemma close_keeps_disk: "fs_disk (snd (FileStorage_Close ok f)) = fs_disk f"
  by (simp add: FileStorage_Close_def split: option.split)

lemma create_after_close:
  assumes "sc_Type sc = FileStorageType" and "\<not> fs_isStdout f"
    and "\<not> fv_stdout (ma_files w (sc_Path sc))" and "fv_opens (ma_files w (sc_Path sc))"
    and "NewFileStorage tlen False True (fs_disk f) = Inr g"
  shows "fst (create_on api tlen sc (close_on api ok sc (FileSt f) w)) = Some (FileSt g)"
  using assms by (simp add: create_on_def close_on_def close_keeps_disk createStorage_def storage_path_def config_constants)

lemma create_after_close_badger:
  assumes "sc_Type sc = BadgerDBStorage" and "sc_Path sc \<noteq> []" and "\<not> bs_gcClosed b"
  shows "fst (create_on api tlen sc (close_on api ok sc (BadgerSt b) w)) =
    Some (BadgerSt \<lparr>bs_db = snd (bd_close api (bs_db b)), bs_gcClosed = False\<rparr>)"
  using assms
  by (simp add: create_on_def close_on_def createStorage_def NewBadgerStorage_def badger_on_def
      BadgerStorage_Close_def config_constants split: prod.split)

lemma relaunched_storage:
  assumes "me_createStorage env = create_on api tlen" and "me_closeStorage env = close_on api ok"
    and "mg_workers m = [k]" and "eg_storage e = Some st"
    and "cfg_Storage (newest_config cfg m) = cfg_Storage (wk_config k)"
    and "fst (create_on api tlen (cfg_Storage (wk_config k)) (close_on api ok (cfg_Storage (wk_config k)) st (eg_world e))) = Some st'"
  shows "served_storage (locked_case env now cfg (release_run env 0 e m)) = Some st'"
proof -
  have n: "newest_config cfg (release_run env 0 e m) = newest_config cfg m"
    by (simp add: newest_config_def release_run_def)
  obtain w where "create_on api tlen (cfg_Storage (wk_config k)) (close_on api ok (cfg_Storage (wk_config k)) st (eg_world e)) = (Some st', w)"
    using assms(6) by (metis prod.collapse)
  then show ?thesis
    using assms(1-5) n
    by (simp add: locked_case_def install_config_def launch_def served_storage_def release_run_def
        new_worker_def NewEngine_def Let_def)
qed

text \<open>Closing a database keeps its contents, so the next run reads what the last one did.\<close>

lemma badger_next_run:
  assumes "badger_laws api content" and "\<And>db. content (snd (bd_close api db)) = content db"
    and "me_createStorage env = create_on api tlen" and "me_closeStorage env = close_on api ok"
    and "mg_workers m = [k]" and "eg_storage e = Some (BadgerSt b)" and "\<not> bs_gcClosed b"
    and "sc_Type (cfg_Storage (wk_config k)) = BadgerDBStorage" and "sc_Path (cfg_Storage (wk_config k)) \<noteq> []"
    and "cfg_Storage (newest_config cfg m) = cfg_Storage (wk_config k)"
  shows "\<exists>b2. served_storage (locked_case env now cfg (release_run env 0 e m)) = Some (BadgerSt b2)
    \<and> (\<forall>ty hash limit since. badger_read api ty hash limit since b2 = badger_read api ty hash limit since b)"
proof -
  let ?b2 = "\<lparr>bs_db = snd (bd_close api (bs_db b)), bs_gcClosed = False\<rparr>"
  have "bd_seek api p (bs_db ?b2) = bd_seek api p (bs_db b)" for p
    using assms(1,2) by (simp add: badger_laws_def)
  then have "badger_read api ty hash limit since ?b2 = badger_read api ty hash limit since b" for ty hash limit since
    by (simp add: badger_read_def)
  moreover have "served_storage (locked_case env now cfg (release_run env 0 e m)) = Some (BadgerSt ?b2)"
    by (rule relaunched_storage [OF assms(3-6,10) create_after_close_badger]) (use assms(7-9) in simp_all)
  ultimately show ?thesis by blast
qed

end
