(* ===== verification/Service_Properties.thy ===== *)
theory Service_Properties
  imports Example_Env Run_Storage Stats_Properties
begin

text \<open>
  The properties of the running service: one run at a time, the queue of configurations, what
  requests can change, and how a run gives way to the next one.
\<close>

section \<open>The manager\<close>

lemma manager_reaches_keeps: "manager_reaches env m0 m \<Longrightarrow> manager_inv m0 \<Longrightarrow> manager_inv m"
  by (induction rule: manager_reaches.induct) (auto intro: manager_step_inv)

text \<open>C1. At every moment of the service, however requests, runs and cancellations interleave, at most
  one run exists, and one exists exactly when the mutex is held; it belongs to the
  configuration the server shows until it is cleared; the queue holds at most a hundred
  configurations, all of them valid.\<close>

theorem manager_one_run:
  assumes "run stat read w args = Return m0" and "manager_reaches env m0 m"
  shows "length (mg_workers m) = (if mg_mutex m then 1 else 0)
    \<and> (\<forall>k \<in> set (mg_workers m). shared (mg_server m) k)
    \<and> length (channel m) \<le> 100 \<and> (\<forall>cfg \<in> set (channel m). config_wf cfg)"
proof -
  have "manager_inv m" using manager_reaches_keeps [OF assms(2)] run_manager_inv [OF assms(1)] by blast
  then show ?thesis by (simp add: manager_inv_def queue_ok_def channel_capacity_def)
qed

lemma steady_floats: "policy_floats steady_policy"
proof -
  have "is_float (Fin 1)" using fl_of_int [of 1] by (simp add: is_float_def)
  then show ?thesis by (simp add: policy_floats_def json_float_def steady_policy_def)
qed

lemma steady_config_facts: "config_wf steady_config" "policy_floats (cfg_RepeatPolicy steady_config)"
  using example_config_wf [OF example_policies_wf(2)] steady_floats by (simp_all add: example_config_def)

definition calm_manager_env :: "(server, unit, unit) manager_env" where
  "calm_manager_env = \<lparr>me_engine = calm, me_createStorage = (\<lambda>sc w. (Some (), w)),
     me_closeStorage = (\<lambda>sc st w. w),
     me_getStats = (\<lambda>spec limit since st. Inr [])\<rparr>"

definition example_files :: "string \<Rightarrow> json option option" where
  "example_files p = Some (Some (json_Config steady_config))"

definition booted :: "(server, unit) Manager" where
  "booted = (NewManager 9481 ''both'' Map.empty)
     \<lparr>mg_server := (NewHTTPServer 9481)\<lparr>hs_configSendChannel := [steady_config]\<rparr>\<rparr>"

lemma run_default:
  "run (\<lambda>p. True) example_files Map.empty (Some (default_args\<lparr>ca_useDefaultConfig := True\<rparr>)) = Return booted"
proof -
  have "loadDefaultConfig (\<lambda>p. True) example_files [] [] = Return [steady_config]"
    using Config_Validate_id [OF steady_config_facts(1)] dec_Config_json_lemma [OF steady_config_facts(2)]
    by (simp add: loadDefaultConfig_def default_paths_def example_files_def channel_capacity_def)
  then show ?thesis
    by (simp add: run_def default_args_def valid_mode_def SetupLogger_def booted_def NewManager_def NewHTTPServer_def)
qed

lemma booted_reaches_run:
  "\<exists>m. manager_reaches calm_manager_env booted m \<and> mg_mutex m"
proof -
  let ?m = "(cancel_last (pop_channel booted))\<lparr>mg_phase := Locking steady_config\<rparr>"
  have "manager_step calm_manager_env booted ?m"
    by (rule config_received [where rest = "[]"])
      (simp_all add: booted_def NewManager_def)
  moreover have "manager_step calm_manager_env ?m (locked_case calm_manager_env 0 steady_config ?m)"
    by (rule config_locked) (simp_all add: cancel_last_def pop_channel_def booted_def NewManager_def)
  moreover have "mg_mutex (locked_case calm_manager_env 0 steady_config ?m)"
    by (simp add: locked_case_def calm_manager_env_def launch_def install_config_def Let_def)
  ultimately show ?thesis by (meson manager_reaches_refl manager_reaches_step)
qed

theorem manager_one_run_witness:
  "\<exists>m. manager_reaches calm_manager_env booted m \<and> length (mg_workers m) = 1"
  using booted_reaches_run manager_one_run [OF run_default] by fastforce

text \<open>C25. A request changes the server only by appending one valid configuration to a queue that is not
  full; every other request, malformed ones and those that make a handler panic included,
  leaves it as it was.\<close>

theorem serve_frame:
  assumes "serve digest getStats now storage r h = (resp, h')"
  shows "h' = h \<or> (\<exists>cfg. config_wf cfg \<and> h' = h\<lparr>hs_configSendChannel := hs_configSendChannel h @ [cfg]\<rparr>
      \<and> length (hs_configSendChannel h) < channel_capacity)"
  using serve_changes [OF assms] by blast

definition no_stats :: "LoadTestSpec \<Rightarrow> int \<Rightarrow> Time option \<Rightarrow> unit \<Rightarrow> unit + StatsEntry list" where
  "no_stats spec limit since st = Inr []"

theorem serve_frame_witness:
  "snd (serve (\<lambda>j. ''h'') no_stats 0 None (PostConfig (Some (JBool True))) (NewHTTPServer 80)) = NewHTTPServer 80"
proof -
  have "serve (\<lambda>j. ''h'') no_stats 0 None (PostConfig (Some (JBool True))) (NewHTTPServer 80) =
      (http_error InvalidJSON 400, NewHTTPServer 80)"
    by (simp add: serve_def handleConfigUpdate_def dec_Config_def)
  from serve_frame [OF this] this show ?thesis by simp
qed

text \<open>Sending the configuration the server shows back to it queues nothing, so a client may read and
  write without restarting the test.\<close>

lemma get_then_post:
  assumes "hs_config h = Some cfg" and "config_wf cfg" and "policy_floats (cfg_RepeatPolicy cfg)"
    and "rs_body (handleConfigGet h) = [JsonText j]"
  shows "handleConfigUpdate digest (Some j) h = Return (update_response digest False cfg, h)"
proof -
  have "j = json_Config cfg"
    using assms(1,4) by (simp add: handleConfigGet_def http_json_def http_error_def split: if_splits)
  then show ?thesis using repost_not_queued [OF assms(1-3)] by simp
qed

lemma get_then_post_example:
  "let h = (NewHTTPServer 80)\<lparr>hs_config := Some steady_config\<rparr>
   in handleConfigUpdate (\<lambda>j. ''h'') (Some (json_Config steady_config)) h =
     Return (update_response (\<lambda>j. ''h'') False steady_config, h)"
proof -
  let ?h = "(NewHTTPServer 80)\<lparr>hs_config := Some steady_config\<rparr>"
  have "encodable steady_config"
    by (simp add: encodable_def example_config_def steady_policy_def)
  then have "rs_body (handleConfigGet ?h) = [JsonText (json_Config steady_config)]"
    by (simp add: handleConfigGet_def http_json_def)
  with get_then_post [of ?h steady_config] steady_config_facts show ?thesis by simp
qed

text \<open>C37. A configuration whose storage cannot be created starts no run and releases the mutex, but the
  server keeps it, so sending it again is answered as if it were active and starts nothing.\<close>

theorem storage_failure_blocks_retry:
  assumes "me_createStorage env (cfg_Storage (newest_config cfg m)) (mg_world m) = (None, w)"
    and "config_wf (newest_config cfg m)" and "policy_floats (cfg_RepeatPolicy (newest_config cfg m))"
    and "m' = locked_case env now cfg m"
  shows "mg_workers m' = mg_workers m \<and> \<not> mg_mutex m'
    \<and> handleConfigUpdate digest (Some (json_Config (newest_config cfg m))) (mg_server m') =
        Return (update_response digest False (newest_config cfg m), mg_server m')"
  using locked_case_no_storage [OF assms(1), of now] repost_not_queued [OF locked_case_frame(2) assms(2,3)]
  by (simp add: assms(4))

theorem storage_failure_blocks_retry_witness:
  "let m' = locked_case (calm_manager_env\<lparr>me_createStorage := (\<lambda>sc w. (None, w))\<rparr>) 0 steady_config
      (NewManager 80 ''both'' Map.empty)
   in mg_workers m' = [] \<and> handleConfigUpdate two_digest (Some (json_Config steady_config)) (mg_server m') =
        Return (update_response two_digest False steady_config, mg_server m')"
proof -
  let ?m = "NewManager 80 ''both'' Map.empty :: (server, unit) Manager"
  let ?env = "calm_manager_env\<lparr>me_createStorage := (\<lambda>sc w. (None, w))\<rparr>"
  have n: "newest_config steady_config ?m = steady_config"
    by (simp add: newest_config_def NewManager_def NewHTTPServer_def)
  have "me_createStorage ?env sc w = (None, w)" for sc w by simp
  from storage_failure_blocks_retry [OF this, of steady_config ?m _ 0 two_digest, unfolded n,
      OF steady_config_facts refl] show ?thesis
    by (simp add: Let_def) (simp add: NewManager_def)
qed

text \<open>A request for the history with a limit that is no number is answered with status 400, but the
  error is followed by the whole history in the same body.\<close>

lemma invalid_limit_still_answers:
  assumes "hs_collector h = Some c" and "limitStr \<noteq> []" and "ParseInt limitStr = None"
    and "list_all marshalable (GetHistory getStats 0 c storage)"
  shows "handleGetStatsHistory getStats storage limitStr h =
    \<lparr>rs_status = 400, rs_body = [ErrorText InvalidLimit,
       JsonText (JArray (map json_Stats (GetHistory getStats 0 c storage)))]\<rparr>"
  using assms by (simp add: handleGetStatsHistory_def)

section \<open>Giving way\<close>

lemma manager_reaches_trans:
  assumes "manager_reaches env m0 m" and "manager_reaches env m m'" shows "manager_reaches env m0 m'"
  using assms(2) by induction (auto intro: manager_reaches_step assms(1))

lemma run_gives_way:
  assumes "mg_phase m = Locking cfg" and "mg_workers m = [k]" and "wk_cancelled k"
    and "wk_phase k = RunningSpec i \<or> wk_phase k = RunningRepeat"
    and "Engine_Stop (me_engine env) now g (wk_engine k) = Return (r, e)"
  shows "\<exists>m2. manager_reaches env m (locked_case env now' cfg (release_run env 0 e m2))
    \<and> mg_workers m2 = [k\<lparr>wk_phase := Cleared\<rparr>] \<and> newest_config cfg m2 = newest_config cfg m"
proof -
  let ?k = "k\<lparr>wk_phase := Finished\<rparr>"
  let ?m1 = "m\<lparr>mg_server := share ?k (mg_server m), mg_workers := (mg_workers m)[0 := ?k]\<rparr>"
  let ?m2 = "clear_run (ee_digest (me_engine env)) 0 ?m1"
  have "worker_step (me_engine env) (mg_workers m ! 0) ?k"
    using assms(2-4) by (auto intro: spec_cancelled repeat_cancelled)
  then have s1: "manager_step env m ?m1" by (intro worker_moved) (simp add: assms(2))
  have s2: "manager_step env ?m1 ?m2" by (rule run_cleared) (simp_all add: assms(2))
  have s3: "manager_step env ?m2 (release_run env 0 e ?m2)"
    using assms(5) by (intro run_released) (simp_all add: assms(2) clear_run_def)
  let ?m3 = "release_run env 0 e ?m2"
  have s4: "manager_step env ?m3 (locked_case env now' cfg ?m3)"
    by (rule config_locked) (simp_all add: assms(1) release_run_def clear_run_def)
  have "manager_reaches env m (locked_case env now' cfg ?m3)"
    by (rule manager_reaches_step [OF manager_reaches_step [OF manager_reaches_step
        [OF manager_reaches_step [OF manager_reaches_refl s1] s2] s3] s4])
  moreover have "mg_workers ?m2 = [k\<lparr>wk_phase := Cleared\<rparr>]" by (simp add: clear_run_def assms(2))
  moreover have "newest_config cfg ?m2 = newest_config cfg m"
    by (simp add: newest_config_def clear_run_def share_def SetConfig_server_def SetCollector_def)
  ultimately show ?thesis by blast
qed

lemma newest_config_release [simp]: "newest_config cfg (release_run env i e m) = newest_config cfg m"
  by (simp add: newest_config_def release_run_def)

text \<open>C2. When a configuration waits for the mutex while an earlier run is busy with a spec, the run can
  always give way: it can finish, be cleared and released, and the waiting configuration, or a
  newer one of the queue, becomes the one the server shows.\<close>

theorem waiting_configuration_takes_over:
  assumes "run stat read w args = Return m0" and "manager_reaches env m0 m" and "mg_phase m = Locking cfg"
    and "mg_workers m = [k]" and "wk_phase k = RunningSpec i \<or> wk_phase k = RunningRepeat"
    and "eg_loadTestSpec (wk_engine k) = Some lts" and "\<forall>s \<in> set (lts_Streams lts). stream_ok s"
  shows "\<exists>m'. manager_reaches env m m' \<and> mg_phase m' = Listening
    \<and> hs_config (mg_server m') = Some (newest_config cfg m)"
proof -
  have "manager_inv m0" using run_manager_inv [OF assms(1)] by blast
  then have "manager_inv m" by (rule manager_reaches_keeps [OF assms(2)])
  then have c: "wk_cancelled k" using assms(3,4) by (simp add: manager_inv_def)
  have "\<exists>r e. Engine_Stop (me_engine env) 0 None (wk_engine k) = Return (r, e)"
    by (rule Engine_Stop_returns) (use assms(6,7) in simp)
  then obtain r e where "Engine_Stop (me_engine env) 0 None (wk_engine k) = Return (r, e)" by blast
  from run_gives_way [OF assms(3,4) c assms(5) this, of 0] obtain m2 where
    "manager_reaches env m (locked_case env 0 cfg (release_run env 0 e m2))" "newest_config cfg m2 = newest_config cfg m"
    by blast
  then show ?thesis by (metis locked_case_frame newest_config_release)
qed

lemma calm_manager_engine [simp]: "me_engine calm_manager_env = calm" "ee_digest calm = two_digest"
  by (simp_all add: calm_manager_env_def calm_def)

lemma running_engine:
  "\<exists>e. start_spec calm 0 validated_spec (new_worker i steady_config e0) = Return (None, e)
    \<and> eg_loadTestSpec e = Some validated_spec"
proof -
  have "0 < sint (StatsInterval steady_config)" by (simp add: StatsInterval_def example_config_def Second_def)
  then obtain e where e: "Engine_Start calm 0 validated_spec (StatsInterval steady_config) e0 = Return (None, e)"
    using calm_start [OF validated_spec_startable] by blast
  have "lts_UseJetStream validated_spec" by (simp add: example_spec_def)
  from Engine_Start_streams [OF calm_client_laws validated_spec_startable this e] e show ?thesis
    by (simp add: start_spec_def new_worker_def)
qed

text \<open>A service with one configuration in its queue: its run is busy with its spec when another
  configuration is sent to the server and received.\<close>

definition queued :: "Config \<Rightarrow> 'w \<Rightarrow> ('w, 'st) Manager" where
  "queued cfg w = (NewManager 9481 ''both'' w)
     \<lparr>mg_server := (NewHTTPServer 9481)\<lparr>hs_configSendChannel := [cfg]\<rparr>\<rparr>"

lemma waiting_run:
  fixes env :: "('w, 'st, 'e) manager_env"
  assumes st: "me_createStorage env (cfg_Storage cfg) w = (Some st, w1)" and spec: "cfg_LoadTestSpecs cfg = [Some lts]"
    and e: "start_spec (me_engine env) 0 lts (new_worker 0 cfg (NewEngine (NewCollector 0) (Some st) True True w1)) =
      Return (None, e)"
    and other: "config_wf other" "policy_floats (cfg_RepeatPolicy other)"
      "ee_digest (me_engine env) (json_Config other) \<noteq> ee_digest (me_engine env) (json_Config cfg)"
  shows "\<exists>m k. manager_reaches env (queued cfg w) m \<and> mg_phase m = Locking other
    \<and> newest_config other m = other \<and> mg_workers m = [k] \<and> wk_phase k = RunningSpec 0 \<and> wk_cancelled k
    \<and> wk_engine k = e \<and> wk_config k = cfg"
proof -
  let ?start = "queued cfg w :: ('w, 'st) Manager"
  let ?m0 = "?start\<lparr>mg_server := (mg_server ?start)\<lparr>hs_server := Some ServerListening\<rparr>\<rparr>"
  let ?m1 = "(cancel_last (pop_channel ?m0))\<lparr>mg_phase := Locking cfg\<rparr>"
  let ?m2 = "locked_case env 0 cfg ?m1"
  let ?k = "new_worker 0 cfg (NewEngine (NewCollector 0) (Some st) True True w1)"
  have s0: "manager_step env ?start ?m0"
    by (rule http_started [where binds = True]) (simp_all add: queued_def NewManager_def NewHTTPServer_def HTTPServer_Start_def)
  have s1: "manager_step env ?m0 ?m1"
    by (rule config_received [where rest = "[]"]) (simp_all add: queued_def NewManager_def)
  have s2: "manager_step env ?m1 ?m2"
    by (rule config_locked) (simp_all add: cancel_last_def pop_channel_def queued_def NewManager_def)
  have m2: "mg_workers ?m2 = [?k]" "hs_config (mg_server ?m2) = Some cfg" "channel ?m2 = []"
    "mg_phase ?m2 = Listening" "mg_lastRun ?m2 = Some 0" "hs_server (mg_server ?m2) = Some ServerListening"
    by (simp_all add: locked_case_def st launch_def install_config_def newest_config_def
        cancel_last_def pop_channel_def queued_def NewManager_def NewHTTPServer_def SetConfig_server_def
        SetCollector_def enables_publishers_def enables_consumers_def Let_def)
  let ?k1 = "started lts True e (RunningSpec 0) ?k"
  have "worker_step (me_engine env) ?k ?k1"
    by (rule spec_started [OF _ _ _ e]) (simp_all add: new_worker_def spec)
  then have w: "worker_step (me_engine env) (mg_workers ?m2 ! 0) ?k1"
    by (simp add: m2)
  let ?m3 = "?m2\<lparr>mg_server := share ?k1 (mg_server ?m2), mg_workers := (mg_workers ?m2)[0 := ?k1]\<rparr>"
  have s3: "manager_step env ?m2 ?m3" by (rule worker_moved [OF _ w]) (simp add: m2)
  let ?h = "(mg_server ?m3)\<lparr>hs_configSendChannel := [other]\<rparr>"
  have h3: "hs_config (mg_server ?m3) = Some cfg" "channel ?m3 = []" "handles (mg_server ?m3)"
    using m2 by (simp_all add: share_def started_def new_worker_def handles_def)
  have "dec_Config (json_Config other) = Some other" by (rule dec_Config_json_lemma [OF other(2)])
  then have "serve (ee_digest (me_engine env)) (me_getStats env) 0 (served_storage ?m3)
      (PostConfig (Some (json_Config other))) (mg_server ?m3) = (update_response (ee_digest (me_engine env)) True other, ?h)"
    using h3 Config_Validate_id [OF other(1)] other(3)
    by (simp add: serve_def handleConfigUpdate_def Config_Equals_def Config_Hash_def channel_capacity_def)
  then have s4: "manager_step env ?m3 (?m3\<lparr>mg_server := ?h\<rparr>)"
    by (rule request_served [OF h3(3)])
  let ?m4 = "?m3\<lparr>mg_server := ?h\<rparr>"
  let ?m5 = "(cancel_last (pop_channel ?m4))\<lparr>mg_phase := Locking other\<rparr>"
  have s5: "manager_step env ?m4 ?m5"
    by (rule config_received [where rest = "[]"]) (simp_all add: m2)
  have "manager_reaches env ?start ?m5"
    by (rule manager_reaches_step [OF manager_reaches_step [OF manager_reaches_step [OF manager_reaches_step
        [OF manager_reaches_step [OF manager_reaches_step [OF manager_reaches_refl s0] s1] s2] s3] s4] s5])
  moreover have "mg_workers ?m5 = [?k1\<lparr>wk_cancelled := True\<rparr>]"
    using m2 by (simp add: cancel_last_def pop_channel_def started_def new_worker_def)
  moreover have "newest_config other ?m5 = other"
    by (simp add: newest_config_def cancel_last_def pop_channel_def)
  ultimately show ?thesis
    by (intro exI [of _ ?m5] exI [of _ "?k1\<lparr>wk_cancelled := True\<rparr>"]) (simp add: started_def new_worker_def)
qed

lemma booted_queued: "booted = queued steady_config Map.empty"
  by (simp add: booted_def queued_def)

lemma waiting_state:
  "\<exists>m k. manager_reaches calm_manager_env booted m \<and> mg_phase m = Locking other_config
    \<and> newest_config other_config m = other_config \<and> mg_workers m = [k] \<and> wk_phase k = RunningSpec 0
    \<and> eg_loadTestSpec (wk_engine k) = Some validated_spec"
proof -
  let ?e0 = "NewEngine (NewCollector 0) (Some ()) True True Map.empty :: (server, unit) Engine"
  obtain e where e: "start_spec calm 0 validated_spec (new_worker 0 steady_config ?e0) = Return (None, e)"
    "eg_loadTestSpec e = Some validated_spec" using running_engine by blast
  have "policy_floats (cfg_RepeatPolicy other_config)" using steady_config_facts by (simp add: other_config_def)
  moreover have "cfg_LoadTestSpecs steady_config = [Some validated_spec]" by (simp add: example_config_def)
  ultimately show ?thesis
    using waiting_run [of calm_manager_env steady_config Map.empty "()" Map.empty validated_spec e other_config] e
      other_config_wf unfolding booted_queued by (fastforce simp: calm_manager_env_def)
qed

theorem waiting_configuration_takes_over_witness:
  "\<exists>m m'. manager_reaches calm_manager_env booted m \<and> mg_phase m = Locking other_config
    \<and> manager_reaches calm_manager_env m m' \<and> hs_config (mg_server m') = Some other_config"
proof -
  obtain m k where m: "manager_reaches calm_manager_env booted m" "mg_phase m = Locking other_config"
    "newest_config other_config m = other_config" "mg_workers m = [k]" "wk_phase k = RunningSpec 0"
    "eg_loadTestSpec (wk_engine k) = Some validated_spec" using waiting_state by blast
  have "\<forall>s \<in> set (lts_Streams validated_spec). stream_ok s"
    using startable_streams [OF validated_spec_startable] by blast
  from waiting_configuration_takes_over [OF run_default m(1,2,4) disjI1 [OF m(5)] m(6) this] m
  show ?thesis by metis
qed

text \<open>C36. A worker that has begun to repeat and whose every connection fails repeats for ever: cancelling
  it does not end it, so its mutex is never released and no later configuration is run.\<close>

theorem failing_repeat_never_ends:
  assumes "worker_reaches env k0 k" and "wk_phase k0 = AtRepeat"
    and "\<And>url name creds w. fst (ee_connect env url name creds w) \<noteq> None"
  shows "wk_phase k = AtRepeat"
  using assms(1)
proof induction
  case (worker_reaches_step k k')
  have fails: "start_spec env now lts k1 \<noteq> Return (None, e)" for now lts k1 e
  proof -
    let ?r = "ee_connect env (lts_NATSURL lts) (lts_ClientIDPrefix lts @ ''-engine'') (lts_NATSCredsFile lts)
        (eg_world (wk_engine k1))"
    obtain r w where r: "?r = (r, w)" by (cases ?r)
    then obtain err where "r = Some err" using assms(3) by (metis fst_conv option.exhaust)
    with r show ?thesis by (simp add: start_spec_def Engine_Start_def engine_connect_def)
  qed
  from worker_reaches_step.hyps(2) show ?case
    by cases (use worker_reaches_step.IH fails in \<open>auto simp: started_def\<close>)
qed (use assms(2) in simp_all)

definition unreachable :: "(server, unit, unit) engine_env" where
  "unreachable = calm\<lparr>ee_connect := (\<lambda>url name creds w. (Some ErrTimeout, w))\<rparr>"

definition repeating :: "(server, unit) Worker" where
  "repeating = (new_worker 0 steady_config new_engine)\<lparr>wk_phase := AtRepeat\<rparr>"

text \<open>Cancelled, it fails once more and is still at it.\<close>

lemma repeating_fails:
  "\<exists>k. worker_reaches unreachable repeating k \<and> wk_cancelled k \<and> wk_repeatCount k = 1"
proof -
  let ?k = "repeating\<lparr>wk_cancelled := True\<rparr>"
  let ?lts = "ApplyMultipliers (ee_impl unreachable) (cfg_RepeatPolicy steady_config) validated_spec"
  obtain err e where "start_spec unreachable 0 ?lts (scale_alias ?lts ?k) = Return (Some err, e)"
    by (simp add: start_spec_def Engine_Start_def engine_connect_def unreachable_def)
  moreover let ?k2 = "(started ?lts (wk_aliased ?k \<or> connected err) e AtRepeat ?k)
      \<lparr>wk_config := scale_last (ee_impl unreachable) validated_spec steady_config, wk_repeatCount := Suc (wk_repeatCount ?k)\<rparr>"
  have c: "wk_phase ?k = AtRepeat" "wk_config ?k = steady_config" "wk_cancelled ?k" "wk_repeatCount ?k = 0"
    by (simp_all add: repeating_def new_worker_def)
  moreover have "last (cfg_LoadTestSpecs steady_config) = Some validated_spec" by (simp add: example_config_def)
  ultimately have "worker_step unreachable ?k ?k2" by (intro repeat_not_started) (simp_all only:)
  then have "worker_reaches unreachable repeating ?k2"
    by (rule worker_reaches_step [OF worker_reaches_cancel [OF worker_reaches_refl]])
  moreover have "wk_cancelled ?k2 \<and> wk_repeatCount ?k2 = 1" using c by (simp add: started_def)
  ultimately show ?thesis by blast
qed

theorem failing_repeat_never_ends_witness:
  "\<exists>k. worker_reaches unreachable repeating k \<and> wk_cancelled k \<and> wk_repeatCount k = 1 \<and> wk_phase k = AtRepeat"
proof -
  obtain k where k: "worker_reaches unreachable repeating k" "wk_cancelled k" "wk_repeatCount k = 1"
    using repeating_fails by blast
  have "wk_phase k = AtRepeat"
    by (rule failing_repeat_never_ends [OF k(1)]) (simp_all add: repeating_def unreachable_def)
  with k show ?thesis by blast
qed

section \<open>From run to run\<close>

text \<open>C22. Let a run on a started engine, whose collector knows its spec and a hash that is
  not empty, keep its statistics in a file that is not the standard output and can be opened, with at
  most ten entries of each configuration, all with numbers JSON can print, as in the last collection;
  and let the iteration over a map visit each key once.  When the writing of the last collection
  reports no error (an error is only logged, and that collection is then lost) and leaves no line of
  64 KiB or more, it is not lost: when the run is over and a configuration with the same storage is
  taken up, the storage behind the new run answers for the spec with what the run before had stored
  and the collection made when it stopped, as far as they can be decoded.\<close>

theorem next_run_continues:
  assumes "ee_writeStats (me_engine env) = storage_WriteStats api digest os"
    and "me_createStorage env = create_on api tlen" and "me_closeStorage env = close_on api ok"
    and "mg_workers m = [k]" and "wk_engine k = e0" and "cfg_Storage (wk_config k) = sc"
    and "eg_errGroup e0 = GroupRunning" and "eg_storage e0 = Some (FileSt f)"
    and "co_loadTestSpec (eg_collector e0) = Some spec" and "co_currentLoadTestSpecHash (eg_collector e0) \<noteq> []"
    and "Engine_Stop (me_engine env) now g e0 = Return (r, e)"
    and "sc_Type sc = FileStorageType" and "\<not> fs_isStdout f" and "storage_ok f"
    and "\<not> fv_stdout (ma_files (eg_world e) (sc_Path sc))" and "fv_opens (ma_files (eg_world e) (sc_Path sc))"
    and "s = collect (ee_impl (me_engine env)) now (eg_collector e0)" and "marshalable s" and "stats_floats s"
    and "FileStorage_WriteStats digest os spec s f = (None, f')"
    and "iterates os (fs_statsCache f')" and "iterates os (fs_failuresCache f')"
    and "\<forall>l \<in> set (fs_disk f'). \<not> too_long tlen l"
    and "cfg_Storage (newest_config cfg m) = sc" and "h = LoadTestSpec_Hash digest spec"
  shows "\<exists>f2. served_storage (locked_case env now' cfg (release_run env 0 e m)) = Some (FileSt f2)
    \<and> FileStorage_GetStats digest spec 0 None f2 =
        Inr (survivors h (last_n (fs_maxEntries f) (cached (fs_statsCache f) h @ [stats_entry h s])))"
proof -
  have w: "FileStorage_WriteStats digest os spec (collect (ee_impl (me_engine env)) now (eg_collector e0)) f = (None, f')"
    using assms(17,20) by simp
  have st: "eg_storage e = Some (FileSt f')"
    using Engine_Stop_storage [OF assms(11,7)] collect_file [OF assms(9,10), of api digest os "ee_impl (me_engine env)" now f]
    by (simp add: assms(1,8) w)
  have f': "\<not> fs_isStdout f'" "fs_statsCache f' = addToCache (fs_maxEntries f) (fs_statsCache f) h (stats_entry h s)"
    using arg_cong [OF assms(20), of "fs_isStdout \<circ> snd"] arg_cong [OF assms(20), of "fs_statsCache \<circ> snd"] assms(13,25)
    by (simp_all add: FileStorage_WriteStats_def Let_def)
  obtain f2 where f2: "NewFileStorage tlen False True (fs_disk f') = Inr f2"
    "fs_statsCache f2 = recovered (fs_statsCache f')"
    using write_restart [where w = FileStorage_WriteStats, OF assms(14,18,19,13) _ assms(20-23)] by auto
  have c: "fst (create_on api tlen (cfg_Storage (wk_config k)) (close_on api ok (cfg_Storage (wk_config k)) (FileSt f') (eg_world e)))
      = Some (FileSt f2)"
    unfolding assms(6) by (rule create_after_close [OF assms(12) f'(1) assms(15,16) f2(1)])
  have "served_storage (locked_case env now' cfg (release_run env 0 e m)) = Some (FileSt f2)"
    by (rule relaunched_storage [OF assms(2,3,4) st _ c]) (use assms(6,24) in simp)
  moreover have "FileStorage_GetStats digest spec 0 None f2 =
      Inr (survivors h (last_n (fs_maxEntries f) (cached (fs_statsCache f) h @ [stats_entry h s])))"
    using assms(25) by (simp add: FileStorage_GetStats_def select_entries_all newest_def f2(2) f'(2))
  ultimately show ?thesis by blast
qed

text \<open>A machine with one empty file, and a client that does what it is asked and touches no stream.\<close>

definition logged_machine :: "(unit, (string \<times> json) list) machine" where
  "logged_machine = \<lparr>ma_network = (), ma_files = (\<lambda>p. \<lparr>fv_stdout = False, fv_opens = True, fv_lines = []\<rparr>),
     ma_databases = Map.empty\<rparr>"

text \<open>The shipped spec without JetStream, in a configuration that writes to the file.\<close>

definition core_spec :: LoadTestSpec where
  "core_spec = validated_spec\<lparr>lts_UseJetStream := False\<rparr>"

definition logged_config :: Config where
  "logged_config = steady_config\<lparr>cfg_LoadTestSpecs := [Some core_spec],
     cfg_Storage := \<lparr>sc_Type = FileStorageType, sc_Path = ''stats.log''\<rparr>\<rparr>"

definition next_logged_config :: Config where
  "next_logged_config = logged_config\<lparr>cfg_StatsCollectionIntervalSeconds := 6\<rparr>"

definition log_digest :: "json \<Rightarrow> string" where
  "log_digest j = (if j = json_Config logged_config then ''logged'' else ''h'')"

lemma log_digest_simps:
  "log_digest (json_Config logged_config) = ''logged''" "log_digest (json_Config next_logged_config) = ''h''"
  "LoadTestSpec_Hash log_digest core_spec = ''h''"
  by (simp_all add: log_digest_def next_logged_config_def json_Config_def logged_config_def example_config_def
      LoadTestSpec_Hash_def json_LoadTestSpec_def)

lemma core_spec_startable: "startable core_spec"
  using validated_spec_startable
  by (simp add: startable_def spec_wf_def spec_ok_def core_spec_def countable_subjects_def) metis

lemma next_logged_config_ok: "config_wf next_logged_config" "policy_floats (cfg_RepeatPolicy next_logged_config)"
  using steady_config_facts core_spec_startable
  by (simp_all add: config_wf_def next_logged_config_def logged_config_def startable_def config_constants)

definition quiet_engine :: "((unit, (string \<times> json) list) machine, (string \<times> json) list storage, storage_error) engine_env" where
  "quiet_engine =
     \<lparr>ee_connect = (\<lambda>url name creds w. (None, w)), ee_jetstream = (\<lambda>w. (None, w)),
      ee_js = \<lparr>js_DeleteStream = (\<lambda>n w. (Some ErrTimeout, w)), js_AddStream = (\<lambda>cfg w. (Some ErrTimeout, w)),
        js_DeleteConsumer = (\<lambda>s d w. (Some ErrConsumerNotFound, w)), js_AddConsumer = (\<lambda>s c w. (None, w)),
        js_Subscribe = (\<lambda>t d a m w. (Inr 0, w)), js_PullSubscribe = (\<lambda>t d a m w. (Inr 0, w)),
        js_Publish = (\<lambda>t m w. (None, w))\<rparr>,
      ee_nc = \<lparr>nc_Subscribe = (\<lambda>t w. (Inr 0, w)), nc_Publish = (\<lambda>t m w. (None, w)),
        nc_Drain = (\<lambda>s w. (None, w)), nc_IsConnected = (\<lambda>w. True), nc_Close = (\<lambda>w. w)\<rparr>,
      ee_error = (\<lambda>e. plain_error ''nats''),
      ee_writeStats = storage_WriteStats list_badger log_digest smooth,
      ee_writeFailure = storage_WriteFailure list_badger log_digest smooth,
      ee_backoff = \<lparr>be_done = (\<lambda>w. False), be_wait = (\<lambda>d w. (False, w))\<rparr>,
      ee_digest = log_digest, ee_other = (\<lambda>t i. []), ee_impl = amd64, ee_rnd = (\<lambda>i. 0),
      ee_early = (\<lambda>err w. False)\<rparr>"

definition logged_manager_env :: "((unit, (string \<times> json) list) machine, (string \<times> json) list storage, storage_error) manager_env" where
  "logged_manager_env = \<lparr>me_engine = quiet_engine, me_createStorage = create_on list_badger (\<lambda>_. 100),
     me_closeStorage = close_on list_badger True, me_getStats = (\<lambda>spec limit since st. Inr [])\<rparr>"

lemma logged_manager_env_simps:
  "me_engine logged_manager_env = quiet_engine" "me_createStorage logged_manager_env = create_on list_badger (\<lambda>_. 100)"
  "me_closeStorage logged_manager_env = close_on list_badger True" "ee_impl quiet_engine = amd64"
  "ee_writeStats quiet_engine = storage_WriteStats list_badger log_digest smooth" "ee_digest quiet_engine = log_digest"
  by (simp_all add: logged_manager_env_def quiet_engine_def)

abbreviation logged_engine :: "((unit, (string \<times> json) list) machine, (string \<times> json) list storage) Engine" where
  "logged_engine \<equiv> NewEngine (NewCollector 0) (Some (FileSt fresh_file)) True True logged_machine"

lemma logged_storage:
  "create_on list_badger (\<lambda>_. 100) (cfg_Storage logged_config) logged_machine = (Some (FileSt fresh_file), logged_machine)"
  by (simp add: create_on_def createStorage_def logged_config_def logged_machine_def NewFileStorage_def fresh_file_def
      config_constants Let_def)

lemma logged_start:
  "\<exists>e. start_spec quiet_engine 0 core_spec (new_worker 0 logged_config logged_engine) = Return (None, e)
    \<and> eg_errGroup e = GroupRunning \<and> eg_storage e = Some (FileSt fresh_file) \<and> eg_world e = logged_machine
    \<and> eg_loadTestSpec e = Some core_spec \<and> eg_collector e = SetConfig log_digest 0 core_spec (NewCollector 0)"
proof -
  have g: "gentle quiet_engine" by (simp add: gentle_def quiet_engine_def)
  have i: "0 < sint (StatsInterval logged_config)"
    by (simp add: StatsInterval_def logged_config_def example_config_def Second_def)
  have "setup_streams_of quiet_engine core_spec x = Return (None, x\<lparr>eg_world := eg_world x\<rparr>)" for x
    by (simp add: setup_streams_of_def core_spec_def)
  then have s: "\<exists>w. setup_streams_of quiet_engine core_spec x = Return (None, x\<lparr>eg_world := w\<rparr>)" for x by blast
  obtain e where e: "Engine_Start quiet_engine 0 core_spec (StatsInterval logged_config) logged_engine = Return (None, e)"
    "eg_collector e = SetConfig (ee_digest quiet_engine) 0 core_spec (eg_collector logged_engine)"
    "eg_storage e = eg_storage logged_engine" "\<not> lts_UseJetStream core_spec \<longrightarrow> eg_world e = eg_world logged_engine"
    using gentle_start [OF g core_spec_startable i s] by blast
  then show ?thesis
    using Engine_Start_running(1,3) [OF core_spec_startable e(1)]
    by (simp add: start_spec_def new_worker_def NewEngine_def core_spec_def logged_manager_env_simps)
qed

lemma logged_stop:
  assumes "eg_loadTestSpec e = Some core_spec" and "eg_errGroup e = GroupRunning"
  shows "\<exists>r e'. Engine_Stop quiet_engine now g e = Return (r, e') \<and> eg_world e' = eg_world e"
proof -
  have d: "snd (snd (Consumer_Cleanup (ee_nc quiet_engine) k w)) = w" for k w
    by (simp add: Consumer_Cleanup_def quiet_engine_def split: option.split)
  have a: "snd (drain_all (ee_nc quiet_engine) ks w) = w" for ks w
    using d by (induction ks arbitrary: w) (auto split: prod.split, metis snd_conv)
  have c: "cleanup_consumers (ee_nc quiet_engine) ks w = w" for ks w
    using d by (induction ks arbitrary: w) auto
  have n: "nc_Close (ee_nc quiet_engine) w = w" for w by (simp add: quiet_engine_def)
  let ?e = "e\<lparr>eg_cancelled := map_option (\<lambda>_. True) (eg_cancelled e)\<rparr>"
  obtain r e2 where w: "wait_group quiet_engine now g ?e = (r, e2)" by fastforce
  have "eg_world e2 = eg_world e" "eg_loadTestSpec e2 = Some core_spec"
    using w assms a [of "eg_consumers e" "eg_world e"] by (auto simp: wait_group_def split: prod.splits)
  then show ?thesis
    using w by (simp add: Engine_Stop_def cleanup_def cleanup_streams_def c n core_spec_def)
qed

abbreviation last_collection :: Stats where
  "last_collection \<equiv> collect amd64 0 (SetConfig log_digest 0 core_spec (NewCollector 0))"

lemma last_collection_ok: "marshalable last_collection" "stats_floats last_collection" "st_Errors last_collection = []"
proof -
  have "Seconds 0 = Fin 0"
    using fl_of_int [of 0] by (simp add: Seconds_def quot64_def rem64_def plus_float64_def float_of_int_def)
  then show "marshalable last_collection" "stats_floats last_collection" "st_Errors last_collection = []"
    by (simp_all add: marshalable_def stats_floats_def collect_def Sub_def Let_def SetConfig_def NewCollector_def
        zero_RampUpStats_def zero_LatencyStats_def is_float_def less_float64_def flt_def)
qed

lemma survivors_no_errors: "st_Errors s = [] \<Longrightarrow> survivors h [stats_entry h s] = [stats_entry h s]"
  by (simp add: survivors_def restored_def stats_entry_def errors_lost_def)

lemma logged_collector:
  "co_loadTestSpec (SetConfig log_digest 0 core_spec c) = Some core_spec"
  "co_currentLoadTestSpecHash (SetConfig log_digest 0 core_spec c) = ''h''"
  by (simp_all add: SetConfig_def log_digest_simps)

text \<open>
  The service runs the first configuration until the second takes its place: the storage of the
  new run, reached from the start of the service, has the last collection of the old one.
\<close>

theorem next_run_continues_witness:
  "\<exists>m f2. manager_reaches logged_manager_env (queued logged_config logged_machine) m
    \<and> hs_config (mg_server m) = Some next_logged_config \<and> served_storage m = Some (FileSt f2)
    \<and> FileStorage_GetStats log_digest core_spec 0 None f2 = Inr [stats_entry ''h'' last_collection]"
proof -
  obtain e where e: "start_spec quiet_engine 0 core_spec (new_worker 0 logged_config logged_engine) = Return (None, e)"
    "eg_errGroup e = GroupRunning" "eg_storage e = Some (FileSt fresh_file)" "eg_world e = logged_machine"
    "eg_loadTestSpec e = Some core_spec" "eg_collector e = SetConfig log_digest 0 core_spec (NewCollector 0)"
    using logged_start by blast
  have "me_createStorage logged_manager_env (cfg_Storage logged_config) logged_machine = (Some (FileSt fresh_file), logged_machine)"
    "cfg_LoadTestSpecs logged_config = [Some core_spec]"
    "ee_digest (me_engine logged_manager_env) (json_Config next_logged_config) \<noteq>
       ee_digest (me_engine logged_manager_env) (json_Config logged_config)"
    by (simp_all add: logged_manager_env_simps logged_storage log_digest_simps) (simp add: logged_config_def)
  from waiting_run [OF this(1,2) _ next_logged_config_ok this(3)] obtain m k where
    m: "manager_reaches logged_manager_env (queued logged_config logged_machine) m" "mg_phase m = Locking next_logged_config"
      "newest_config next_logged_config m = next_logged_config" "mg_workers m = [k]"
      "wk_phase k = RunningSpec 0" "wk_cancelled k" "wk_engine k = e" "wk_config k = logged_config"
    using e(1) unfolding logged_manager_env_simps by blast
  obtain r e' where stop: "Engine_Stop (me_engine logged_manager_env) 0 None e = Return (r, e')" "eg_world e' = logged_machine"
    using logged_stop [OF e(5,2), of 0 None] e(4) unfolding logged_manager_env_simps by auto
  obtain m2 where m2: "manager_reaches logged_manager_env m
      (locked_case logged_manager_env 1 next_logged_config (release_run logged_manager_env 0 e' m2))"
    "mg_workers m2 = [k\<lparr>wk_phase := Cleared\<rparr>]" "newest_config next_logged_config m2 = next_logged_config"
    using run_gives_way [OF m(2,4,6) disjI1 [OF m(5)], of logged_manager_env 0 None r e' 1] stop(1) m(3,7) by auto
  let ?m = "locked_case logged_manager_env 1 next_logged_config (release_run logged_manager_env 0 e' m2)"
  note w = smooth_write(1) [OF log_digest_simps(3) last_collection_ok(1)]
  have "\<exists>f2. served_storage ?m = Some (FileSt f2)
      \<and> FileStorage_GetStats log_digest core_spec 0 None f2 =
        Inr (survivors ''h'' (last_n (fs_maxEntries fresh_file)
               (cached (fs_statsCache fresh_file) ''h'' @ [stats_entry ''h'' last_collection])))"
    by (rule next_run_continues [where api = list_badger and os = smooth and tlen = "\<lambda>_. 100" and now = 0 and g = None
          and k = "k\<lparr>wk_phase := Cleared\<rparr>" and ?e0.0 = e and sc = "cfg_Storage logged_config",
          OF _ _ _ m2(2) _ _ e(2,3) _ _ stop(1) _ fresh_file_ok(2,1) _ _ _ _ _ w])
      (simp_all add: logged_manager_env_simps m(7,8) m2(3) e(6) stop(2) logged_collector logged_machine_def
        last_collection_ok too_long_def line_of_def log_digest_simps fresh_file_def,
       simp_all add: logged_config_def next_logged_config_def)
  moreover have "last_n (fs_maxEntries fresh_file) (cached (fs_statsCache fresh_file) ''h'' @ [stats_entry ''h'' last_collection])
      = [stats_entry ''h'' last_collection]"
    by (simp add: fresh_file_def cached_def last_n_def)
  moreover have "manager_reaches logged_manager_env (queued logged_config logged_machine) ?m"
    by (rule manager_reaches_trans [OF m(1) m2(1)])
  moreover have "hs_config (mg_server ?m) = Some next_logged_config" by (simp add: locked_case_frame m2(3))
  ultimately show ?thesis
    using survivors_no_errors [OF last_collection_ok(3), of "''h''"] by (intro exI [of _ ?m]) auto
qed

section \<open>The command\<close>

text \<open>The command refuses exactly the arguments that are missing, have an unknown mode or an unknown
  log level, the mode being looked at first; a default configuration that cannot be loaded is
  no reason to refuse.\<close>

lemma run_refuses:
  "run stat read w (Some a) = Error e \<longleftrightarrow>
     (if valid_mode (ca_mode a) then SetupLogger (ca_logLevel a) = None \<and> e = InvalidLogLevel (ca_logLevel a)
      else e = InvalidMode (ca_mode a))"
  by (auto simp: run_def Let_def split: option.splits outcome.splits)

end
