(* ===== verification/No_Panic.thy ===== *)
theory No_Panic
  imports Worker
begin

text \<open>
  Where a goroutine of the program panics.  Nothing recovers from a panic outside the HTTP
  handlers, so one panic ends the process.  The panics are those the definitions have as
  \<open>Panic\<close>; the theory says for which configurations a worker never meets one.
\<close>

section \<open>Panics\<close>

text \<open>A goroutine of a started engine panics.\<close>

inductive group_panics :: "('w, 'st, 'e) engine_env \<Rightarrow> ('w, 'st) Engine \<times> group \<Rightarrow> bool" for env where
  publisher_panics:
    "eg_errGroup e = GroupRunning \<Longrightarrow> i < length (gr_publishers g) \<Longrightarrow> rnd < 1000 \<Longrightarrow>
     routine_run (consumer_env env e) clock rnd (gr_publishers g ! i) (eg_collector e, eg_world e) = Panic \<Longrightarrow>
     group_panics env (e, g)"
| publisher_report_panics:
    "eg_errGroup e = GroupRunning \<Longrightarrow> i < length (gr_publishers g) \<Longrightarrow> rnd < 1000 \<Longrightarrow>
     routine_run (consumer_env env e) clock rnd (gr_publishers g ! i) (eg_collector e, eg_world e) = Error f \<Longrightarrow>
     RecordError (plain_error (publisher_failure_text f)) (eg_collector e) = Panic \<Longrightarrow>
     group_panics env (e, g)"
| message_panics:
    "eg_errGroup e = GroupRunning \<Longrightarrow> k \<in> set (eg_consumers e) \<Longrightarrow> cn_subscription k \<noteq> None \<Longrightarrow>
     handleMessage (ee_error env) (cn_config k) now ack payload (eg_collector e) = Panic \<Longrightarrow>
     group_panics env (e, g)"
| fetch_panics:
    "eg_errGroup e = GroupRunning \<Longrightarrow> k \<in> set (eg_consumers e) \<Longrightarrow> cn_subscription k \<noteq> None \<Longrightarrow>
     err \<noteq> ErrTimeout \<Longrightarrow> pull_step (ee_error env) (cn_config k) (Some err) [] (eg_collector e) = Panic \<Longrightarrow>
     group_panics env (e, g)"
| client_error_panics:
    "eg_errGroup e = GroupRunning \<Longrightarrow> RecordError (ee_error env err) (eg_collector e) = Panic \<Longrightarrow>
     group_panics env (e, g)"

text \<open>
  The goroutine of a run panics: on a nil spec, in a start or a stop; the handler of client errors
  does when a connection reports an error before the collector has been given its first spec; or
  a goroutine of the engine, which ends only when the engine is stopped.
\<close>

inductive worker_panics :: "('w, 'st, 'e) engine_env \<Rightarrow> ('w, 'st) Worker \<Rightarrow> bool" for env where
  nil_spec:
    "wk_phase k = AtSpec i \<Longrightarrow> i < length (cfg_LoadTestSpecs (wk_config k)) \<Longrightarrow>
     cfg_LoadTestSpecs (wk_config k) ! i = None \<Longrightarrow> worker_panics env k"
| spec_start_panics:
    "wk_phase k = AtSpec i \<Longrightarrow> i < length (cfg_LoadTestSpecs (wk_config k)) \<Longrightarrow>
     cfg_LoadTestSpecs (wk_config k) ! i = Some lts \<Longrightarrow> start_spec env now lts k = Panic \<Longrightarrow>
     worker_panics env k"
| nil_repeat:
    "wk_phase k = AtRepeat \<Longrightarrow> last (cfg_LoadTestSpecs (wk_config k)) = None \<Longrightarrow> worker_panics env k"
| repeat_start_panics:
    "wk_phase k = AtRepeat \<Longrightarrow> last (cfg_LoadTestSpecs (wk_config k)) = Some lts \<Longrightarrow>
     lts' = ApplyMultipliers (ee_impl env) (cfg_RepeatPolicy (wk_config k)) lts \<Longrightarrow>
     start_spec env now lts' (scale_alias lts' k) = Panic \<Longrightarrow> worker_panics env k"
| error_before_config_panics:
    "next_spec (ee_impl env) k = Some lts \<Longrightarrow> early_error env lts err (wk_engine k) \<Longrightarrow>
     RecordError (ee_error env err) (eg_collector (wk_engine k)) = Panic \<Longrightarrow> worker_panics env k"
| goroutine_panics:
    "group_panics env (wk_engine k, wk_group k) \<Longrightarrow> worker_panics env k"
| stop_panics:
    "(\<exists>i. wk_phase k = RunningSpec i) \<or> wk_phase k \<in> {RunningRepeat, Cleared} \<Longrightarrow>
     Engine_Stop env now g (wk_engine k) = Panic \<Longrightarrow> worker_panics env k"

inductive_cases worker_panicsE: "worker_panics env k"

section \<open>Configurations that cannot make a worker panic\<close>

definition spec_fits :: "LoadTestSpec \<Rightarrow> bool" where
  "spec_fits lts \<longleftrightarrow> startable lts \<and> fitting_rate lts"

definition fitting_config :: "impl \<Rightarrow> Config \<Rightarrow> bool" where
  "fitting_config im c \<longleftrightarrow>
     (\<forall>s \<in> set (cfg_LoadTestSpecs c). \<exists>lts. s = Some lts \<and> spec_fits lts)
   \<and> (repeats c \<longrightarrow> (\<forall>n. spec_fits (scaled im (cfg_RepeatPolicy c) (the (last (cfg_LoadTestSpecs c))) n)))
   \<and> 0 < sint (StatsInterval c)"

lemma group_inv_no_panic:
  assumes "group_inv (e, g)" shows "\<not> group_panics env (e, g)"
proof
  have c: "recording_ok (eg_collector e)" using assms by (simp add: group_inv_def)
  have r: "\<exists>s. routine_run (consumer_env env e) clock rnd (gr_publishers g ! i) (eg_collector e, eg_world e) = Return s"
    if "i < length (gr_publishers g)" "rnd < 1000" for clock rnd i
    using routine_run_ok [of "gr_publishers g ! i" "(eg_collector e, eg_world e)" rnd "consumer_env env e" clock] that assms
    by (auto simp: group_inv_def)
  have rec: "\<exists>c'. RecordError err (eg_collector e) = Return c'" for err
    using recordError_recording [OF c] by (auto simp: RecordError_def)
  have cons: "\<exists>c'. RecordConsumeError err (eg_collector e) = Return c'" for err
    using RecordConsumeError_recording [OF c] by blast
  assume "group_panics env (e, g)"
  then show False
  proof cases
    case (publisher_panics i rnd clock)
    with r show ?thesis by (metis outcome.distinct)
  next
    case (publisher_report_panics i rnd clock f)
    with r show ?thesis by (metis outcome.distinct)
  next
    case (message_panics k now ack payload)
    with handleMessage_recording [OF c] show ?thesis by (metis outcome.distinct)
  next
    case (fetch_panics k err)
    with cons show ?thesis by (simp add: pull_step_def) (metis outcome.distinct)
  next
    case (client_error_panics err)
    with rec show ?thesis by (metis outcome.distinct)
  qed
qed

text \<open>A start that reports an error leaves no publisher, and a group only with a collector that records.\<close>

lemma Engine_Start_failed:
  assumes "startable lts" and "Engine_Start env now lts si e = Return (Some err, e')" and "eg_publishers e = []"
  shows "eg_publishers e' = []"
    and "recording_ok (eg_collector e') \<or> eg_errGroup e' = eg_errGroup e \<and> eg_collector e' = eg_collector e"
proof -
  have clean: "eg_publishers x' = [] \<and> eg_collector x' = eg_collector x" if "cleanup env x = Return x'" for x x'
    using that by (auto simp: cleanup_def)
  obtain cr e1 where c: "engine_connect env lts e = (cr, e1)" by fastforce
  have e1: "eg_publishers e1 = []" "eg_collector e1 = eg_collector e" "eg_errGroup e1 = eg_errGroup e"
    using c assms(3) by (auto simp: engine_connect_def split: prod.splits option.splits if_splits)
  have "eg_publishers e' = []
    \<and> (recording_ok (eg_collector e') \<or> eg_errGroup e' = eg_errGroup e \<and> eg_collector e' = eg_collector e)"
  proof (cases cr)
    case (Some x)
    with c e1 assms(2) show ?thesis by (auto simp: Engine_Start_def)
  next
    case None
    let ?e = "configure env now lts e1"
    have rec: "recording_ok (eg_collector ?e)" using assms(1) by (simp add: startable_def SetConfig_recording)
    obtain sr e2 where s: "setup_streams_of env lts ?e = Return (sr, e2)"
      using assms(2) c None by (auto simp: Engine_Start_def split: if_splits)
    have e2: "recording_ok (eg_collector e2)" using s rec by (auto simp: setup_streams_of_def split: if_splits)
    show ?thesis
    proof (cases sr)
      case (Some x)
      with assms(2) c None s clean e2 show ?thesis by (auto simp: Engine_Start_def split: if_splits)
    next
      case None': None
      obtain e3 where p: "create_publishers_of env lts e2 = Return e3"
        using assms(2) c None s None' by (auto simp: Engine_Start_def split: if_splits)
      have e3: "recording_ok (eg_collector e3)" using p e2 by (auto simp: create_publishers_of_def split: if_splits)
      obtain kr e4 where k: "create_consumers_of env lts e3 = Return (kr, e4)"
        using assms(2) c None s None' p by (auto simp: Engine_Start_def split: if_splits)
      have "recording_ok (eg_collector e4)"
        using k e3 start_consumers_recording
        by (fastforce simp: create_consumers_of_def CreateConsumers_def obind_eq_Return split: if_splits)
      with assms(2) c None s None' p k clean show ?thesis
        by (auto simp: Engine_Start_def split: if_splits option.splits)
    qed
  qed
  then show "eg_publishers e' = []"
    and "recording_ok (eg_collector e') \<or> eg_errGroup e' = eg_errGroup e \<and> eg_collector e' = eg_collector e"
    by simp_all
qed

section \<open>The invariant of a worker\<close>

definition between_specs :: "worker_phase \<Rightarrow> bool" where
  "between_specs p \<longleftrightarrow> (\<exists>i. p = AtSpec i) \<or> p = AtRepeat"

definition worker_safe :: "('w, 'st) Worker \<Rightarrow> bool" where
  "worker_safe k \<longleftrightarrow>
     (\<forall>lts \<in> set (wk_started k). startable lts)
   \<and> eg_loadTestSpec (wk_engine k) \<in> insert None (Some ` set (wk_started k))
   \<and> (eg_errGroup (wk_engine k) = GroupRunning \<longrightarrow> group_inv (wk_engine k, wk_group k))
   \<and> (between_specs (wk_phase k) \<longrightarrow> eg_publishers (wk_engine k) = [])"

lemma worker_safe_updates [simp]:
  "worker_safe (k\<lparr>wk_config := c, wk_repeatCount := n\<rparr>) = worker_safe k"
  "worker_safe (k\<lparr>wk_cancelled := b\<rparr>) = worker_safe k"
  by (simp_all add: worker_safe_def)

lemma scale_alias_simps [simp]:
  "eg_errGroup (wk_engine (scale_alias lts k)) = eg_errGroup (wk_engine k)"
  "eg_publishers (wk_engine (scale_alias lts k)) = eg_publishers (wk_engine k)"
  "wk_started (scale_alias lts k) = wk_started k"
  by (simp_all add: scale_alias_def)

lemma scale_alias_recording:
  "startable lts \<Longrightarrow> recording_ok (eg_collector (wk_engine k)) \<Longrightarrow> recording_ok (eg_collector (wk_engine (scale_alias lts k)))"
  by (simp add: scale_alias_def startable_def recording_ok_def)

text \<open>A start of a fitting spec, with or without success.\<close>

lemma worker_safe_started:
  assumes fits: "spec_fits lts" and safe: "worker_safe k" and at: "between_specs (wk_phase k)"
    and start: "Engine_Start env now lts si (wk_engine k1) = Return (r, e)"
    and k1: "eg_publishers (wk_engine k1) = eg_publishers (wk_engine k)"
      "eg_errGroup (wk_engine k1) = eg_errGroup (wk_engine k)"
      "eg_loadTestSpec (wk_engine k1) = eg_loadTestSpec (wk_engine k)"
      "recording_ok (eg_collector (wk_engine k)) \<Longrightarrow> recording_ok (eg_collector (wk_engine k1))"
    and p: "between_specs p \<longrightarrow> r \<noteq> None"
  shows "worker_safe (started lts al e p k)"
proof -
  have lts: "startable lts" "fitting_rate lts" using fits by (simp_all add: spec_fits_def)
  have none: "eg_publishers (wk_engine k1) = []" using safe at k1(1) by (simp add: worker_safe_def)
  have spec: "eg_loadTestSpec e \<in> insert None (Some ` set (wk_started k @ [lts]))"
    using Engine_Start_spec [OF start] safe k1(3) by (auto simp: worker_safe_def)
  have old: "recording_ok (eg_collector (wk_engine k1))" if "eg_errGroup (wk_engine k1) = GroupRunning"
    using safe that k1(2,4) by (simp add: worker_safe_def group_inv_def)
  have "(eg_errGroup e = GroupRunning \<longrightarrow> group_inv (e, new_group e)) \<and> (between_specs p \<longrightarrow> eg_publishers e = [])"
  proof (cases r)
    case None
    with started_group_inv [OF lts disjI2 [OF none], of env now si e] start p show ?thesis by simp
  next
    case (Some err)
    note f = Engine_Start_failed [OF lts(1) start [unfolded Some] none]
    then have "recording_ok (eg_collector e)" if "eg_errGroup e = GroupRunning" using old that by auto
    with f(1) show ?thesis by (simp add: group_inv_def new_group_def)
  qed
  with spec safe lts(1) show ?thesis by (simp add: worker_safe_def started_def)
qed

lemma worker_safe_stopped:
  assumes "worker_safe k" and "Engine_Stop env now g (wk_engine k) = Return (r, e)"
  shows "worker_safe (k\<lparr>wk_engine := e, wk_phase := p\<rparr>)"
  using assms(1) Engine_Stop_group [OF assms(2)] Engine_Stop_idle [OF assms(2)]
  by (auto simp: worker_safe_def idle_def)

lemma worker_safe_step:
  assumes step: "worker_step env k k'" and safe: "worker_safe k"
    and specs: "\<And>i lts. i < length (cfg_LoadTestSpecs (wk_config k)) \<Longrightarrow> wk_phase k = AtSpec i \<Longrightarrow>
      cfg_LoadTestSpecs (wk_config k) ! i = Some lts \<Longrightarrow> spec_fits lts"
    and rep: "\<And>lts. wk_phase k = AtRepeat \<Longrightarrow> last (cfg_LoadTestSpecs (wk_config k)) = Some lts \<Longrightarrow>
      spec_fits (ApplyMultipliers (ee_impl env) (cfg_RepeatPolicy (wk_config k)) lts)"
  shows "worker_safe k'"
  using step
proof cases
  case (spec_started i lts now e al)
  then show ?thesis
    using worker_safe_started [OF specs safe _ _ refl refl refl, of i lts env now "StatsInterval (wk_config k)" None e "RunningSpec i" al]
    by (simp add: start_spec_def between_specs_def)
next
  case (spec_not_started i lts now err e al)
  then show ?thesis
    using worker_safe_started [OF specs safe _ _ refl refl refl, of i lts env now "StatsInterval (wk_config k)" "Some err" e "AtSpec (Suc i)" al]
    by (simp add: start_spec_def between_specs_def)
next
  case (goroutine_ran e g)
  have "eg_errGroup (wk_engine k) = GroupRunning"
    using goroutine_ran(3) by cases simp_all
  then have "group_inv (e, g)" using group_step_inv [OF goroutine_ran(3)] safe by (simp add: worker_safe_def)
  with goroutine_ran group_step_frame [OF goroutine_ran(3)] safe show ?thesis
    by (auto simp: worker_safe_def between_specs_def)
next
  case (failed_start_collected now s c st)
  with safe show ?thesis by (simp add: worker_safe_def)
next
  case (error_before_config lts err c)
  have "recording_ok c" if "recording_ok (eg_collector (wk_engine k))"
    using recordError_recording [OF that, of "ee_error env err"] error_before_config(4) by (auto simp: RecordError_def)
  with error_before_config safe show ?thesis by (auto simp: worker_safe_def group_inv_def)
next
  case (spec_completed i now g r e)
  then show ?thesis using worker_safe_stopped [OF safe] by simp
next
  case (spec_cancelled i)
  with safe show ?thesis by (simp add: worker_safe_def between_specs_def)
next
  case specs_over
  with safe show ?thesis by (simp add: worker_safe_def between_specs_def)
next
  case (repeat_started lts cfg lts' now e)
  note fits = rep [OF repeat_started(2,3), folded repeat_started(5)]
  have "recording_ok (eg_collector (wk_engine k)) \<Longrightarrow> recording_ok (eg_collector (wk_engine (scale_alias lts' k)))"
    by (rule scale_alias_recording) (use fits in \<open>simp_all add: spec_fits_def\<close>)
  with repeat_started show ?thesis
    using worker_safe_started [OF fits safe, where r = None and p = RunningRepeat and si = "StatsInterval (wk_config k)"
        and ?k1.0 = "scale_alias lts' k" and env = env and e = e and al = True and now = now]
    by (simp add: start_spec_def between_specs_def)
next
  case (repeat_not_started lts cfg lts' now err e)
  note fits = rep [OF repeat_not_started(2,3), folded repeat_not_started(5)]
  have "recording_ok (eg_collector (wk_engine k)) \<Longrightarrow> recording_ok (eg_collector (wk_engine (scale_alias lts' k)))"
    by (rule scale_alias_recording) (use fits in \<open>simp_all add: spec_fits_def\<close>)
  with repeat_not_started show ?thesis
    using worker_safe_started [OF fits safe, where r = "Some err" and p = AtRepeat and si = "StatsInterval (wk_config k)"
        and ?k1.0 = "scale_alias lts' k" and env = env and e = e and now = now]
    by (simp add: start_spec_def between_specs_def)
next
  case (repeat_completed now g r e)
  then show ?thesis using worker_safe_stopped [OF safe] by simp
next
  case repeat_cancelled
  with safe show ?thesis by (simp add: worker_safe_def between_specs_def)
qed

section \<open>A worker with a fitting configuration\<close>

lemma fitting_config_specs:
  assumes "fitting_config im c"
  shows "\<exists>ls. cfg_LoadTestSpecs c = map Some ls \<and> (\<forall>lts \<in> set ls. spec_fits lts)
    \<and> (repeats c \<longrightarrow> (\<forall>n. spec_fits (scaled im (cfg_RepeatPolicy c) (last ls) n)))"
proof -
  let ?ls = "map the (cfg_LoadTestSpecs c)"
  have "s = Some (the s)" if "s \<in> set (cfg_LoadTestSpecs c)" for s
    using assms that by (auto simp: fitting_config_def)
  then have "cfg_LoadTestSpecs c = map Some ?ls" by (simp add: map_idI o_def)
  moreover have "\<forall>lts \<in> set ?ls. spec_fits lts" using assms by (auto simp: fitting_config_def)
  moreover have "repeats c \<longrightarrow> (\<forall>n. spec_fits (scaled im (cfg_RepeatPolicy c) (last ?ls) n))"
    using assms by (auto simp: fitting_config_def repeats_def last_map)
  ultimately show ?thesis by blast
qed

lemma worker_specs_fit:
  assumes inv: "worker_inv im c ls k" and ls: "cfg_LoadTestSpecs c = map Some ls"
    and fits: "\<forall>lts \<in> set ls. spec_fits lts"
    and rep: "repeats c \<longrightarrow> (\<forall>n. spec_fits (scaled im (cfg_RepeatPolicy c) (last ls) n))"
  shows "wk_phase k = AtSpec i \<Longrightarrow> i < length (cfg_LoadTestSpecs (wk_config k)) \<Longrightarrow>
      \<exists>lts. cfg_LoadTestSpecs (wk_config k) ! i = Some lts \<and> spec_fits lts"
    and "wk_phase k = AtRepeat \<Longrightarrow> \<exists>lts. last (cfg_LoadTestSpecs (wk_config k)) = Some lts
      \<and> spec_fits (ApplyMultipliers im (cfg_RepeatPolicy (wk_config k)) lts)"
proof -
  show "\<exists>lts. cfg_LoadTestSpecs (wk_config k) ! i = Some lts \<and> spec_fits lts"
    if "wk_phase k = AtSpec i" "i < length (cfg_LoadTestSpecs (wk_config k))"
  proof -
    have "cfg_LoadTestSpecs (wk_config k) = map Some ls" using inv that(1) by (auto simp: worker_inv_def)
    with that fits show ?thesis by simp
  qed
  show "\<exists>lts. last (cfg_LoadTestSpecs (wk_config k)) = Some lts
      \<and> spec_fits (ApplyMultipliers im (cfg_RepeatPolicy (wk_config k)) lts)" if "wk_phase k = AtRepeat"
    using worker_inv_last(2) [OF inv ls] inv rep that by (auto simp: worker_inv_def scaled_Suc)
qed

text \<open>An engine that nobody has started.\<close>

definition unused :: "('w, 'st) Engine \<Rightarrow> bool" where
  "unused e \<longleftrightarrow> eg_loadTestSpec e = None \<and> eg_errGroup e = NoGroup \<and> eg_publishers e = []"

lemma worker_reaches_safe:
  assumes r: "worker_reaches env (new_worker i c e) k" and e: "unused e" and c: "fitting_config (ee_impl env) c"
  shows "worker_safe k"
proof -
  obtain ls where ls: "cfg_LoadTestSpecs c = map Some ls" and fits: "\<forall>lts \<in> set ls. spec_fits lts"
    and rep: "repeats c \<longrightarrow> (\<forall>n. spec_fits (scaled (ee_impl env) (cfg_RepeatPolicy c) (last ls) n))"
    using fitting_config_specs [OF c] by blast
  from r show ?thesis
  proof induction
    case worker_reaches_refl
    show ?case using e by (simp add: worker_safe_def new_worker_def unused_def)
  next
    case (worker_reaches_step k k')
    note w = worker_specs_fit [OF worker_reaches_inv [OF worker_reaches_step.hyps(1) ls] ls fits rep]
    show ?case
      by (rule worker_safe_step [OF worker_reaches_step.hyps(2) worker_reaches_step.IH]) (use w in fastforce)+
  qed simp
qed

text \<open>A new collector has no spec: an error of the client that comes before the first one is a panic.\<close>

lemma new_collector_early_error:
  assumes "eg_collector (wk_engine k) = NewCollector t" and "next_spec (ee_impl env) k = Some lts"
    and "early_error env lts err (wk_engine k)"
  shows "worker_panics env k"
  by (rule error_before_config_panics [OF assms(2,3)])
    (simp add: assms(1) NewCollector_def RecordError_def recordError_def)

text \<open>
  A run of a fitting configuration whose client reports no error before the collector has its spec.
\<close>

lemma worker_never_panics:
  assumes r: "worker_reaches env (new_worker i c e) k0" and e: "unused e" and c: "fitting_config (ee_impl env) c"
    and k: "k = k0 \<or> k = k0\<lparr>wk_phase := Cleared\<rparr>" and silent: "\<forall>err w. \<not> ee_early env err w"
  shows "\<not> worker_panics env k"
proof
  obtain ls where ls: "cfg_LoadTestSpecs c = map Some ls" and fits: "\<forall>lts \<in> set ls. spec_fits lts"
    and rep: "repeats c \<longrightarrow> (\<forall>n. spec_fits (scaled (ee_impl env) (cfg_RepeatPolicy c) (last ls) n))"
    using fitting_config_specs [OF c] by blast
  have k0: "k = k0" if "between_specs (wk_phase k)" using k that by (auto simp: between_specs_def)
  note w = worker_specs_fit [OF worker_reaches_inv [OF r ls] ls fits rep]
  have safe: "worker_safe k0" by (rule worker_reaches_safe [OF r e c])
  have same: "wk_engine k = wk_engine k0" "wk_group k = wk_group k0" "wk_config k = wk_config k0" using k by auto
  have "0 < sint (StatsInterval c)" using c by (simp add: fitting_config_def)
  then have interval: "0 < sint (StatsInterval (wk_config k))"
    using worker_interval [OF r] same by (simp add: new_worker_def)
  have start: "start_spec env now lts k1 \<noteq> Panic" if "spec_fits lts" "wk_config k1 = wk_config k" for now lts k1
    using Engine_Start_returns [of lts "StatsInterval (wk_config k)" env now "wk_engine k1"] that interval
    by (auto simp: start_spec_def spec_fits_def)
  assume "worker_panics env k"
  then show False
  proof cases
    case (nil_spec i)
    with w(1) k0 show ?thesis by (fastforce simp: between_specs_def)
  next
    case (spec_start_panics i lts now)
    with w(1) [of i] k0 start [of lts k now] show ?thesis by (fastforce simp: between_specs_def)
  next
    case nil_repeat
    with w(2) k0 show ?thesis by (fastforce simp: between_specs_def)
  next
    case (repeat_start_panics lts lts' now)
    with w(2) k0 start [of lts' "scale_alias lts' k" now] show ?thesis by (fastforce simp: between_specs_def)
  next
    case (error_before_config_panics lts err)
    with silent show ?thesis by (auto simp: early_error_def split: prod.splits option.splits)
  next
    case goroutine_panics
    then have "eg_errGroup (wk_engine k) = GroupRunning" by cases simp_all
    then have "group_inv (wk_engine k, wk_group k)" using safe same by (simp add: worker_safe_def)
    with group_inv_no_panic goroutine_panics show ?thesis by blast
  next
    case (stop_panics now g)
    have "\<forall>lts. eg_loadTestSpec (wk_engine k) = Some lts \<longrightarrow> (\<forall>s \<in> set (lts_Streams lts). stream_ok s)"
      using safe same startable_streams by (auto simp: worker_safe_def)
    from Engine_Stop_returns [OF this, of env now g] stop_panics(2) show ?thesis by auto
  qed
qed

end
