(* ===== verification/Process.thy ===== *)
theory Process
  imports No_Panic Main_Command
begin

text \<open>
  The process (\<open>run\<close> of \<open>cmd/load-tester/main.go\<close> after its checks, and the Go runtime): the
  goroutine of the manager goes on until a signal ends the process or a panic does.
\<close>

section \<open>Steps\<close>

datatype status = Alive | Exited | Crashed

record ('w, 'st) process =
  pr_manager :: "('w, 'st) Manager"
  pr_signalled :: bool
  pr_status :: status

definition new_process :: "('w, 'st) Manager \<Rightarrow> ('w, 'st) process" where
  "new_process m = \<lparr>pr_manager = m, pr_signalled = False, pr_status = Alive\<rparr>"

text \<open>
  Only the signal cancels the context.  After it, \<open>run\<close> returns and the process ends, whatever
  the manager's goroutines have come to; \<open>Manager.Start\<close> is not waited for.
\<close>

inductive process_step :: "('w, 'st, 'e) manager_env \<Rightarrow> ('w, 'st) process \<Rightarrow> ('w, 'st) process \<Rightarrow> bool" for env where
  manager_moved:
    "pr_status p = Alive \<Longrightarrow> manager_step env (pr_manager p) m \<Longrightarrow> mg_ctxDone m = mg_ctxDone (pr_manager p) \<Longrightarrow>
     process_step env p (p\<lparr>pr_manager := m\<rparr>)"
| signal_received:
    "pr_status p = Alive \<Longrightarrow> \<not> pr_signalled p \<Longrightarrow>
     process_step env p (p\<lparr>pr_signalled := True, pr_manager := cancel_context (pr_manager p)\<rparr>)"
| command_returned:
    "pr_status p = Alive \<Longrightarrow> pr_signalled p \<Longrightarrow> process_step env p (p\<lparr>pr_status := Exited\<rparr>)"
| goroutine_panicked:
    "pr_status p = Alive \<Longrightarrow> k \<in> set (mg_workers (pr_manager p)) \<Longrightarrow> worker_panics (me_engine env) k \<Longrightarrow>
     process_step env p (p\<lparr>pr_status := Crashed\<rparr>)"

inductive_cases process_stepE: "process_step env p p'"

text \<open>The states that are reached while every configuration in the queue is one of a given kind.\<close>

inductive process_reaches ::
  "('w, 'st, 'e) manager_env \<Rightarrow> (Config \<Rightarrow> bool) \<Rightarrow> ('w, 'st) process \<Rightarrow> ('w, 'st) process \<Rightarrow> bool" for env ok p0 where
  process_reaches_refl: "\<forall>c \<in> set (channel (pr_manager p0)). ok c \<Longrightarrow> process_reaches env ok p0 p0"
| process_reaches_step:
    "process_reaches env ok p0 p \<Longrightarrow> process_step env p p' \<Longrightarrow>
     \<forall>c \<in> set (channel (pr_manager p')). ok c \<Longrightarrow> process_reaches env ok p0 p'"

lemma process_reaches_queue:
  "process_reaches env ok p0 p \<Longrightarrow> \<forall>c \<in> set (channel (pr_manager p)). ok c"
  by (induction rule: process_reaches.induct) simp_all

section \<open>The command line\<close>

text \<open>
  The library \<open>cobra\<close> reads the arguments: it prints a usage text, refuses a flag or calls \<open>run\<close>
  with the flags over their defaults.  The left result is an exit status; the right one is the
  process that waits for a signal.
\<close>

datatype cobra_result = UsagePrinted | FlagRefused | Parsed cliArgs

definition main ::
  "(cliArgs \<Rightarrow> string list \<Rightarrow> cobra_result) \<Rightarrow> (string \<Rightarrow> bool) \<Rightarrow> (string \<Rightarrow> json option option) \<Rightarrow> 'w
    \<Rightarrow> string list \<Rightarrow> int + ('w, 'st) process" where
  "main cobra stat read w argv =
     (case cobra default_args argv of
        UsagePrinted \<Rightarrow> Inl 0
      | FlagRefused \<Rightarrow> Inl 1
      | Parsed args \<Rightarrow>
          (case run stat read w (Some args) of
             Return m \<Rightarrow> Inr (new_process m)
           | Error e \<Rightarrow> Inl 1
           | Panic \<Rightarrow> Inl 2))"

definition exit_code :: "('w, 'st) process \<Rightarrow> int option" where
  "exit_code p = (case pr_status p of Alive \<Rightarrow> None | Exited \<Rightarrow> Some 0 | Crashed \<Rightarrow> Some 2)"

lemma main_starts:
  assumes "main cobra stat read w argv = Inr p"
  obtains args m where "cobra default_args argv = Parsed args" and "run stat read w (Some args) = Return m"
    and "p = new_process m"
  using assms by (auto simp: main_def split: cobra_result.splits outcome.splits)

section \<open>Where the runs of a manager come from\<close>

definition run_of :: "('w, 'st, 'e) engine_env \<Rightarrow> (Config \<Rightarrow> bool) \<Rightarrow> ('w, 'st) Worker \<Rightarrow> bool" where
  "run_of env ok k \<longleftrightarrow> (\<exists>i c e k0. ok c \<and> unused e \<and> worker_reaches env (new_worker i c e) k0
     \<and> (k = k0 \<or> k = k0\<lparr>wk_phase := Cleared\<rparr>))"

definition runs_of :: "('w, 'st, 'e) engine_env \<Rightarrow> (Config \<Rightarrow> bool) \<Rightarrow> ('w, 'st) Manager \<Rightarrow> bool" where
  "runs_of env ok m \<longleftrightarrow>
     (\<forall>k \<in> set (mg_workers m). run_of env ok k) \<and> (\<forall>c. mg_phase m = Locking c \<longrightarrow> ok c)"

lemma unused_NewEngine: "unused (NewEngine cl st p q w)"
  by (simp add: NewEngine_def unused_def)

lemma run_ofI:
  assumes "ok c" and "unused e" and "worker_reaches env (new_worker i c e) k0" and "k = k0 \<or> k = k0\<lparr>wk_phase := Cleared\<rparr>"
  shows "run_of env ok k"
  using assms unfolding run_of_def by (intro exI [of _ i] exI [of _ c] exI [of _ e] exI [of _ k0]) simp

lemma run_of_new: "ok c \<Longrightarrow> run_of env ok (new_worker i c (NewEngine cl st p q w))"
  by (erule run_ofI [where i = i and e = "NewEngine cl st p q w" and ?k0.0 = "new_worker i c (NewEngine cl st p q w)"]) (simp_all add: unused_NewEngine worker_reaches_refl)

lemma run_of_cancelled:
  assumes "run_of env ok k" shows "run_of env ok (k\<lparr>wk_cancelled := True\<rparr>)"
proof -
  obtain i c e k0 where k: "ok c" "unused e" "worker_reaches env (new_worker i c e) k0"
    "k = k0 \<or> k = k0\<lparr>wk_phase := Cleared\<rparr>"
    using assms by (auto simp: run_of_def)
  have "k\<lparr>wk_cancelled := True\<rparr> = k0\<lparr>wk_cancelled := True\<rparr>
      \<or> k\<lparr>wk_cancelled := True\<rparr> = k0\<lparr>wk_cancelled := True\<rparr>\<lparr>wk_phase := Cleared\<rparr>"
    using k(4) by auto
  then show ?thesis by (rule run_ofI [where ok = ok, OF k(1,2) worker_reaches_cancel [OF k(3)]])
qed

lemma run_of_moved:
  assumes "run_of env ok k" and "worker_step env k k'" shows "run_of env ok k'"
proof -
  obtain i c e k0 where k: "ok c" "unused e" "worker_reaches env (new_worker i c e) k0"
    "k = k0 \<or> k = k0\<lparr>wk_phase := Cleared\<rparr>"
    using assms(1) by (auto simp: run_of_def)
  have "worker_step env k0 k'" using k(4) worker_step_cleared [OF assms(2)] assms(2) by auto
  then show ?thesis by (rule run_ofI [where ok = ok and k = k', OF k(1,2) worker_reaches_step [OF k(3)]]) simp
qed

lemma run_of_cleared: "run_of env ok k \<Longrightarrow> run_of env ok (k\<lparr>wk_phase := Cleared\<rparr>)"
  by (fastforce simp: run_of_def)

lemma manager_step_runs:
  assumes step: "manager_step env m m'" and runs: "runs_of (me_engine env) ok m" and queue: "\<forall>c \<in> set (channel m). ok c"
  shows "runs_of (me_engine env) ok m'"
  using step
proof cases
  case (config_received cfg rest)
  with runs queue show ?thesis by (auto simp: runs_of_def cancel_last_def pop_channel_def run_of_cancelled)
next
  case (config_locked cfg now)
  have "ok (newest_config cfg m)" using runs queue config_locked(2) last_in_set [of "cfg # channel m"]
    by (auto simp: runs_of_def newest_config_def split: if_splits)
  with runs show ?thesis unfolding config_locked(1)
    by (auto simp: runs_of_def locked_case_def install_config_def launch_def Let_def run_of_new split: option.split prod.split)
next
  case (worker_moved i k)
  with runs run_of_moved [of "me_engine env" ok "mg_workers m ! i" k] show ?thesis
    by (auto simp: runs_of_def dest!: set_update_subset_insert [THEN subsetD])
next
  case (run_cleared i)
  with runs show ?thesis
    by (auto simp: runs_of_def clear_run_def run_of_cleared dest!: set_update_subset_insert [THEN subsetD])
next
  case (run_released i now g r e)
  with runs show ?thesis by (auto simp: runs_of_def release_run_def dest: in_set_takeD in_set_dropD)
next
  case context_cancelled
  with runs show ?thesis by (auto simp: runs_of_def cancel_context_def run_of_cancelled)
next
  case loop_returned
  with runs show ?thesis by (auto simp: runs_of_def cancel_last_def run_of_cancelled)
qed (use runs in \<open>simp_all add: runs_of_def\<close>)

lemma process_step_runs:
  assumes "process_step env p p'" and "runs_of (me_engine env) ok (pr_manager p)"
    and "\<forall>c \<in> set (channel (pr_manager p)). ok c"
  shows "runs_of (me_engine env) ok (pr_manager p')"
  using assms(1)
proof cases
  case (manager_moved m)
  with manager_step_runs assms(2,3) show ?thesis by auto
next
  case signal_received
  with manager_step_runs [OF context_cancelled] assms(2,3) show ?thesis by auto
qed (use assms(2) in simp_all)

lemma process_reaches_runs:
  assumes "process_reaches env ok p0 p" and "runs_of (me_engine env) ok (pr_manager p0)"
  shows "runs_of (me_engine env) ok (pr_manager p)"
  using assms(1)
proof induction
  case (process_reaches_step p p')
  from process_step_runs [OF process_reaches_step.hyps(2) process_reaches_step.IH]
    process_reaches_queue [OF process_reaches_step.hyps(1)] show ?case by blast
qed (rule assms(2))

section \<open>When the process does not crash\<close>

lemma fitting_runs_no_panic:
  assumes "runs_of env (fitting_config (ee_impl env)) m" and "k \<in> set (mg_workers m)"
    and "\<forall>err w. \<not> ee_early env err w"
  shows "\<not> worker_panics env k"
proof -
  obtain i c e k0 where k: "fitting_config (ee_impl env) c" "unused e" "worker_reaches env (new_worker i c e) k0"
    "k = k0 \<or> k = k0\<lparr>wk_phase := Cleared\<rparr>"
    using assms(1,2) by (fastforce simp: runs_of_def run_of_def)
  show ?thesis by (rule worker_never_panics [OF k(3,2,1,4) assms(3)])
qed

lemma process_reaches_not_crashed:
  assumes "process_reaches env (fitting_config (ee_impl (me_engine env))) p0 p"
    and "runs_of (me_engine env) (fitting_config (ee_impl (me_engine env))) (pr_manager p0)" and "pr_status p0 \<noteq> Crashed"
    and "\<forall>err w. \<not> ee_early (me_engine env) err w"
  shows "pr_status p \<noteq> Crashed"
  using assms(1)
proof induction
  case (process_reaches_step p p')
  from process_reaches_step.hyps(2) show ?case
  proof cases
    case (goroutine_panicked k)
    with fitting_runs_no_panic [OF process_reaches_runs [OF process_reaches_step.hyps(1) assms(2)] _ assms(4)]
    show ?thesis by blast
  qed (use process_reaches_step.IH in simp_all)
qed (rule assms(3))

text \<open>The process holds together the manager it runs.\<close>

lemma process_reaches_manager_inv:
  assumes "process_reaches env ok p0 p" and "manager_inv (pr_manager p0)"
  shows "manager_inv (pr_manager p)"
  using assms(1)
proof induction
  case (process_reaches_step p p')
  from process_reaches_step.hyps(2) show ?case
  proof cases
    case (manager_moved m)
    with manager_step_inv process_reaches_step.IH show ?thesis by auto
  next
    case signal_received
    with manager_step_inv [OF context_cancelled] process_reaches_step.IH show ?thesis by auto
  qed (use process_reaches_step.IH in simp_all)
qed (rule assms(2))

section \<open>Steps of a process with one run\<close>

lemma process_manager_step:
  assumes "process_reaches env ok p0 p" and "pr_status p = Alive" and "manager_step env (pr_manager p) m"
    and "mg_ctxDone m = mg_ctxDone (pr_manager p)" and "\<forall>c \<in> set (channel m). ok c"
  shows "process_reaches env ok p0 (p\<lparr>pr_manager := m\<rparr>)"
  by (rule process_reaches_step [OF assms(1) manager_moved [OF assms(2-4)]]) (use assms(5) in simp)

text \<open>A configuration in the queue of an idle manager becomes its run.\<close>

lemma process_launches:
  assumes r: "process_reaches env ok p0 p" and alive: "pr_status p = Alive"
    and m: "mg_phase (pr_manager p) = Listening" "\<not> mg_mutex (pr_manager p)" "mg_workers (pr_manager p) = []"
      "channel (pr_manager p) = [cfg]"
    and st: "me_createStorage env (cfg_Storage cfg) (mg_world (pr_manager p)) = (Some st, w)"
  shows "\<exists>p' i. process_reaches env ok p0 p' \<and> pr_status p' = Alive \<and> channel (pr_manager p') = []
    \<and> mg_workers (pr_manager p') =
        [new_worker i cfg (NewEngine (NewCollector now) (Some st) (enables_publishers (mg_mode (pr_manager p)))
           (enables_consumers (mg_mode (pr_manager p))) w)]"
proof -
  let ?m1 = "(cancel_last (pop_channel (pr_manager p)))\<lparr>mg_phase := Locking cfg\<rparr>"
  let ?m2 = "locked_case env now cfg ?m1"
  have "manager_step env (pr_manager p) ?m1" by (rule config_received) (use m in simp_all)
  then have r1: "process_reaches env ok p0 (p\<lparr>pr_manager := ?m1\<rparr>)"
    by (rule process_manager_step [OF r alive]) (simp_all add: cancel_last_def pop_channel_def m)
  have alive1: "pr_status (p\<lparr>pr_manager := ?m1\<rparr>) = Alive" using alive by simp
  have "manager_step env ?m1 ?m2" by (rule config_locked) (use m in \<open>simp_all add: cancel_last_def pop_channel_def\<close>)
  then have "manager_step env (pr_manager (p\<lparr>pr_manager := ?m1\<rparr>)) ?m2" by simp
  then have "process_reaches env ok p0 (p\<lparr>pr_manager := ?m1\<rparr>\<lparr>pr_manager := ?m2\<rparr>)"
    by (rule process_manager_step [OF r1 alive1])
      (simp_all add: locked_case_def install_config_def launch_def SetConfig_server_def SetCollector_def
        cancel_last_def pop_channel_def newest_config_def m st Let_def)
  moreover have "channel ?m2 = []"
    "mg_workers ?m2 = [new_worker (mg_nextRun (pr_manager p)) cfg (NewEngine (NewCollector now) (Some st)
       (enables_publishers (mg_mode (pr_manager p))) (enables_consumers (mg_mode (pr_manager p))) w)]"
    by (simp_all add: locked_case_def install_config_def launch_def SetConfig_server_def SetCollector_def
        cancel_last_def pop_channel_def newest_config_def m st Let_def)
  ultimately show ?thesis
    using alive by (intro exI [of _ "p\<lparr>pr_manager := ?m1\<rparr>\<lparr>pr_manager := ?m2\<rparr>"] exI [of _ "mg_nextRun (pr_manager p)"]) simp
qed

text \<open>The run of a process takes its steps.\<close>

lemma process_worker_moves:
  assumes "(worker_step (me_engine env))\<^sup>*\<^sup>* k k'" and "process_reaches env ok p0 p" and "pr_status p = Alive"
    and "mg_workers (pr_manager p) = [k]"
  shows "\<exists>p'. process_reaches env ok p0 p' \<and> pr_status p' = Alive \<and> mg_workers (pr_manager p') = [k']
    \<and> channel (pr_manager p') = channel (pr_manager p) \<and> pr_signalled p' = pr_signalled p"
  using assms(1)
proof induction
  case base
  then show ?case using assms(2-4) by blast
next
  case (step k1 k2)
  obtain q where q: "process_reaches env ok p0 q" "pr_status q = Alive" "mg_workers (pr_manager q) = [k1]"
    "channel (pr_manager q) = channel (pr_manager p)" "pr_signalled q = pr_signalled p" using step.IH by blast
  let ?m = "(pr_manager q)\<lparr>mg_server := share k2 (mg_server (pr_manager q)), mg_workers := (mg_workers (pr_manager q))[0 := k2]\<rparr>"
  have "manager_step env (pr_manager q) ?m"
    by (rule worker_moved) (use q(3) step.hyps(2) in simp_all)
  then have "process_reaches env ok p0 (q\<lparr>pr_manager := ?m\<rparr>)"
    by (rule process_manager_step [OF q(1,2)]) (use process_reaches_queue [OF q(1)] in \<open>simp_all add: share_def\<close>)
  then show ?case using q(2-5) by (intro exI [of _ "q\<lparr>pr_manager := ?m\<rparr>"]) (simp add: share_def)
qed

lemma process_crashes:
  assumes "process_reaches env ok p0 p" and "pr_status p = Alive" and "k \<in> set (mg_workers (pr_manager p))"
    and "worker_panics (me_engine env) k"
  shows "\<exists>p'. process_reaches env ok p0 p' \<and> pr_status p' = Crashed"
proof -
  have "process_reaches env ok p0 (p\<lparr>pr_status := Crashed\<rparr>)"
    by (rule process_reaches_step [OF assms(1) goroutine_panicked [OF assms(2-4)]])
      (use process_reaches_queue [OF assms(1)] in simp)
  then show ?thesis by (intro exI [of _ "p\<lparr>pr_status := Crashed\<rparr>"]) simp
qed

end
