(* ===== verification/Shipped_Run.thy ===== *)
theory Shipped_Run
  imports Process Example_Config
begin

text \<open>
  What a run of the shipped configuration does with its repetitions: the policy doubles the rate
  of ten thousand each time, so that after seventeen repetitions it is more than a billion.
\<close>

section \<open>The repeated spec\<close>

definition repeated_spec :: "int64 \<Rightarrow> int32 \<Rightarrow> int32 \<Rightarrow> LoadTestSpec" where
  "repeated_spec d n r = validated_spec
     \<lparr>lts_Behavior := \<lparr>bc_DurationSeconds = d, bc_RampUpSeconds = 30\<rparr>,
      lts_Publishers := example_publishers\<lparr>ps_CountPerStream := n, ps_PublishRatePerSecond := r\<rparr>\<rparr>"

abbreviation six_fifths :: rat where
  "six_fifths \<equiv> 5404319552844595 / 4503599627370496"

lemma ApplyMultipliers_repeated:
  "ApplyMultipliers im example_policy (repeated_spec d c r) =
     repeated_spec (scale64 im d (Fin six_fifths)) (scale32 im c (Fin six_fifths)) (scale32 im r (Fin 2))"
  by (simp add: ApplyMultipliers_def repeated_spec_def example_policy_def example_defs scale_stream_def
      scale_behavior_def scale_consumers_def scale_publishers_def scale64_one exact64_def)

lemma scaled_shipped:
  assumes "n \<le> 17"
  shows "\<exists>d c r. scaled im example_policy validated_spec n = repeated_spec d c r
    \<and> 0 < sint d \<and> sint d \<le> 300 * 2 ^ n \<and> 0 < sint c \<and> sint c \<le> 50 * 2 ^ n \<and> sint r = 10000 * 2 ^ n"
  using assms
proof (induction n)
  case 0
  have "scaled im example_policy validated_spec 0 = repeated_spec 300 50 10000"
    by (simp add: repeated_spec_def example_defs)
  then show ?case by (intro exI [of _ 300] exI [of _ 50] exI [of _ 10000]) simp
next
  case (Suc n)
  obtain d c r where s: "scaled im example_policy validated_spec n = repeated_spec d c r"
    and d: "0 < sint d" "sint d \<le> 300 * 2 ^ n" and c: "0 < sint c" "sint c \<le> 50 * 2 ^ n" and r: "sint r = 10000 * 2 ^ n"
    using Suc by auto
  have "(2 :: int) ^ n \<le> 2 ^ 16" using Suc.prems by (intro power_increasing) simp_all
  then have p: "(2 :: int) ^ n \<le> 65536" by simp
  have q: "(1 :: rat) \<le> six_fifths" "six_fifths \<le> (2 :: rat)" by simp_all
  let ?d = "scale64 im d (Fin six_fifths)" and ?c = "scale32 im c (Fin six_fifths)" and ?r = "scale32 im r (Fin 2)"
  have "sint d \<le> sint ?d \<and> sint ?d \<le> 2 * sint d" by (rule scale64_factor [OF q]) (use d p in simp_all)
  moreover have "sint c \<le> sint ?c \<and> sint ?c \<le> 2 * sint c" by (rule scale32_factor [OF q]) (use c p in simp_all)
  moreover have "sint ?r = 2 * sint r" by (rule scale32_double) (use r p in simp_all)
  moreover have "scaled im example_policy validated_spec (Suc n) = repeated_spec ?d ?c ?r"
    by (simp add: scaled_Suc [symmetric] s ApplyMultipliers_repeated)
  ultimately show ?case using d c r by (intro exI [of _ ?d] exI [of _ ?c] exI [of _ ?r]) simp
qed

lemma repeated_spec_startable:
  assumes "0 < sint d" and "0 < sint c" and "0 < sint r" shows "startable (repeated_spec d c r)"
proof -
  have "spec_wf (repeated_spec d c r)"
    using validated_spec_wf assms
    by (simp add: spec_wf_def spec_ok_def repeated_spec_def behavior_ok_def publisher_ok_def example_spec_def example_publishers_def)
      (simp add: example_consumers_def)
  then show ?thesis by (simp add: startable_def countable_subjects_def) (simp add: repeated_spec_def example_defs)
qed

lemma scaled_shipped_startable: "n \<le> 17 \<Longrightarrow> startable (scaled im example_policy validated_spec n)"
  using scaled_shipped [of n im] repeated_spec_startable by fastforce

lemma repeated_spec_targets:
  assumes "0 < sint c" shows "publisher_targets other (repeated_spec d c r) \<noteq> []"
proof -
  have "publisher_targets other (repeated_spec d c r) = targets_of other (nat (sint c)) (example_stream [''test.subject.%d''])"
    by (simp add: publisher_targets_def repeated_spec_def example_defs)
  moreover have "length (targets_of other (nat (sint c)) (example_stream [''test.subject.%d''])) = 10 * nat (sint c)"
    by (simp add: length_targets_of) (simp add: example_stream_def)
  ultimately show ?thesis using assms by (metis length_greater_0_conv mult_pos_pos zero_less_nat_eq zero_less_numeral)
qed

section \<open>A rate that no ticker can hold\<close>

text \<open>
  A publisher begins, the ramp-up ends, and the next tick of the publisher finds a rate of more
  than a billion.
\<close>

lemma fast_group_panics:
  assumes lts: "startable lts" and start: "Engine_Start env now lts si e = Return (None, e')"
    and enabled: "eg_enablePublishers e" and targets: "publisher_targets (ee_other env) lts \<noteq> []"
    and steady: "ps_PublishPattern (lts_Publishers lts) = PublishPatternSteady"
    and fast: "1000000000 < sint (ps_PublishRatePerSecond (lts_Publishers lts))"
    and ramp: "RampUpDuration lts \<noteq> 0"
  shows "\<exists>s. (group_step env)\<^sup>*\<^sup>* (e', new_group e') s \<and> group_panics env s"
proof -
  note s = Engine_Start_running [OF lts start]
  obtain t ts where ts: "publisher_targets (ee_other env) lts = t # ts" using targets by (cases "publisher_targets (ee_other env) lts") auto
  let ?p = "made_publisher (ee_rnd env) (publisher_config lts t)"
  obtain ps where ps: "eg_publishers e' = ?p # ps" using s(4) enabled ts by simp
  have p: "pc_PublishPattern (pb_config ?p) = PublishPatternSteady" "sint (pb_targetRate ?p) > 1000000000"
    using steady fast by (simp_all add: made_publisher_def publisher_config_def)
  let ?l = "\<lparr>pl_publisher = ?p\<lparr>pb_currentRate := 1\<rparr>, pl_lastRate = 1, pl_interval = quot64 Second 1\<rparr>"
  have "publisher_begin 0 ?p = Return ?l"
    using p(1) steady_interval [of 1] by (simp add: publisher_begin_def calculatePublishInterval_def GetCurrentRate_def)
  let ?g1 = "(new_group e')\<lparr>gr_publishers := Looping ?l # map Waiting ps\<rparr>"
  have g: "gr_publishers (new_group e') = Waiting ?p # map Waiting ps" using ps by (simp add: new_group_def)
  have "routine_run (consumer_env env e') (\<lambda>k. 0) 0 (gr_publishers (new_group e') ! 0) (eg_collector e', eg_world e')
      = Return (Looping ?l, eg_collector e', eg_world e')" using \<open>publisher_begin 0 ?p = Return ?l\<close> by (simp add: g)
  from publisher_ran [OF s(1) _ _ this] have s1: "group_step env (e', new_group e') (e', ?g1)" by (simp add: g)
  let ?r = "ramp_begin routine_target routine_set 0 (gr_publishers ?g1) (RampUpDuration lts) (Some (eg_collector e'))"
  have s2: "group_step env (e', ?g1) (ramp_share ?r (e', ?g1))"
    by (rule ramp_began [OF s(1) _ s(3) refl]) (simp add: new_group_def)
  obtain e2 g2 where s2': "ramp_share ?r (e', ?g1) = (e2, g2)" by fastforce
  have e2: "eg_errGroup e2 = GroupRunning" "gr_ramp g2 = Some ?r" "ra_status ?r = RampRunning"
    "gr_publishers g2 = Looping ?l # map Waiting ps"
    using s2' s(1) ramp by (auto simp: ramp_share_def ramp_begin_def report_def Let_def)
  let ?r3 = "ramp_handle (ee_impl env) routine_target routine_set RampTimer (ramp_view e2 g2 ?r)"
  have s3: "group_step env (e2, g2) (ramp_share ?r3 (e2, g2))"
    by (rule ramp_went [OF e2(1-3)]) simp
  obtain e3 g3 where s3': "ramp_share ?r3 (e2, g2) = (e3, g3)" by fastforce
  have e3: "eg_errGroup e3 = GroupRunning"
    "gr_publishers g3 = routine_set (routine_target (Looping ?l)) (Looping ?l) # map (\<lambda>p. routine_set (routine_target p) p) (map Waiting ps)"
    using s3' e2 by (auto simp: ramp_share_def ramp_view_def report_def setAllPublishersToFullRate_def)
  have "recording_ok (eg_collector e2)"
    using s2' s(2) by (auto simp: ramp_share_def ramp_begin_def report_def Let_def)
  then have "recording_ok (eg_collector e3)"
    using s3' by (auto simp: ramp_share_def ramp_view_def report_def)
  moreover have "GetCurrentRate (pl_publisher (set_loop_rate (routine_target (Looping ?l)) ?l)) = pb_targetRate ?p"
    using p(2) by (simp add: set_loop_rate_def routine_target_def GetCurrentRate_def GetTargetRate_def SetRate_def word_eq_sint_iff)
  ultimately have "publisher_tick (consumer_env env e3) (\<lambda>k. 0) 0
      (set_loop_rate (routine_target (Looping ?l)) ?l, eg_collector e3, eg_world e3) = Panic"
    using p by (intro fast_rate_panics) (simp_all add: set_loop_rate_def SetRate_def word_eq_sint_iff)
  then have "group_panics env (e3, g3)"
    by (intro publisher_panics [OF e3(1), where i = 0 and rnd = 0 and clock = "\<lambda>k. 0"]) (simp_all add: e3(2))
  moreover have "(group_step env)\<^sup>*\<^sup>* (e', new_group e') (e3, g3)"
    using s1 s2 s3 unfolding s2' s3' by (meson converse_rtranclp_into_rtranclp rtranclp.rtrancl_refl)
  ultimately show ?thesis by blast
qed

section \<open>The run\<close>

lemma Engine_Stop_enabled:
  "Engine_Stop env now g e = Return (r, e') \<Longrightarrow> eg_enablePublishers e' = eg_enablePublishers e"
  by (auto simp: Engine_Stop_def wait_group_def cleanup_def Let_def obind_eq_Return split: group_state.splits prod.splits)

lemma Engine_Start_enabled:
  assumes "startable lts" and "Engine_Start env now lts si e = Return (None, e')"
  shows "eg_enablePublishers e' = eg_enablePublishers e"
proof -
  obtain e1 w where c: "engine_connect env lts e = (None, e1)"
    and k: "create_consumers_of env lts
        (if eg_enablePublishers e
         then (configure env now lts e1)\<lparr>eg_world := w,
                eg_publishers := map (\<lambda>t. made_publisher (ee_rnd env) (publisher_config lts t))
                  (publisher_targets (ee_other env) lts)\<rparr>
         else (configure env now lts e1)\<lparr>eg_world := w\<rparr>) = Return (None, e')"
    using Engine_Start_NoneD [OF assms] by (elim exE conjE) (rule that)
  from k have "eg_enablePublishers e' = eg_enablePublishers e1"
    by (auto simp: create_consumers_of_def configure_def split: if_splits)
  with engine_connect_frame [OF c] show ?thesis by simp
qed

text \<open>The worker is about to begin its next repetition.\<close>

definition at_repetition :: "impl \<Rightarrow> nat \<Rightarrow> ('w, 'st) Worker \<Rightarrow> bool" where
  "at_repetition im n k \<longleftrightarrow> wk_phase k = AtRepeat \<and> wk_repeatCount k = n
     \<and> wk_config k = validated_config\<lparr>cfg_LoadTestSpecs := [Some (scaled im example_policy validated_spec n)]\<rparr>
     \<and> eg_enablePublishers (wk_engine k)"

definition starts :: "('w, 'st, 'e) engine_env \<Rightarrow> bool" where
  "starts env \<longleftrightarrow> (\<forall>now lts si e. startable lts \<longrightarrow> 0 < sint si \<longrightarrow> (\<exists>e'. Engine_Start env now lts si e = Return (None, e')))"

lemma stop_started:
  assumes "startable lts" and "Engine_Start env now lts si e = Return (None, e')"
  shows "\<exists>r e''. Engine_Stop env now' g e' = Return (r, e'')"
  by (rule Engine_Stop_returns) (use Engine_Start_running(3) [OF assms] startable_streams [OF assms(1)] in auto)

lemma shipped_interval: "StatsInterval (validated_config\<lparr>cfg_LoadTestSpecs := l\<rparr>) = 5000000000"
  by (simp add: StatsInterval_def example_config_def Second_def)

text \<open>A repetition begins; the worker is then running with the engine just started.\<close>

lemma repetition_started:
  assumes env: "starts env" and k: "at_repetition (ee_impl env) n k" and n: "n < 17"
  shows "\<exists>e0 e k'. Engine_Start env 0 (scaled (ee_impl env) example_policy validated_spec (Suc n)) 5000000000 e0 = Return (None, e)
    \<and> eg_enablePublishers e0 \<and> worker_step env k k' \<and> wk_phase k' = RunningRepeat \<and> wk_repeatCount k' = Suc n
    \<and> wk_config k' = validated_config\<lparr>cfg_LoadTestSpecs := [Some (scaled (ee_impl env) example_policy validated_spec (Suc n))]\<rparr>
    \<and> wk_engine k' = e \<and> wk_group k' = new_group e"
proof -
  let ?l = "scaled (ee_impl env) example_policy validated_spec n" and ?l' = "scaled (ee_impl env) example_policy validated_spec (Suc n)"
  have cfg: "wk_config k = validated_config\<lparr>cfg_LoadTestSpecs := [Some ?l]\<rparr>" using k by (simp add: at_repetition_def)
  have rp: "cfg_RepeatPolicy (wk_config k) = example_policy" by (simp add: cfg example_config_def)
  have l': "ApplyMultipliers (ee_impl env) (cfg_RepeatPolicy (wk_config k)) ?l = ?l'" by (simp add: rp scaled_Suc)
  have "startable ?l'" by (rule scaled_shipped_startable) (use n in simp)
  moreover have "0 < sint (5000000000 :: int64)" by simp
  ultimately obtain e where e: "Engine_Start env 0 ?l' 5000000000 (wk_engine (scale_alias ?l' k)) = Return (None, e)"
    using env by (simp only: starts_def) blast
  then have st: "start_spec env 0 ?l' (scale_alias ?l' k) = Return (None, e)"
    by (simp add: start_spec_def cfg shipped_interval)
  have "wk_phase k = AtRepeat" "last (cfg_LoadTestSpecs (wk_config k)) = Some ?l"
    using k by (simp_all add: at_repetition_def)
  from repeat_started [OF this refl l' [symmetric] st] have "worker_step env k ((started ?l' True e RunningRepeat k)
      \<lparr>wk_config := scale_last (ee_impl env) ?l (wk_config k), wk_repeatCount := Suc (wk_repeatCount k)\<rparr>)" .
  moreover have "scale_last (ee_impl env) ?l (wk_config k) = validated_config\<lparr>cfg_LoadTestSpecs := [Some ?l']\<rparr>"
    by (simp add: scale_last_def l') (simp add: cfg)
  moreover have "eg_enablePublishers (wk_engine (scale_alias ?l' k))"
    using k by (simp add: at_repetition_def scale_alias_def)
  ultimately show ?thesis using e k by (intro exI conjI) (assumption | simp add: started_def at_repetition_def)+
qed

lemma next_repetition:
  assumes env: "starts env" and k: "at_repetition (ee_impl env) n k" and n: "n < 17"
  shows "\<exists>k'. (worker_step env)\<^sup>*\<^sup>* k k' \<and> at_repetition (ee_impl env) (Suc n) k'"
proof -
  let ?l = "scaled (ee_impl env) example_policy validated_spec (Suc n)"
  obtain e0 e k1 where e: "Engine_Start env 0 ?l 5000000000 e0 = Return (None, e)" "eg_enablePublishers e0"
    and s: "worker_step env k k1" and k1: "wk_phase k1 = RunningRepeat" "wk_repeatCount k1 = Suc n"
      "wk_config k1 = validated_config\<lparr>cfg_LoadTestSpecs := [Some ?l]\<rparr>" "wk_engine k1 = e"
    using repetition_started [OF env k n] by blast
  have ok: "startable ?l" by (rule scaled_shipped_startable) (use n in simp)
  obtain r e1 where e1: "Engine_Stop env 0 None e = Return (r, e1)" using stop_started [OF ok e(1)] by blast
  have "eg_enablePublishers e1"
    using Engine_Stop_enabled [OF e1] Engine_Start_enabled [OF ok e(1)] e(2) by simp
  moreover have "worker_step env k1 (k1\<lparr>wk_engine := e1, wk_phase := AtRepeat\<rparr>)"
    by (rule repeat_completed [OF k1(1), where now = 0 and g = None and r = r]) (simp add: k1(4) e1)
  ultimately show ?thesis
    using s k1 by (intro exI [of _ "k1\<lparr>wk_engine := e1, wk_phase := AtRepeat\<rparr>"])
      (auto simp: at_repetition_def intro: rtranclp_trans)
qed

lemma first_repetition:
  assumes env: "starts env" and e0: "eg_enablePublishers e0"
  shows "\<exists>k. (worker_step env)\<^sup>*\<^sup>* (new_worker i validated_config e0) k \<and> at_repetition (ee_impl env) 0 k"
proof -
  let ?k0 = "new_worker i validated_config e0"
  have ok: "startable validated_spec" using scaled_shipped_startable [of 0] by simp
  moreover have "0 < sint (5000000000 :: int64)" by simp
  ultimately obtain e where e: "Engine_Start env 0 validated_spec 5000000000 e0 = Return (None, e)"
    using env by (simp only: starts_def) blast
  have specs: "cfg_LoadTestSpecs validated_config = [Some validated_spec]" by (simp add: example_config_def)
  have "start_spec env 0 validated_spec ?k0 = Return (None, e)"
    using e shipped_interval [of "[Some validated_spec]"] by (simp add: start_spec_def new_worker_def specs [symmetric])
  then have s1: "worker_step env ?k0 (started validated_spec True e (RunningSpec 0) ?k0)"
    by (intro spec_started [where i = 0]) (simp_all add: new_worker_def specs)
  let ?k1 = "started validated_spec True e (RunningSpec 0) ?k0"
  obtain r e1 where e1: "Engine_Stop env 0 None e = Return (r, e1)" using stop_started [OF ok e] by blast
  let ?k2 = "?k1\<lparr>wk_engine := e1, wk_phase := AtSpec (Suc 0)\<rparr>"
  have s2: "worker_step env ?k1 ?k2"
    by (rule spec_completed [where i = 0 and now = 0 and g = None and r = r]) (simp_all add: started_def e1)
  let ?k3 = "?k2\<lparr>wk_phase := AtRepeat\<rparr>"
  have rep: "repeats (wk_config ?k2)"
    by (simp add: started_def new_worker_def repeats_def specs) (simp add: example_config_def example_policy_def)
  have s3: "worker_step env ?k2 (?k2\<lparr>wk_phase := if repeats (wk_config ?k2) then AtRepeat else Finished\<rparr>)"
    by (rule specs_over) (simp add: started_def new_worker_def specs)
  have "eg_enablePublishers e1"
    using Engine_Stop_enabled [OF e1] Engine_Start_enabled [OF ok e] e0 by simp
  then have "at_repetition (ee_impl env) 0 ?k3"
    by (simp add: at_repetition_def started_def new_worker_def) (simp add: specs [symmetric])
  moreover have "(worker_step env)\<^sup>*\<^sup>* ?k0 ?k3"
    using s1 s2 s3 [unfolded if_P [OF rep]] by (meson converse_rtranclp_into_rtranclp rtranclp.rtrancl_refl)
  ultimately show ?thesis by blast
qed

text \<open>Seventeen repetitions and a ramp-up later, a publisher panics.\<close>

lemma shipped_run_panics:
  assumes env: "starts env" and e0: "eg_enablePublishers e0"
  shows "\<exists>k. (worker_step env)\<^sup>*\<^sup>* (new_worker i validated_config e0) k \<and> worker_panics env k"
proof -
  have "\<exists>k. (worker_step env)\<^sup>*\<^sup>* (new_worker i validated_config e0) k \<and> at_repetition (ee_impl env) n k" if "n \<le> 16" for n
    using that
  proof (induction n)
    case 0
    show ?case by (rule first_repetition [OF env e0])
  next
    case (Suc n)
    then show ?case using next_repetition [OF env, of n] by (auto intro: rtranclp_trans)
  qed
  then obtain k where k: "(worker_step env)\<^sup>*\<^sup>* (new_worker i validated_config e0) k" "at_repetition (ee_impl env) 16 k" by blast
  let ?l = "scaled (ee_impl env) example_policy validated_spec (Suc 16)"
  obtain e1 e k1 where e: "Engine_Start env 0 ?l 5000000000 e1 = Return (None, e)" "eg_enablePublishers e1"
    and s: "worker_step env k k1" and k1: "wk_phase k1 = RunningRepeat" "wk_engine k1 = e" "wk_group k1 = new_group e"
    using repetition_started [OF env k(2)] by auto
  obtain d c r where l: "?l = repeated_spec d c r" "0 < sint c" "sint r = 1310720000"
    using scaled_shipped [of "Suc 16" "ee_impl env"] by auto
  have ok: "startable ?l" by (rule scaled_shipped_startable) simp
  have ramp: "RampUpDuration ?l \<noteq> 0" unfolding l(1) by (simp add: RampUpDuration_def repeated_spec_def Second_def)
  obtain x where x: "(group_step env)\<^sup>*\<^sup>* (e, new_group e) x" "group_panics env x"
    using fast_group_panics [OF ok e(1,2) _ _ _ ramp] l repeated_spec_targets [OF l(2)]
    by (auto simp: repeated_spec_def example_publishers_def config_constants)
  have "\<exists>k'. (worker_step env)\<^sup>*\<^sup>* k1 k' \<and> wk_phase k' = RunningRepeat \<and> (wk_engine k', wk_group k') = x"
    using x(1)
  proof induction
    case base
    then show ?case using k1 by blast
  next
    case (step y z)
    obtain k' where k': "(worker_step env)\<^sup>*\<^sup>* k1 k'" "wk_phase k' = RunningRepeat" "(wk_engine k', wk_group k') = y"
      using step.IH by blast
    obtain e2 g2 where z: "z = (e2, g2)" by fastforce
    have "worker_step env k' (k'\<lparr>wk_engine := e2, wk_group := g2\<rparr>)"
      by (rule goroutine_ran) (use k' step.hyps(2) z in simp_all)
    with k' z show ?case by (intro exI [of _ "k'\<lparr>wk_engine := e2, wk_group := g2\<rparr>"]) auto
  qed
  then obtain k' where k': "(worker_step env)\<^sup>*\<^sup>* k1 k'" "(wk_engine k', wk_group k') = x" by blast
  have "worker_panics env k'" by (rule goroutine_panics) (use k'(2) x(2) in simp)
  moreover have "(worker_step env)\<^sup>*\<^sup>* (new_worker i validated_config e0) k'"
    using k(1) s k'(1) by (meson converse_rtranclp_into_rtranclp rtranclp_trans)
  ultimately show ?thesis by blast
qed

end
