(* ===== verification/Process_Properties.thy ===== *)
theory Process_Properties
  imports Shipped_Run Engine_Properties Service_Properties
begin

text \<open>
  The properties of the process as a whole: when it crashes and when it cannot, what a signal
  leaves behind, and what becomes of a service whose HTTP server cannot listen.
\<close>

section \<open>A process that cannot crash\<close>




text \<open>The configuration of the examples is fitting, and its run can be started on the calm server.\<close>

lemma steady_fitting: "fitting_config amd64 steady_config"
proof -
  have "all_startable amd64 steady_config [validated_spec]" by (rule steady_startable)
  moreover have "scaled amd64 steady_policy validated_spec n = validated_spec" for n
    using ApplyMultipliers_one [of steady_policy validated_spec amd64]
    by (induction n) (simp_all add: scaled_def neutral_policy_def steady_policy_def exact_spec_def exact64_def example_defs)
  ultimately show ?thesis
    using fitting_examples(1) by (auto simp: fitting_config_def all_startable_def spec_fits_def example_config_def)
qed

abbreviation ready :: "(server, unit) process" where
  "ready \<equiv> new_process booted"

lemma ready_simps [simp]:
  "pr_status ready = Alive" "mg_phase (pr_manager ready) = Listening" "\<not> mg_mutex (pr_manager ready)"
  "mg_workers (pr_manager ready) = []" "channel (pr_manager ready) = [steady_config]" "mg_mode (pr_manager ready) = ''both''"
  "mg_world (pr_manager ready) = Map.empty"
  by (simp_all add: new_process_def booted_def NewManager_def)

text \<open>A process in the middle of a run, with the streams of the spec on the server.\<close>

lemma running_process:
  "\<exists>p k n. process_reaches calm_manager_env (fitting_config amd64) ready p \<and> pr_status p = Alive
    \<and> channel (pr_manager p) = [] \<and> mg_workers (pr_manager p) = [k] \<and> wk_phase k = RunningSpec 0 \<and> eg_world (wk_engine k) n \<noteq> None"
proof -
  let ?ok = "fitting_config amd64" and ?e0 = "NewEngine (NewCollector 0) (Some ()) True True Map.empty :: (server, unit) Engine"
  have "process_reaches calm_manager_env ?ok ready ready"
    by (rule process_reaches_refl) (simp add: steady_fitting)
  then obtain p i where p: "process_reaches calm_manager_env ?ok ready p" "pr_status p = Alive" "channel (pr_manager p) = []"
    "mg_workers (pr_manager p) = [new_worker i steady_config ?e0]"
    using process_launches [of calm_manager_env ?ok ready ready steady_config "()" Map.empty 0]
    by (auto simp: calm_manager_env_def enables_publishers_def enables_consumers_def)
  let ?k = "new_worker i steady_config ?e0"
  obtain e where e: "start_spec calm 0 validated_spec ?k = Return (None, e)" using running_engine by blast
  have "worker_step calm ?k (started validated_spec True e (RunningSpec 0) ?k)"
    by (rule spec_started [OF _ _ _ e]) (simp_all add: new_worker_def example_config_def)
  then have "(worker_step (me_engine calm_manager_env))\<^sup>*\<^sup>* ?k (started validated_spec True e (RunningSpec 0) ?k)" by simp
  from process_worker_moves [OF this p(1,2,4)] p(3)
  obtain q where q: "process_reaches calm_manager_env ?ok ready q" "pr_status q = Alive" "channel (pr_manager q) = []"
    "mg_workers (pr_manager q) = [started validated_spec True e (RunningSpec 0) ?k]" by auto
  have "lts_UseJetStream validated_spec" by (simp add: example_spec_def)
  from Engine_Start_streams [OF calm_client_laws validated_spec_startable this e [unfolded start_spec_def]]
  have w: "eg_world e = install (spec_configs (ee_other calm) validated_spec) Map.empty"
    by (simp add: new_worker_def NewEngine_def)
  have "spec_stream_names validated_spec \<noteq> {}"
    by (auto simp: spec_stream_names_def example_spec_def example_stream_def) (intro exI [of _ 0], simp)
  then obtain c where c: "c \<in> set (spec_configs (ee_other calm) validated_spec)"
    using names_spec_configs [of "ee_other calm" validated_spec] by fastforce
  have "distinct (map stc_Name (spec_configs (ee_other calm) validated_spec))"
    unfolding spec_configs_def by (rule distinct_names_of) (simp add: example_spec_def)
  from install_distinct [OF this c] w have "eg_world e (stc_Name c) \<noteq> None" by simp
  with q show ?thesis by (intro exI) (auto simp: started_def)
qed




section \<open>A signal\<close>

text \<open>C34. The command returns on a signal without waiting for the manager, so the process can end in the
  middle of a run: what the run has put on the server stays there, its last statistics are never
  collected and its storage is never closed.\<close>

theorem signal_abandons_run:
  assumes "process_reaches env ok p0 p" and "pr_status p = Alive" and "mg_workers (pr_manager p) = [k]"
  shows "\<exists>p' k'. process_reaches env ok p0 p' \<and> pr_status p' = Exited \<and> mg_workers (pr_manager p') = [k']
    \<and> wk_phase k' = wk_phase k \<and> wk_engine k' = wk_engine k"
proof -
  let ?q = "if pr_signalled p then p else p\<lparr>pr_signalled := True, pr_manager := cancel_context (pr_manager p)\<rparr>"
  have queue: "\<forall>c \<in> set (channel (pr_manager p)). ok c" by (rule process_reaches_queue [OF assms(1)])
  then have "process_reaches env ok p0 ?q"
    using assms(1) process_reaches_step [OF assms(1) signal_received [OF assms(2)]] by (simp add: cancel_context_def)
  moreover have "process_step env ?q (?q\<lparr>pr_status := Exited\<rparr>)" by (rule command_returned) (use assms(2) in simp_all)
  ultimately have "process_reaches env ok p0 (?q\<lparr>pr_status := Exited\<rparr>)"
    by (rule process_reaches_step) (use queue in \<open>simp add: cancel_context_def\<close>)
  moreover have "mg_workers (pr_manager ?q) = [if pr_signalled p then k else k\<lparr>wk_cancelled := True\<rparr>]"
    using assms(3) by (simp add: cancel_context_def)
  ultimately show ?thesis by (intro exI [of _ "?q\<lparr>pr_status := Exited\<rparr>"]) (auto split: if_splits)
qed

theorem signal_abandons_run_witness:
  "\<exists>p n k. process_reaches calm_manager_env (fitting_config amd64) (new_process booted) p \<and> pr_status p = Exited
    \<and> mg_workers (pr_manager p) = [k] \<and> wk_phase k = RunningSpec 0 \<and> eg_world (wk_engine k) n \<noteq> None"
proof -
  obtain p k n where p: "process_reaches calm_manager_env (fitting_config amd64) ready p" "pr_status p = Alive"
    "mg_workers (pr_manager p) = [k]" "wk_phase k = RunningSpec 0" "eg_world (wk_engine k) n \<noteq> None"
    using running_process by blast
  from signal_abandons_run [OF p(1-3)] p(4,5) show ?thesis by metis
qed

section \<open>Configurations that crash the process\<close>

lemma overflowing_interval:
  assumes "9223372037 \<le> sint (cfg_StatsCollectionIntervalSeconds c)"
    and "sint (cfg_StatsCollectionIntervalSeconds c) \<le> 18446744073"
  shows "sint (StatsInterval c) \<le> 0"
proof -
  let ?s = "sint (cfg_StatsCollectionIntervalSeconds c)"
  have i: "StatsInterval c = word_of_int (?s * 1000000000)"
    by (simp add: StatsInterval_def Second_def)
  have "(word_of_int (?s * 1000000000) :: int64) = word_of_int (?s * 1000000000 - 2 ^ 64)"
    by (simp add: word_of_int_eq_iff take_bit_diff [symmetric] take_bit_eq_mod)
  moreover have "sint (word_of_int (?s * 1000000000 - 2 ^ 64) :: int64) = ?s * 1000000000 - 2 ^ 64"
    by (rule sint_of_int_64) (use assms in simp_all)
  ultimately have "sint (StatsInterval c) = ?s * 1000000000 - 2 ^ 64" by (simp only: i)
  then show ?thesis using assms(2) by simp
qed

text \<open>C32. A configuration whose collection interval is between 9223372037 and 18446744073 seconds passes
  validation, but the product with a second is negative as a 64-bit number: once its engine is
  connected, the ticker of the collector panics and the whole process is gone.\<close>

theorem overflowing_interval_crashes:
  assumes "config_wf cfg" and "9223372037 \<le> sint (cfg_StatsCollectionIntervalSeconds cfg)"
    and "sint (cfg_StatsCollectionIntervalSeconds cfg) \<le> 18446744073"
    and "process_reaches env ok p0 p" and "pr_status p = Alive" and "mg_phase (pr_manager p) = Listening"
    and "\<not> mg_mutex (pr_manager p)" and "mg_workers (pr_manager p) = []" and "channel (pr_manager p) = [cfg]"
    and "me_createStorage env (cfg_Storage cfg) (mg_world (pr_manager p)) = (Some st, w)"
    and "\<And>lts e. fst (engine_connect (me_engine env) lts e) = None"
  shows "Config_Validate cfg = Return cfg \<and> (\<exists>p'. process_reaches env ok p0 p' \<and> pr_status p' = Crashed)"
proof -
  obtain lts where lts: "cfg_LoadTestSpecs cfg \<noteq> []" "cfg_LoadTestSpecs cfg ! 0 = Some lts"
    using config_wf_specs [OF assms(1)] by (auto simp: nth_map)
  obtain p' i where p': "process_reaches env ok p0 p'" "pr_status p' = Alive"
    "mg_workers (pr_manager p') = [new_worker i cfg (NewEngine (NewCollector 0) (Some st)
       (enables_publishers (mg_mode (pr_manager p))) (enables_consumers (mg_mode (pr_manager p))) w)]"
    (is "_ = [?k]")
    using process_launches [OF assms(4-10), of 0] by blast
  obtain e1 where "engine_connect (me_engine env) lts (wk_engine ?k) = (None, e1)"
    using assms(11) by (metis prod.collapse)
  then have "start_spec (me_engine env) 0 lts ?k = Panic"
    using overflowing_interval [OF assms(2,3)] by (simp add: start_spec_def new_worker_def Engine_Start_def)
  then have "worker_panics (me_engine env) ?k"
    by (intro spec_start_panics [where i = 0 and lts = lts]) (use lts in \<open>simp_all add: new_worker_def\<close>)
  from process_crashes [OF p'(1,2) _ this] p'(3) Config_Validate_id [OF assms(1)] show ?thesis by simp
qed

definition long_interval_config :: Config where
  "long_interval_config = steady_config\<lparr>cfg_StatsCollectionIntervalSeconds := 10000000000\<rparr>"

definition idle_process :: "Config \<Rightarrow> (server, unit) process" where
  "idle_process cfg = new_process (queued cfg Map.empty)"

lemma idle_process_simps [simp]:
  "pr_status (idle_process cfg) = Alive" "mg_phase (pr_manager (idle_process cfg)) = Listening"
  "\<not> mg_mutex (pr_manager (idle_process cfg))" "mg_workers (pr_manager (idle_process cfg)) = []"
  "channel (pr_manager (idle_process cfg)) = [cfg]" "mg_mode (pr_manager (idle_process cfg)) = ''both''"
  "mg_world (pr_manager (idle_process cfg)) = Map.empty"
  by (simp_all add: idle_process_def queued_def new_process_def NewManager_def)

theorem overflowing_interval_crashes_witness:
  "config_wf long_interval_config
    \<and> (\<exists>p. process_reaches calm_manager_env config_wf (idle_process long_interval_config) p \<and> pr_status p = Crashed)"
proof -
  have wf: "config_wf long_interval_config"
    using example_config_wf [OF example_policies_wf(2)] by (simp add: long_interval_config_def config_wf_def)
  have "fst (engine_connect (me_engine calm_manager_env) lts e) = None" for lts e
    using calm_connect [of lts e] by auto
  moreover have "process_reaches calm_manager_env config_wf (idle_process long_interval_config) (idle_process long_interval_config)"
    by (rule process_reaches_refl) (simp add: wf)
  ultimately show ?thesis
    using overflowing_interval_crashes [OF wf, of calm_manager_env config_wf "idle_process long_interval_config"
        "idle_process long_interval_config" "()" Map.empty] wf
    by (simp add: long_interval_config_def calm_manager_env_def)
qed

text \<open>C33. The configuration the repository ships passes validation and brings the process down: on any
  machine on which starts succeed, after its seventeenth repetition the rate has grown to more than
  a billion, and the first publisher that ticks after the ramp-up panics.\<close>

theorem shipped_configuration_crashes:
  assumes "starts (me_engine env)" and "process_reaches env ok p0 p" and "pr_status p = Alive"
    and "mg_phase (pr_manager p) = Listening" and "\<not> mg_mutex (pr_manager p)" and "mg_workers (pr_manager p) = []"
    and "channel (pr_manager p) = [validated_config]" and "enables_publishers (mg_mode (pr_manager p))"
    and "me_createStorage env (cfg_Storage validated_config) (mg_world (pr_manager p)) = (Some st, w)"
  shows "Config_Validate shipped_config = Return validated_config
    \<and> (\<exists>p'. process_reaches env ok p0 p' \<and> pr_status p' = Crashed)"
proof -
  obtain q i where q: "process_reaches env ok p0 q" "pr_status q = Alive"
    "mg_workers (pr_manager q) = [new_worker i validated_config (NewEngine (NewCollector 0) (Some st)
       (enables_publishers (mg_mode (pr_manager p))) (enables_consumers (mg_mode (pr_manager p))) w)]"
    (is "_ = [new_worker i _ ?e]")
    using process_launches [OF assms(2-7,9), of 0] by blast
  have "eg_enablePublishers ?e" using assms(8) by (simp add: NewEngine_def)
  then obtain k where k: "(worker_step (me_engine env))\<^sup>*\<^sup>* (new_worker i validated_config ?e) k" "worker_panics (me_engine env) k"
    using shipped_run_panics [OF assms(1)] by blast
  obtain r where "process_reaches env ok p0 r" "pr_status r = Alive" "mg_workers (pr_manager r) = [k]"
    using process_worker_moves [OF k(1) q] by blast
  with process_crashes [OF _ _ _ k(2)] Config_Validate_shipped show ?thesis by simp
qed

theorem shipped_configuration_crashes_witness:
  "\<exists>p. process_reaches calm_manager_env config_wf (idle_process validated_config) p \<and> pr_status p = Crashed"
proof -
  have "config_wf validated_config" by (rule example_config_wf [OF example_policies_wf(1)])
  then have "process_reaches calm_manager_env config_wf (idle_process validated_config) (idle_process validated_config)"
    by (intro process_reaches_refl) simp
  moreover have "starts (me_engine calm_manager_env)" using calm_start by (simp add: starts_def)
  ultimately show ?thesis
    using shipped_configuration_crashes [of calm_manager_env config_wf "idle_process validated_config"
        "idle_process validated_config" "()" Map.empty]
    by (simp add: enables_publishers_def) (simp add: calm_manager_env_def)
qed

section \<open>A service without its server\<close>

text \<open>C35. When the HTTP server cannot listen on its port, or is shut down and its last
  handler has returned, it never listens again while the rest of the service goes on: the queue only
  loses configurations, so a service without a default configuration does nothing for ever.\<close>

theorem failed_server_starves:
  assumes "manager_reaches env m m'" and "hs_server (mg_server m) \<in> {Some ServerFailed, Some ServerClosed}"
  shows "hs_server (mg_server m') \<in> {Some ServerFailed, Some ServerClosed} \<and> suffix (channel m') (channel m)"
  using assms(1)
proof induction
  case (manager_reaches_step m' m'')
  have "hs_server (mg_server m'') \<in> {Some ServerFailed, Some ServerClosed} \<and> suffix (channel m'') (channel m')"
    using manager_reaches_step.hyps(2)
  proof cases
    case (config_locked cfg now)
    with manager_reaches_step.IH show ?thesis
      by (auto simp: locked_case_def install_config_def launch_def SetConfig_server_def SetCollector_def Let_def
          split: option.split prod.split)
  qed (use manager_reaches_step.IH in \<open>auto simp: HTTPServer_Stop_def handles_def cancel_last_def pop_channel_def share_def clear_run_def
      SetConfig_server_def SetCollector_def release_run_def cancel_context_def suffix_ConsI\<close>)
  with manager_reaches_step.IH show ?case by (meson suffix_order.trans)
qed (use assms(2) in simp)

theorem failed_server_starves_witness:
  "\<exists>m m'. manager_reaches calm_manager_env (NewManager 9481 ''both'' Map.empty) m \<and> hs_server (mg_server m) = Some ServerFailed
    \<and> manager_reaches calm_manager_env m m' \<and> mg_ctxDone m' \<and> hs_server (mg_server m') \<noteq> Some ServerListening \<and> channel m' = []"
proof -
  let ?start = "NewManager 9481 ''both'' Map.empty :: (server, unit) Manager"
  let ?failed = "?start\<lparr>mg_server := (mg_server ?start)\<lparr>hs_server := Some ServerFailed\<rparr>\<rparr>"
  have "manager_step calm_manager_env ?start ?failed"
    by (rule http_started [where binds = False]) (simp_all add: NewManager_def NewHTTPServer_def HTTPServer_Start_def)
  then have r: "manager_reaches calm_manager_env ?start ?failed" by (rule manager_reaches_step [OF manager_reaches_refl])
  have "manager_step calm_manager_env ?failed (cancel_context ?failed)" by (rule context_cancelled)
  then have r': "manager_reaches calm_manager_env ?failed (cancel_context ?failed)"
    by (rule manager_reaches_step [OF manager_reaches_refl])
  have "channel ?failed = []" by (simp add: NewManager_def NewHTTPServer_def)
  with failed_server_starves [OF r'] r r' show ?thesis
    by (intro exI [of _ ?failed] exI [of _ "cancel_context ?failed"]) (auto simp: cancel_context_def)
qed

end
