(* ===== verification/Spec2Isabelle.thy ===== *)
theory Spec2Isabelle
  imports Config_Properties Stats_Properties Engine_Properties Service_Properties Process_Properties
begin

text \<open>
  A verification of the NATS load tester, a Go program that publishes and consumes messages on a
  NATS server as a configuration asks, collects statistics and stores them.  A command
  (\<open>cmd/load-tester/main.go\<close>) starts a manager (\<open>internal/loadtest\<close>); an HTTP server
  (\<open>internal/controlplane\<close>) queues the configurations it receives (\<open>internal/config\<close>); the
  manager runs one at a time on an engine (\<open>internal/engine\<close>), whose publishers and consumers
  report to a collector with a storage (\<open>internal/stats\<close>).

  \<^bold>\<open>The Go language and its library.\<close>
  \<^item> \<open>Go_Base\<close>: integers as words read by \<open>sint\<close>, the type \<open>outcome\<close> (a result, an error, a panic),
    decimal numbers, \<open>strings.ReplaceAll\<close>, \<open>strings.Split\<close>, \<open>fmt.Sprintf\<close> with \<open>%d\<close>, slices trimmed at
    the front.
  \<^item> \<open>Float64\<close>: binary floating point with 53 bits as rationals, rounded to even; conversion to
    integers truncates, and out of range it is a parameter (\<open>impl\<close>), as the language says.
  \<^item> \<open>Go_Time\<close>: instants in nanoseconds, durations as 64-bit words, \<open>time.ParseDuration\<close>.

  \<^bold>\<open>Configuration\<close> (\<open>internal/config/config.go\<close>).
  \<^item> \<open>Config_Types\<close>: the structs as records with their field order and widths, the constants.
  \<^item> \<open>Config_Validate\<close>: every \<open>Validate\<close>, with its errors in order and the defaults it fills in; the
    well-formed configurations \<open>config_wf\<close> and that validation reaches them and stays there.
  \<^item> \<open>Config_Streams\<close>: the names and subjects of streams and their options.  \<open>Config_Repeat\<close>:
    \<open>ApplyMultipliers\<close> and when it is exact or keeps a spec well-formed.
  \<^item> \<open>Config_Hash\<close>, \<open>Config_Json\<close>: the JSON of a configuration by its struct tags, hash and equality,
    and decoding.  \<open>Example_Config\<close>: the configuration shipped with the program.

  \<^bold>\<open>Statistics\<close> (\<open>internal/stats\<close>).
  \<^item> \<open>Stats_Types\<close>: the records and their JSON, errors with the JSON they are encoded to.
  \<^item> \<open>Bounded_Log\<close>: the interface of a list that keeps its newest elements, implemented by the latency
    samples and by the entries of a cache.  \<open>Collector\<close>: the operations of the collector and its loop.
    \<open>Latency_Summary\<close>: the summary of the samples against its mathematical meaning.
  \<^item> \<open>Stats_Store\<close>: the interface of a storage to the collector.  \<open>File_Storage\<close>,
    \<open>File_Storage_Correct\<close>: the file as a list of lines, rewritten through a temporary file, with every
    system call allowed to fail; atomicity, well-formed caches and what a restart recovers.  \<open>Badger_Storage\<close>,
    \<open>Badger_Correct\<close>: the key-value store as an interface with the laws \<open>badger_laws\<close>, its keys and
    their order.  \<open>Badger_Expiry\<close>: the database over time, the time to live of an entry and the
    garbage collection.

  \<^bold>\<open>Engine\<close> (\<open>internal/engine\<close>).
  \<^item> \<open>Nats_Api\<close>: the calls of the NATS client as functions on a world \<open>'w\<close>, arguments of everything
    below.  \<open>Backoff\<close>: \<open>exponentialBackoff\<close>.  \<open>Stream_Manager\<close>: setting up and cleaning up streams; with
    a server that changes only the stream it is asked for (\<open>jetstream_laws\<close>: every call may fail) a set-up
    that succeeds is an update of a map, and a clean-up deletes what the server lets it delete.
  \<^item> \<open>Targets\<close>: the loops over streams, subjects and counts shared by publishers and consumers.
    \<open>Ramp_Up\<close>: the controller over the interface \<open>rated_publisher\<close>.  \<open>Publisher\<close>, \<open>Consumer\<close>: their
    configuration, steps and creation, and the timestamps in messages.
  \<^item> \<open>Engine\<close>, \<open>Engine_Correct\<close>: \<open>Start\<close> with every early return, \<open>Stop\<close>, \<open>connect\<close>, \<open>cleanup\<close>;
    \<open>Running\<close>: the goroutines of a started engine as a step relation on the engine they share.
    \<open>Pull_Loop\<close>: the goroutine of a pull consumer and what it counts.

  \<^bold>\<open>Service\<close> (\<open>internal/loadtest\<close>, \<open>internal/controlplane\<close>, \<open>cmd\<close>).
  \<^item> \<open>Worker\<close>: \<open>processConfig\<close> as a step relation; it owns the copy of the configuration that the
    multipliers change in place and the goroutines of the running spec.  \<open>No_Panic\<close>: when a goroutine
    of a run panics, and the configurations with which none does.
  \<^item> \<open>Control_Plane\<close>: the server's state, its start and stop, its handlers and routes.  \<open>Manager\<close>: the
    loop of \<open>run\<close>, the mutex, the deferred calls, interleaved with requests and the worker; its
    invariant.
  \<^item> \<open>Main_Command\<close>: the checks of the command, the default configuration, the choice of a storage.
    \<open>Run_Storage\<close>: the manager's storages on one machine, and that the file or the database a run has
    closed is the one the next run opens.
  \<^item> \<open>Process\<close>: \<open>main\<close> and the process it starts, with signals, crashes and exit statuses, as steps around
    those of the manager.  \<open>Shipped_Run\<close>: the run of the shipped configuration up to its crash.

  \<^bold>\<open>Properties.\<close>  \<open>Config_Properties\<close>, \<open>Stats_Properties\<close>, \<open>Engine_Properties\<close>, \<open>Service_Properties\<close> and
  \<open>Process_Properties\<close> state the properties, each with its number, a text and a witness on the
  shipped configuration or the environment of \<open>Example_Env\<close>.  They say: validation is sound and accepts exactly what it
  should; names are distinct; JSON and the two storages give back what was put in, and when they
  do not; logs and samples stay bounded and keep the newest; the summary is the order statistic it
  claims to be; retries are bounded; an engine always starts or reports, its goroutines never
  fail on a valid spec with a fitting rate, and stopping leaves behind no stream it may delete; at most one run
  exists at any time and a new configuration can always take over; a process whose configurations
  fit, and whose client is silent until the collector has its spec, never crashes.  Some state what the code does against its intent: an overflow and a rate
  that crash the process, a signal that leaves the streams behind, a service without its HTTP
  server, a lost full rate, failures that cannot be read back, a repetition that never ends.

  \<^bold>\<open>Bounds and fuel.\<close>  No definition needs fuel: the loops over lists and counts are recursive, the loops
  that run until a cancellation are step relations (\<open>ramp_reaches\<close>, \<open>group_step\<close>, \<open>worker_step\<close>,
  \<open>manager_step\<close>, \<open>process_step\<close>) or recursive on the list of the events they find (\<open>collector_loop\<close>,
  \<open>pull_loop\<close>, \<open>gc_loop\<close>).  A round of Badger's garbage collection may not end and is a partial
  function (\<open>gc_again\<close>), with a lemma on when it returns.  Lists of subjects are bounded by \<open>countable_subjects\<close> (less than 2 to the 31),
  where the code counts them in 32 bits.  \<open>startable\<close> is a validated spec with such lists and an
  error log of at least one line: log limits are not validated, and without a line the first error
  recorded is a panic.

  \<^bold>\<open>Granularity.\<close>  A step of a goroutine is a tick, a message, a collection or an event of the ramp-up.
  The start of an engine is one step; what the client reports to its error handler between the
  connection and the configuration of the collector is a step or a panic of its own
  (\<open>error_before_config\<close>, \<open>error_before_config_panics\<close>).  Shutting down the HTTP server takes two steps,
  with handlers that still finish in between.
  The consumers of a spec are started in the order of their list, though the code starts them
  concurrently.  A burst of messages is one step.  The goroutine of a pull consumer, which the group
  does not wait for, takes steps in the group only while the group runs.

  \<^bold>\<open>Not modelled.\<close>  Logging; how \<open>cobra\<close> reads flags (a parameter of \<open>main\<close>); the middleware of the
  HTTP server except the recovery of a panicking handler; the options of the Badger database; the
  insides of the NATS client, its options and its reconnections; data races on the fields the code
  guards with different mutexes; in JSON, keys of another case, duplicate keys and invalid text.  The
  test files, container and cluster files hold no logic of the program.
\<close>

end
